(* ===== verification/Kaede_Prelude.thy ===== *)
theory Kaede_Prelude
  imports Complex_Main "HOL-Library.Word"
begin

text \<open>
  The shared base of the development: the result type of fallible operations, the Python
  strings (lists of code points) and their decimal rendering, JSON-like values, entity
  references, and the generic facts about bit masks, lists and first matches that the
  components use.
\<close>

unbundle bit_operations_syntax

named_theorems mask_simps \<open>bit-level reading of the mask operations\<close>
named_theorems result_simps \<open>inversion of results of fallible operations\<close>

section \<open>Results\<close>

text \<open>
  A raise of the source is a value: \<open>HTTPException status code\<close> stands for FastAPI's exception
  with its \<open>detail.code\<close>, the other constructors for the built-in exceptions with their message.
\<close>

datatype error =
    HTTPException int string
  | ValueError string
  | RuntimeError string
  | KeyError string
  | OverflowError string
  | TypeError string

type_synonym 'a result = "error + 'a"

definition rbind :: "'e + 'a \<Rightarrow> ('a \<Rightarrow> 'e + 'b) \<Rightarrow> 'e + 'b" where
  "rbind r f = (case r of Inl e \<Rightarrow> Inl e | Inr x \<Rightarrow> f x)"

definition is_ok :: "'e + 'a \<Rightarrow> bool" where
  "is_ok r = (case r of Inl _ \<Rightarrow> False | Inr _ \<Rightarrow> True)"

lemma rbind_simps [simp]: "rbind (Inl e) f = Inl e" "rbind (Inr x) f = f x"
  by (simp_all add: rbind_def)

lemma rbind_Inr_iff [result_simps]: "rbind r f = Inr y \<longleftrightarrow> (\<exists>x. r = Inr x \<and> f x = Inr y)"
  by (cases r) auto

lemma rbind_Inl_iff [result_simps]:
  "rbind r f = Inl e \<longleftrightarrow> r = Inl e \<or> (\<exists>x. r = Inr x \<and> f x = Inl e)"
  by (cases r) auto

lemma is_ok_simps [simp]: "\<not> is_ok (Inl e)" "is_ok (Inr x)"
  by (simp_all add: is_ok_def)

lemma is_ok_iff: "is_ok r \<longleftrightarrow> (\<exists>x. r = Inr x)"
  by (cases r) auto

section \<open>Python strings\<close>

text \<open>
  A Python \<open>str\<close> is a list of code points. Protocol constants are written as ASCII literals and
  read with \<open>ucs\<close>.
\<close>

type_synonym ustr = "nat list"

definition ucs :: "string \<Rightarrow> ustr" where
  "ucs s = map of_char s"

lemma ucs_inject [simp]: "ucs s = ucs t \<longleftrightarrow> s = t"
  by (simp add: ucs_def inj_map_eq_map inj_of_char)

text \<open>The code points \<open>str.strip\<close> removes.\<close>

definition is_space :: "nat \<Rightarrow> bool" where
  "is_space c \<longleftrightarrow> (9 \<le> c \<and> c \<le> 13) \<or> (28 \<le> c \<and> c \<le> 32) \<or> c \<in> {133, 160, 5760, 8232, 8233, 8239, 8287, 12288} \<or>
     (8192 \<le> c \<and> c \<le> 8202)"

definition strip :: "ustr \<Rightarrow> ustr" where
  "strip s = rev (dropWhile is_space (rev (dropWhile is_space s)))"

lemma dropWhile_id: "(s \<noteq> [] \<Longrightarrow> \<not> p (hd s)) \<Longrightarrow> dropWhile p s = s"
  by (cases s) auto

lemma strip_idem [simp]: "strip (strip s) = strip s"
proof -
  define u where "u = dropWhile is_space s"
  define v where "v = dropWhile is_space (rev u)"
  have v: "dropWhile is_space v = v" by (simp add: v_def)
  have "dropWhile is_space (rev v) = rev v"
  proof (rule dropWhile_id)
    assume ne: "rev v \<noteq> []"
    obtain w where w: "rev u = w @ v" unfolding v_def by (metis takeWhile_dropWhile_id)
    then have u: "u = rev v @ rev w" by (metis rev_append rev_rev_ident)
    then have "hd u = hd (rev v)" "u \<noteq> []" using ne by auto
    then show "\<not> is_space (hd (rev v))" using hd_dropWhile [of is_space s] unfolding u_def by simp
  qed
  then show ?thesis using v by (simp add: strip_def u_def [symmetric] v_def [symmetric])
qed

text \<open>\<open>str(n)\<close> of a non-negative integer, and \<open>int(s)\<close> of a decimal string.\<close>

fun str_nat :: "nat \<Rightarrow> ustr" where
  "str_nat n = (if n < 10 then [48 + n] else str_nat (n div 10) @ [48 + n mod 10])"

declare str_nat.simps [simp del]

definition is_digit :: "nat \<Rightarrow> bool" where
  "is_digit c \<longleftrightarrow> 48 \<le> c \<and> c \<le> 57"

definition nat_of_str :: "ustr \<Rightarrow> nat" where
  "nat_of_str s = foldl (\<lambda>acc c. 10 * acc + (c - 48)) 0 s"

text \<open>A canonical decimal: non-empty, digits only, no leading zero except \<open>0\<close> itself.\<close>

definition canonical_decimal :: "ustr \<Rightarrow> bool" where
  "canonical_decimal s \<longleftrightarrow> s \<noteq> [] \<and> list_all is_digit s \<and> \<not> (1 < length s \<and> hd s = 48)"

lemma nat_of_str_append [simp]: "nat_of_str (s @ [c]) = 10 * nat_of_str s + (c - 48)"
  by (simp add: nat_of_str_def)

lemma nat_of_str_Nil [simp]: "nat_of_str [] = 0"
  by (simp add: nat_of_str_def)

lemma str_nat_nonempty [simp]: "str_nat n \<noteq> []"
  by (subst str_nat.simps) simp

lemma nat_of_str_str_nat [simp]: "nat_of_str (str_nat n) = n"
proof (induction n rule: str_nat.induct)
  case (1 n)
  show ?case
  proof (cases "n < 10")
    case True
    then show ?thesis by (simp add: str_nat.simps [of n] nat_of_str_def)
  next
    case False
    with 1 show ?thesis by (simp add: str_nat.simps [of n])
  qed
qed

lemma str_nat_digits: "list_all is_digit (str_nat n)"
proof (induction n rule: str_nat.induct)
  case (1 n)
  then show ?case by (cases "n < 10") (simp_all add: str_nat.simps [of n] is_digit_def)
qed

lemma hd_str_nat: "0 < n \<Longrightarrow> hd (str_nat n) \<noteq> 48"
proof (induction n rule: str_nat.induct)
  case (1 n)
  then show ?case by (cases "n < 10") (auto simp: str_nat.simps [of n])
qed

lemma canonical_str_nat: "canonical_decimal (str_nat n)"
proof (cases n)
  case 0
  then show ?thesis by (simp add: canonical_decimal_def str_nat.simps is_digit_def)
next
  case (Suc m)
  then show ?thesis using hd_str_nat [of n] by (simp add: canonical_decimal_def str_nat_digits)
qed

lemma nat_of_str_pos: "canonical_decimal s \<Longrightarrow> hd s \<noteq> 48 \<Longrightarrow> 0 < nat_of_str s"
proof (induction s rule: rev_induct)
  case Nil
  then show ?case by (simp add: canonical_decimal_def)
next
  case (snoc c s)
  show ?case
  proof (cases "s = []")
    case True
    with snoc.prems show ?thesis
      by (auto simp: canonical_decimal_def is_digit_def nat_of_str_def)
  next
    case False
    with snoc.prems have "canonical_decimal s" "hd s \<noteq> 48"
      by (auto simp: canonical_decimal_def)
    with snoc.IH show ?thesis by simp
  qed
qed

lemma str_nat_nat_of_str: "canonical_decimal s \<Longrightarrow> str_nat (nat_of_str s) = s"
proof (induction s rule: rev_induct)
  case Nil
  then show ?case by (simp add: canonical_decimal_def)
next
  case (snoc c s)
  from snoc.prems have c: "48 \<le> c" "c \<le> 57"
    by (auto simp: canonical_decimal_def is_digit_def)
  then obtain d where d: "c = 48 + d" "d < 10" by (auto simp: le_iff_add)
  show ?case
  proof (cases "s = []")
    case True
    with c show ?thesis by (simp add: nat_of_str_def str_nat.simps)
  next
    case False
    with snoc.prems have s: "canonical_decimal s" "hd s \<noteq> 48"
      by (auto simp: canonical_decimal_def)
    then have "0 < nat_of_str s" by (rule nat_of_str_pos)
    then have "\<not> 10 * nat_of_str s + d < 10" by simp
    then have "str_nat (10 * nat_of_str s + d) = str_nat (nat_of_str s) @ [48 + d]"
      using d by (simp add: str_nat.simps [of "10 * nat_of_str s + d"])
    then show ?thesis using snoc.IH [OF s(1)] d by simp
  qed
qed

text \<open>\<open>str(i)\<close> as an ASCII string, for the keys that formatted strings build.\<close>

definition string_of_int :: "int \<Rightarrow> string" where
  "string_of_int i =
     (if i < 0 then ''-'' @ map char_of (str_nat (nat (- i))) else map char_of (str_nat (nat i)))"

lemma digits_chars: "map (of_char \<circ> (char_of :: nat \<Rightarrow> char)) (str_nat n) = str_nat n"
proof -
  have "list_all is_digit (str_nat n)" by (rule str_nat_digits)
  then show ?thesis by (intro map_idI) (auto simp: list_all_iff is_digit_def of_char_of)
qed

lemma digits_inject: "map (char_of :: nat \<Rightarrow> char) (str_nat a) = map char_of (str_nat b) \<longleftrightarrow> a = b"
proof
  assume "map (char_of :: nat \<Rightarrow> char) (str_nat a) = map char_of (str_nat b)"
  then have "map (of_char :: char \<Rightarrow> nat) (map char_of (str_nat a)) = map of_char (map char_of (str_nat b))" by (rule arg_cong)
  then have "str_nat a = str_nat b" by (simp add: digits_chars)
  then show "a = b" by (metis nat_of_str_str_nat)
qed simp

lemma char_not_digit:
  assumes "\<not> is_digit (of_char c)"
  shows "c \<notin> set (map char_of (str_nat n))"
proof
  assume "c \<in> set (map char_of (str_nat n))"
  then obtain d where "c = char_of d" "d \<in> set (str_nat n)" by auto
  then show False using assms str_nat_digits [of n] by (auto simp: list_all_iff is_digit_def of_char_of)
qed

lemma string_of_int_chars: "\<not> is_digit (of_char c) \<Longrightarrow> c \<noteq> CHR ''-'' \<Longrightarrow> c \<notin> set (string_of_int i)"
  using char_not_digit [of c] by (auto simp: string_of_int_def)

lemma string_of_int_inject [simp]: "string_of_int i = string_of_int j \<longleftrightarrow> i = j"
proof -
  have minus: "CHR ''-'' \<notin> set (map char_of (str_nat n))" for n
    by (rule char_not_digit) (simp add: is_digit_def)
  have neq: "''-'' @ s \<noteq> map char_of (str_nat n)" for s n
  proof
    assume eq: "''-'' @ s = map char_of (str_nat n)"
    have "CHR ''-'' \<in> set (''-'' @ s)" by simp
    then show False unfolding eq using minus by blast
  qed
  show ?thesis
    unfolding string_of_int_def
    using neq neq [symmetric] by (auto simp: digits_inject simp del: append_Cons append_Nil)
qed

lemma le_div_int_iff: "0 < (b::int) \<Longrightarrow> d \<le> a div b \<longleftrightarrow> d * b \<le> a"
proof
  assume b: "0 < b" and "d \<le> a div b"
  then have "d * b \<le> a div b * b" by simp
  also have "\<dots> \<le> a" using b by (metis div_mult_mod_eq le_add_same_cancel1 pos_mod_sign)
  finally show "d * b \<le> a" .
next
  assume b: "0 < b" and "d * b \<le> a"
  then have "d * b div b \<le> a div b" by (intro zdiv_mono1)
  with b show "d \<le> a div b" by simp
qed

section \<open>Dynamic values\<close>

text \<open>
  A Python object as JSON decoding or internal code can produce it. \<open>PNonFinite\<close> is an infinite
  or undefined float, \<open>POther\<close> an object JSON cannot encode; dictionaries keep their insertion order and their
  keys may be any value.
\<close>

datatype pyval =
    PNone
  | PBool bool
  | PInt int
  | PFloat rat
  | PNonFinite
  | PStr ustr
  | PList "pyval list"
  | PDict "(pyval \<times> pyval) list"
  | POther

text \<open>\<open>bool(x)\<close>, and \<open>x == y\<close> for numbers, strings and the containers of them.\<close>

definition truthy :: "pyval \<Rightarrow> bool" where
  "truthy v = (case v of
      PNone \<Rightarrow> False | PBool b \<Rightarrow> b | PInt i \<Rightarrow> i \<noteq> 0 | PFloat q \<Rightarrow> q \<noteq> 0 | PStr s \<Rightarrow> s \<noteq> []
    | PList xs \<Rightarrow> xs \<noteq> [] | PDict d \<Rightarrow> d \<noteq> [] | _ \<Rightarrow> True)"

definition number_of :: "pyval \<Rightarrow> rat option" where
  "number_of v = (case v of
      PBool b \<Rightarrow> Some (if b then 1 else 0) | PInt i \<Rightarrow> Some (of_int i) | PFloat q \<Rightarrow> Some q | _ \<Rightarrow> None)"

fun py_eq :: "pyval \<Rightarrow> pyval \<Rightarrow> bool" where
  "py_eq (PList xs) (PList ys) \<longleftrightarrow> list_all2 py_eq xs ys"
| "py_eq (PDict d) (PDict e) \<longleftrightarrow> length d = length e \<and>
     list_all (\<lambda>kv. list_ex (\<lambda>kv'. py_eq (fst kv) (fst kv') \<and> py_eq (snd kv) (snd kv')) e) d"
| "py_eq (PStr s) (PStr t) \<longleftrightarrow> s = t"
| "py_eq PNone PNone \<longleftrightarrow> True"
| "py_eq v w \<longleftrightarrow> number_of v \<noteq> None \<and> number_of v = number_of w"

text \<open>\<open>d.get(key)\<close> for a string key; \<open>PNone\<close> stands for a missing entry.\<close>

definition dict_get :: "(pyval \<times> pyval) list \<Rightarrow> string \<Rightarrow> pyval" where
  "dict_get d key = (case find (\<lambda>kv. fst kv = PStr (ucs key)) d of Some kv \<Rightarrow> snd kv | None \<Rightarrow> PNone)"

abbreviation pkey :: "string \<Rightarrow> pyval" where
  "pkey name \<equiv> PStr (ucs name)"

text \<open>\<open>d.get(key, default)\<close>, \<open>key in d\<close>, \<open>set(d) == {...}\<close> and the \<open>isinstance\<close> tests.\<close>

definition dict_get_or :: "(pyval \<times> pyval) list \<Rightarrow> string \<Rightarrow> pyval \<Rightarrow> pyval" where
  "dict_get_or d name dflt = (case find (\<lambda>kv. fst kv = pkey name) d of Some kv \<Rightarrow> snd kv | None \<Rightarrow> dflt)"

definition has_key :: "(pyval \<times> pyval) list \<Rightarrow> string \<Rightarrow> bool" where
  "has_key d name \<longleftrightarrow> pkey name \<in> set (map fst d)"

definition has_keys :: "(pyval \<times> pyval) list \<Rightarrow> string list \<Rightarrow> bool" where
  "has_keys d names \<longleftrightarrow> set (map fst d) = set (map (\<lambda>n. PStr (ucs n)) names)"

definition as_int :: "pyval \<Rightarrow> int option" where
  "as_int v = (case v of PInt i \<Rightarrow> Some i | _ \<Rightarrow> None)"

definition as_str :: "pyval \<Rightarrow> ustr option" where
  "as_str v = (case v of PStr s \<Rightarrow> Some s | _ \<Rightarrow> None)"

definition as_dict :: "pyval \<Rightarrow> (pyval \<times> pyval) list option" where
  "as_dict v = (case v of PDict d \<Rightarrow> Some d | _ \<Rightarrow> None)"

text \<open>
  \<open>x in {...}\<close>: the membership test of a set hashes its argument, so a list or a dictionary raises.
\<close>

definition in_set :: "pyval \<Rightarrow> pyval list \<Rightarrow> bool result" where
  "in_set v elements =
     (case v of
        PList _ \<Rightarrow> Inl (TypeError ''unhashable type: list'')
      | PDict _ \<Rightarrow> Inl (TypeError ''unhashable type: dict'')
      | _ \<Rightarrow> Inr (list_ex (py_eq v) elements))"

lemma in_set_PStr [simp]: "in_set (PStr s) (map PStr names) = Inr (s \<in> set names)"
  by (auto simp: in_set_def list_ex_iff)

lemma in_set_strings:
  "in_set v (map PStr names) = Inr True \<longleftrightarrow> (\<exists>s. v = PStr s \<and> s \<in> set names)"
  by (cases v) (auto simp: in_set_def list_ex_iff number_of_def)

lemma py_eq_PStr [simp]: "py_eq v (PStr s) \<longleftrightarrow> v = PStr s"
  by (cases v) (auto simp: number_of_def)

lemma py_eq_empty [simp]: "py_eq v (PDict []) \<longleftrightarrow> v = PDict []" "py_eq v (PList []) \<longleftrightarrow> v = PList []"
  by (cases v; auto simp: number_of_def)+

lemma as_str_PStr [simp]: "as_str (PStr s) = Some s"
  by (simp add: as_str_def)

lemma number_of_PInt [simp]: "number_of (PInt i) = Some (of_int i)"
  by (simp add: number_of_def)

lemma py_eq_PInt: "py_eq v (PInt i) \<longleftrightarrow> number_of v = Some (of_int i)"
  by (cases v) (auto simp: number_of_def)

lemma dict_literals:
  "dict_get_or ((PStr (ucs k), v) # d) name dflt = (if k = name then v else dict_get_or d name dflt)"
  "dict_get ((PStr (ucs k), v) # d) name = (if k = name then v else dict_get d name)"
  "dict_get_or [] name dflt = dflt" "dict_get [] name = PNone"
  by (auto simp: dict_get_or_def dict_get_def)

section \<open>Joined keys\<close>

text \<open>\<open>sep.join(parts)\<close>\<close>

fun join_with :: "'a \<Rightarrow> 'a list list \<Rightarrow> 'a list" where
  "join_with sep [] = []"
| "join_with sep [p] = p"
| "join_with sep (p # q # ps) = p @ sep # join_with sep (q # ps)"

lemma append_sep_inject:
  "sep \<notin> set p \<Longrightarrow> sep \<notin> set q \<Longrightarrow> p @ sep # r = q @ sep # s \<longleftrightarrow> p = q \<and> r = s"
proof (induction p arbitrary: q)
  case Nil
  then show ?case by (cases q) auto
next
  case (Cons a p)
  then show ?case by (cases q) auto
qed

lemma append_sep_neq: "sep \<notin> set q \<Longrightarrow> p @ sep # r \<noteq> q"
  by auto

lemma join_with_inject:
  assumes "xs \<noteq> []" "ys \<noteq> []" "\<forall>p\<in>set xs. sep \<notin> set p" "\<forall>p\<in>set ys. sep \<notin> set p"
  shows "join_with sep xs = join_with sep ys \<longleftrightarrow> xs = ys"
  using assms
proof (induction sep xs arbitrary: ys rule: join_with.induct)
  case (2 sep p)
  then obtain q qs where ys: "ys = q # qs" by (cases ys) auto
  show ?case
  proof (cases qs)
    case (Cons r rs)
    then show ?thesis using 2 append_sep_neq [of sep p q "join_with sep qs"] by (auto simp: ys)
  qed (simp add: ys)
next
  case (3 sep p p' ps)
  then obtain q qs where ys: "ys = q # qs" by (cases ys) auto
  show ?case
  proof (cases qs)
    case Nil
    then show ?thesis using 3 append_sep_neq [of sep q p "join_with sep (p' # ps)"] by (auto simp: ys)
  next
    case (Cons r rs)
    then show ?thesis
      using 3 by (auto simp: ys append_sep_inject simp del: join_with.simps(3) simp add: join_with.simps(3) [of sep _ p' ps] join_with.simps(3) [of sep _ r rs])
  qed
qed simp

section \<open>Entity references\<close>

text \<open>Every federated entity is named by its identifier and the domain that issued it.\<close>

type_synonym entity_ref = "int \<times> string"

section \<open>Bit masks\<close>

text \<open>
  Python integers are unbounded two's complement numbers, as \<open>int\<close> with \<open>AND\<close>, \<open>OR\<close>, \<open>NOT\<close> is.
  \<open>flag n\<close> is \<open>1 << n\<close>; \<open>submask\<close> says that every bit of one mask is a bit of the other.
\<close>

definition flag :: "nat \<Rightarrow> int" where
  "flag n = push_bit n 1"

definition submask :: "int \<Rightarrow> int \<Rightarrow> bool" where
  "submask a b \<longleftrightarrow> a AND NOT b = 0"

lemma bit_flag [mask_simps]: "bit (flag n) k \<longleftrightarrow> n = k"
  by (auto simp: flag_def bit_exp_iff)

lemma flag_pos: "0 < flag n"
  by (simp add: flag_def push_bit_eq_mult)

lemma and_flag: "m AND flag n = (if bit m n then flag n else 0)"
  by (rule bit_eqI) (auto simp: bit_and_iff bit_flag)

lemma and_flag_nonzero: "m AND flag n \<noteq> 0 \<longleftrightarrow> bit m n"
  using flag_pos [of n] by (simp add: and_flag)

lemma and_flag_neq: "m AND flag n \<noteq> flag n \<longleftrightarrow> \<not> bit m n"
  using flag_pos [of n] by (simp add: and_flag)

lemmas mask_bit_simps [mask_simps] =
  bit_and_iff bit_or_iff bit_not_int_iff and_flag_nonzero and_flag_neq

lemma submask_iff: "submask a b \<longleftrightarrow> (\<forall>k. bit a k \<longrightarrow> bit b k)"
  unfolding submask_def bit_eq_iff [of "a AND NOT b" 0] by (auto simp: mask_simps)

lemma submask_refl [simp]: "submask a a"
  by (simp add: submask_iff)

lemma submask_trans: "submask a b \<Longrightarrow> submask b c \<Longrightarrow> submask a c"
  by (simp add: submask_iff)

lemma submask_antisym: "submask a b \<Longrightarrow> submask b a \<Longrightarrow> a = b"
  by (auto simp: submask_iff intro: bit_eqI)

lemma submask_0 [simp]: "submask 0 b"
  by (simp add: submask_iff)

lemma submask_and_left [simp]: "submask (a AND b) a" "submask (a AND b) b"
  by (simp_all add: submask_iff bit_and_iff)

lemma submask_or_iff: "submask (a OR b) c \<longleftrightarrow> submask a c \<and> submask b c"
  by (auto simp: submask_iff bit_or_iff)

lemma submask_and_mono: "submask a b \<Longrightarrow> submask (a AND c) (b AND c)"
  by (simp add: submask_iff bit_and_iff)

lemma submask_nonneg: "submask a b \<Longrightarrow> 0 \<le> b \<Longrightarrow> 0 \<le> a"
proof -
  assume "submask a b" "0 \<le> b"
  then have "a = a AND b" by (auto simp: submask_iff bit_and_iff intro: bit_eqI)
  with \<open>0 \<le> b\<close> show "0 \<le> a" by (metis and_nonnegative_int_iff)
qed

lemma submask_le: "submask a b \<Longrightarrow> 0 \<le> b \<Longrightarrow> a \<le> b"
proof -
  assume "submask a b" "0 \<le> b"
  then have "a = b AND a" by (auto simp: submask_iff bit_and_iff intro: bit_eqI)
  with AND_upper1 [OF \<open>0 \<le> b\<close>, of a] show "a \<le> b" by simp
qed

text \<open>\<open>reduce(bit_or, xs, 0)\<close>\<close>

definition or_list :: "int list \<Rightarrow> int" where
  "or_list xs = foldl (OR) 0 xs"

lemma bit_foldl_or: "bit (foldl (OR) a xs) k \<longleftrightarrow> bit (a::int) k \<or> (\<exists>x\<in>set xs. bit x k)"
  by (induction xs arbitrary: a) (auto simp: bit_or_iff)

lemma bit_or_list [mask_simps]: "bit (or_list xs) k \<longleftrightarrow> (\<exists>x\<in>set xs. bit x k)"
  by (simp add: or_list_def bit_foldl_or)

lemma submask_or_list: "submask (or_list xs) c \<longleftrightarrow> (\<forall>x\<in>set xs. submask x c)"
  by (auto simp: submask_iff bit_or_list)

section \<open>Lists\<close>

text \<open>\<open>next((x for x in xs if p(x)), None)\<close> is the library's \<open>find\<close>.\<close>

lemma find_SomeD: "find p xs = Some x \<Longrightarrow> x \<in> set xs \<and> p x"
  by (induction xs) (auto split: if_splits)

lemma find_unique:
  assumes "x \<in> set xs" "p x" and uniq: "\<And>y. y \<in> set xs \<Longrightarrow> p y \<Longrightarrow> y = x"
  shows "find p xs = Some x"
proof (cases "find p xs")
  case None
  with assms(1,2) show ?thesis by (simp add: find_None_iff)
next
  case (Some y)
  with uniq [of y] show ?thesis by (auto dest: find_SomeD)
qed

text \<open>\<open>max(xs, key=f)\<close>: the first element of greatest key; an empty list raises.\<close>

fun max_key :: "('a \<Rightarrow> 'k::linorder) \<Rightarrow> 'a \<Rightarrow> 'a list \<Rightarrow> 'a" where
  "max_key f best [] = best"
| "max_key f best (x # xs) = max_key f (if f best < f x then x else best) xs"

lemma max_key_in: "max_key f best xs \<in> insert best (set xs)"
  by (induction f best xs rule: max_key.induct) (auto split: if_splits)

lemma max_key_ge: "x \<in> insert best (set xs) \<Longrightarrow> f x \<le> f (max_key f best xs)"
proof (induction f best xs arbitrary: x rule: max_key.induct)
  case (2 f best y ys)
  let ?b = "if f best < f y then y else best"
  have b: "f ?b \<le> f (max_key f ?b ys)" using "2.IH" by simp
  show ?case
  proof (cases "x \<in> set ys")
    case True
    then show ?thesis using "2.IH" [of x] by simp
  next
    case False
    with "2.prems" have "f x \<le> f ?b" by auto
    with b show ?thesis by simp
  qed
qed simp

end
