(* ===== verification/Permissions.thy ===== *)
theory Permissions
  imports Kaede_Prelude
begin

text \<open>
  The permission protocol of the server: the channel type registry (\<open>core/channel_types.py\<close>), the
  published permission bits, their metadata with the dependency contract and the versioned wire
  form (\<open>core/permissions.py\<close>), and the authoritative per-operation requirements
  (\<open>core/permission_contract.py\<close>). The lemmas show that the bits are pairwise distinct and fit a
  signed BIGINT, that the metadata describes every permission exactly once with an acyclic
  dependency relation, and that the wire form round-trips.
\<close>

section \<open>Channel types\<close>

definition GUILD_VOICE_CHANNEL :: int where
  "GUILD_VOICE_CHANNEL = 2"

definition GUILD_STAGE_VOICE_CHANNEL :: int where
  "GUILD_STAGE_VOICE_CHANNEL = 13"

definition GUILD_CHANNEL_TYPES :: "int set" where
  "GUILD_CHANNEL_TYPES = {0, 2, 4, 5, 10, 11, 12, 13, 15, 17}"

definition GUILD_VOICE_CHANNEL_TYPES :: "int set" where
  "GUILD_VOICE_CHANNEL_TYPES = {GUILD_VOICE_CHANNEL, GUILD_STAGE_VOICE_CHANNEL}"

definition GUILD_MESSAGE_CHANNEL_TYPES :: "int set" where
  "GUILD_MESSAGE_CHANNEL_TYPES = {0, 2, 5, 10, 11, 12, 13}"

definition GUILD_TEXT_PERMISSION_CHANNEL_TYPES :: "int set" where
  "GUILD_TEXT_PERMISSION_CHANNEL_TYPES = GUILD_MESSAGE_CHANNEL_TYPES \<union> {15}"

definition GUILD_PINNABLE_CHANNEL_TYPES :: "int set" where
  "GUILD_PINNABLE_CHANNEL_TYPES = {0, 5, 10, 11, 12, 15}"

definition GUILD_WEBHOOK_CHANNEL_TYPES :: "int set" where
  "GUILD_WEBHOOK_CHANNEL_TYPES = {0, 5, 15}"

definition GUILD_SEND_MESSAGES_CHANNEL_TYPES :: "int set" where
  "GUILD_SEND_MESSAGES_CHANNEL_TYPES = {0, 2, 5, 13, 15}"

definition DIRECT_MESSAGE_CHANNEL_TYPES :: "int set" where
  "DIRECT_MESSAGE_CHANNEL_TYPES = {1, 3}"

definition is_message_capable_channel_type :: "int \<Rightarrow> bool \<Rightarrow> bool" where
  "is_message_capable_channel_type channel_type guild_channel \<longleftrightarrow>
     channel_type \<in> (if guild_channel then GUILD_MESSAGE_CHANNEL_TYPES else DIRECT_MESSAGE_CHANNEL_TYPES)"

definition is_pinnable_guild_channel_type :: "int \<Rightarrow> bool" where
  "is_pinnable_guild_channel_type channel_type \<longleftrightarrow> channel_type \<in> GUILD_PINNABLE_CHANNEL_TYPES"

definition is_soundboard_channel_type :: "int \<Rightarrow> bool" where
  "is_soundboard_channel_type channel_type \<longleftrightarrow> channel_type = GUILD_VOICE_CHANNEL"

definition validate_voice_channel_limits :: "int \<Rightarrow> int option \<Rightarrow> int option \<Rightarrow> unit result" where
  "validate_voice_channel_limits channel_type bitrate user_limit =
     (if channel_type \<notin> GUILD_VOICE_CHANNEL_TYPES then Inr ()
      else
        let max_bitrate = (if channel_type = GUILD_STAGE_VOICE_CHANNEL then 64000 else 384000);
            max_users = (if channel_type = GUILD_STAGE_VOICE_CHANNEL then 10000 else 99)
        in if (case bitrate of None \<Rightarrow> False | Some b \<Rightarrow> \<not> (8000 \<le> b \<and> b \<le> max_bitrate))
           then Inl (ValueError ''bitrate is out of range'')
           else if (case user_limit of None \<Rightarrow> False | Some u \<Rightarrow> \<not> (0 \<le> u \<and> u \<le> max_users))
           then Inl (ValueError ''user_limit is out of range'')
           else Inr ())"

section \<open>Permission bits\<close>

text \<open>
  The members of the \<open>IntFlag\<close> in definition order; the three same-bit compatibility names are
  the entries of \<open>PERMISSION_ALIASES\<close> below.
\<close>

datatype (plugins only: code size) permission =
    CREATE_INVITE
  | KICK_MEMBERS
  | BAN_MEMBERS
  | ADMINISTRATOR
  | MANAGE_CHANNELS
  | MANAGE_GUILD
  | ADD_REACTIONS
  | VIEW_AUDIT_LOG
  | PRIORITY_SPEAKER
  | VIEW_CHANNEL
  | SEND_MESSAGES
  | SEND_TTS_MESSAGES
  | MANAGE_MESSAGES
  | EMBED_LINKS
  | ATTACH_FILES
  | READ_MESSAGE_HISTORY
  | MENTION_EVERYONE
  | USE_EXTERNAL_EMOJIS
  | CONNECT
  | SPEAK
  | MUTE_MEMBERS
  | DEAFEN_MEMBERS
  | MOVE_MEMBERS
  | USE_VAD
  | CHANGE_NICKNAME
  | MANAGE_NICKNAMES
  | MANAGE_ROLES
  | MANAGE_WEBHOOKS
  | MANAGE_EMOJIS
  | STREAM
  | USE_APPLICATION_COMMANDS
  | REQUEST_TO_SPEAK
  | MANAGE_THREADS
  | CREATE_PUBLIC_THREADS
  | CREATE_PRIVATE_THREADS
  | SEND_MESSAGES_IN_THREADS
  | MANAGE_EVENTS
  | MODERATE_MEMBERS
  | BAN_INSTANCES
  | USE_SOUNDBOARD
  | CREATE_GUILD_EXPRESSIONS
  | CREATE_EVENTS
  | USE_EXTERNAL_SOUNDS
  | SEND_VOICE_MESSAGES
  | SET_VOICE_CHANNEL_STATUS
  | SEND_POLLS
  | USE_EXTERNAL_APPS
  | PIN_MESSAGES
  | BYPASS_SLOWMODE
  | CREATE_TRACKER_TASKS
  | EDIT_OWN_TRACKER_TASKS
  | MANAGE_TRACKER_TASKS
  | ASSIGN_TRACKER_TASKS
  | MANAGE_TRACKER
  | USE_EXTERNAL_STICKERS

primrec perm_bit :: "permission \<Rightarrow> nat" where
  "perm_bit CREATE_INVITE = 0"
| "perm_bit KICK_MEMBERS = 1"
| "perm_bit BAN_MEMBERS = 2"
| "perm_bit ADMINISTRATOR = 3"
| "perm_bit MANAGE_CHANNELS = 4"
| "perm_bit MANAGE_GUILD = 5"
| "perm_bit ADD_REACTIONS = 6"
| "perm_bit VIEW_AUDIT_LOG = 7"
| "perm_bit PRIORITY_SPEAKER = 8"
| "perm_bit VIEW_CHANNEL = 10"
| "perm_bit SEND_MESSAGES = 11"
| "perm_bit SEND_TTS_MESSAGES = 12"
| "perm_bit MANAGE_MESSAGES = 13"
| "perm_bit EMBED_LINKS = 14"
| "perm_bit ATTACH_FILES = 15"
| "perm_bit READ_MESSAGE_HISTORY = 16"
| "perm_bit MENTION_EVERYONE = 17"
| "perm_bit USE_EXTERNAL_EMOJIS = 18"
| "perm_bit CONNECT = 20"
| "perm_bit SPEAK = 21"
| "perm_bit MUTE_MEMBERS = 22"
| "perm_bit DEAFEN_MEMBERS = 23"
| "perm_bit MOVE_MEMBERS = 24"
| "perm_bit USE_VAD = 25"
| "perm_bit CHANGE_NICKNAME = 26"
| "perm_bit MANAGE_NICKNAMES = 27"
| "perm_bit MANAGE_ROLES = 28"
| "perm_bit MANAGE_WEBHOOKS = 29"
| "perm_bit MANAGE_EMOJIS = 30"
| "perm_bit STREAM = 31"
| "perm_bit USE_APPLICATION_COMMANDS = 32"
| "perm_bit REQUEST_TO_SPEAK = 33"
| "perm_bit MANAGE_THREADS = 34"
| "perm_bit CREATE_PUBLIC_THREADS = 35"
| "perm_bit CREATE_PRIVATE_THREADS = 36"
| "perm_bit SEND_MESSAGES_IN_THREADS = 38"
| "perm_bit MANAGE_EVENTS = 39"
| "perm_bit MODERATE_MEMBERS = 40"
| "perm_bit BAN_INSTANCES = 41"
| "perm_bit USE_SOUNDBOARD = 43"
| "perm_bit CREATE_GUILD_EXPRESSIONS = 44"
| "perm_bit CREATE_EVENTS = 45"
| "perm_bit USE_EXTERNAL_SOUNDS = 46"
| "perm_bit SEND_VOICE_MESSAGES = 47"
| "perm_bit SET_VOICE_CHANNEL_STATUS = 48"
| "perm_bit SEND_POLLS = 49"
| "perm_bit USE_EXTERNAL_APPS = 50"
| "perm_bit PIN_MESSAGES = 51"
| "perm_bit BYPASS_SLOWMODE = 52"
| "perm_bit CREATE_TRACKER_TASKS = 53"
| "perm_bit EDIT_OWN_TRACKER_TASKS = 54"
| "perm_bit MANAGE_TRACKER_TASKS = 55"
| "perm_bit ASSIGN_TRACKER_TASKS = 56"
| "perm_bit MANAGE_TRACKER = 57"
| "perm_bit USE_EXTERNAL_STICKERS = 58"

text \<open>Iteration over the \<open>IntFlag\<close> class: its canonical members.\<close>

definition all_permissions :: "permission list" where
  "all_permissions =
    [CREATE_INVITE, KICK_MEMBERS, BAN_MEMBERS, ADMINISTRATOR, MANAGE_CHANNELS, MANAGE_GUILD,
     ADD_REACTIONS, VIEW_AUDIT_LOG, PRIORITY_SPEAKER, VIEW_CHANNEL, SEND_MESSAGES,
     SEND_TTS_MESSAGES, MANAGE_MESSAGES, EMBED_LINKS, ATTACH_FILES, READ_MESSAGE_HISTORY,
     MENTION_EVERYONE, USE_EXTERNAL_EMOJIS, CONNECT, SPEAK, MUTE_MEMBERS, DEAFEN_MEMBERS,
     MOVE_MEMBERS, USE_VAD, CHANGE_NICKNAME, MANAGE_NICKNAMES, MANAGE_ROLES, MANAGE_WEBHOOKS,
     MANAGE_EMOJIS, STREAM, USE_APPLICATION_COMMANDS, REQUEST_TO_SPEAK, MANAGE_THREADS,
     CREATE_PUBLIC_THREADS, CREATE_PRIVATE_THREADS, SEND_MESSAGES_IN_THREADS, MANAGE_EVENTS,
     MODERATE_MEMBERS, BAN_INSTANCES, USE_SOUNDBOARD, CREATE_GUILD_EXPRESSIONS, CREATE_EVENTS,
     USE_EXTERNAL_SOUNDS, SEND_VOICE_MESSAGES, SET_VOICE_CHANNEL_STATUS, SEND_POLLS,
     USE_EXTERNAL_APPS, PIN_MESSAGES, BYPASS_SLOWMODE, CREATE_TRACKER_TASKS,
     EDIT_OWN_TRACKER_TASKS, MANAGE_TRACKER_TASKS, ASSIGN_TRACKER_TASKS, MANAGE_TRACKER,
     USE_EXTERNAL_STICKERS]"

definition perm_value :: "permission \<Rightarrow> int" where
  "perm_value p = flag (perm_bit p)"

text \<open>The union \<open>P | Q | ...\<close> of permissions, and the truth value of \<open>mask & P\<close>.\<close>

definition mask_of :: "permission list \<Rightarrow> int" where
  "mask_of ps = or_list (map perm_value ps)"

definition has :: "int \<Rightarrow> permission \<Rightarrow> bool" where
  "has m p \<longleftrightarrow> m AND perm_value p \<noteq> 0"

definition BLOCKED_MEMBER_INTERACTION_PERMISSIONS :: int where
  "BLOCKED_MEMBER_INTERACTION_PERMISSIONS = mask_of
     [ADD_REACTIONS, PRIORITY_SPEAKER, SEND_MESSAGES, SEND_TTS_MESSAGES, MENTION_EVERYONE, CONNECT,
      SPEAK, USE_VAD, STREAM, USE_APPLICATION_COMMANDS, REQUEST_TO_SPEAK, CREATE_PUBLIC_THREADS,
      CREATE_PRIVATE_THREADS, SEND_MESSAGES_IN_THREADS, USE_SOUNDBOARD, USE_EXTERNAL_SOUNDS,
      CREATE_EVENTS, SEND_VOICE_MESSAGES, SET_VOICE_CHANNEL_STATUS, SEND_POLLS, USE_EXTERNAL_APPS,
      CREATE_TRACKER_TASKS, EDIT_OWN_TRACKER_TASKS]"

definition ALL_PERMISSIONS :: int where
  "ALL_PERMISSIONS = sum_list (map perm_value all_permissions)"

definition PERMISSION_SCHEMA :: string where
  "PERMISSION_SCHEMA = ''kaede-permissions-v1''"

definition PERMISSION_ALIASES :: "(string \<times> permission) list" where
  "PERMISSION_ALIASES =
     [(''CREATE_INSTANT_INVITE'', CREATE_INVITE),
      (''MANAGE_GUILD_EXPRESSIONS'', MANAGE_EMOJIS),
      (''MANAGE_AUTO_MODERATION'', MANAGE_GUILD)]"

section \<open>Wire form\<close>

definition permission_mask_to_wire :: "pyval \<Rightarrow> (pyval \<times> pyval) list result" where
  "permission_mask_to_wire value =
     (case value of
        PInt raw_mask \<Rightarrow>
          if raw_mask < 0 \<or> raw_mask AND NOT ALL_PERMISSIONS \<noteq> 0
          then Inl (ValueError ''permission mask contains unknown bits'')
          else Inr [(PStr (ucs ''schema''), PStr (ucs PERMISSION_SCHEMA)),
                    (PStr (ucs ''value''), PStr (str_nat (nat raw_mask)))]
      | _ \<Rightarrow> Inl (ValueError ''permission mask must be an integer''))"

definition permission_mask_from_wire :: "(pyval \<times> pyval) list \<Rightarrow> int result" where
  "permission_mask_from_wire payload =
     (if fst ` set payload \<noteq> {PStr (ucs ''schema''), PStr (ucs ''value'')}
      then Inl (ValueError ''permission mask envelope is invalid'')
      else if map_of payload (PStr (ucs ''schema'')) \<noteq> Some (PStr (ucs PERMISSION_SCHEMA))
      then Inl (ValueError ''permission schema is unsupported'')
      else case map_of payload (PStr (ucs ''value'')) of
             Some (PStr value) \<Rightarrow>
               if value = [] \<or> \<not> list_all (\<lambda>c. c < 128) value \<or> \<not> list_all is_digit value
                  \<or> (1 < length value \<and> hd value = 48)
               then Inl (ValueError ''permission mask is not a canonical decimal string'')
               else let raw_mask = int (nat_of_str value)
                    in if raw_mask AND NOT ALL_PERMISSIONS \<noteq> 0
                       then Inl (ValueError ''permission mask contains unknown bits'')
                       else Inr raw_mask
           | _ \<Rightarrow> Inl (ValueError ''permission mask is not a canonical decimal string''))"

section \<open>Permission metadata\<close>

record PermissionMetadata =
  pm_permission :: permission
  pm_label :: string
  pm_description :: string
  pm_group :: string
  pm_resource_scopes :: "string list"
  pm_channel_types :: "int list"
  pm_dependencies :: "permission list"
  pm_danger :: string

definition permission_entry ::
  "permission \<Rightarrow> string \<Rightarrow> string \<Rightarrow> string \<Rightarrow> string list \<Rightarrow> int list \<Rightarrow> permission list \<Rightarrow> string
   \<Rightarrow> PermissionMetadata" where
  "permission_entry p label description grp scopes channel_types dependencies danger =
     \<lparr>pm_permission = p, pm_label = label, pm_description = description, pm_group = grp,
      pm_resource_scopes = scopes, pm_channel_types = channel_types,
      pm_dependencies = dependencies, pm_danger = danger\<rparr>"

definition TEXT_PERMISSION_CHANNEL_TYPES :: "int list" where
  "TEXT_PERMISSION_CHANNEL_TYPES = sorted_list_of_set GUILD_TEXT_PERMISSION_CHANNEL_TYPES"

definition SEND_MESSAGES_CHANNEL_TYPES :: "int list" where
  "SEND_MESSAGES_CHANNEL_TYPES = sorted_list_of_set GUILD_SEND_MESSAGES_CHANNEL_TYPES"

definition PIN_MESSAGES_CHANNEL_TYPES :: "int list" where
  "PIN_MESSAGES_CHANNEL_TYPES = sorted_list_of_set GUILD_PINNABLE_CHANNEL_TYPES"

definition WEBHOOK_CHANNEL_TYPES :: "int list" where
  "WEBHOOK_CHANNEL_TYPES = sorted_list_of_set GUILD_WEBHOOK_CHANNEL_TYPES"

text \<open>The metadata table, in the order of the source, in four segments.\<close>

definition PERMISSION_METADATA_1 :: "PermissionMetadata list" where
  "PERMISSION_METADATA_1 =
    [permission_entry CREATE_INVITE ''Create invites''
       ''Create guild invitation links.''
       ''General'' [''guild'', ''channel''] [0, 2, 4, 5, 10, 11, 12, 13, 15, 17]
       [] ''normal'',
     permission_entry KICK_MEMBERS ''Kick members''
       ''Remove lower-ranked members from the guild.''
       ''Membership'' [''guild''] []
       [] ''elevated'',
     permission_entry BAN_MEMBERS ''Ban members''
       ''Ban lower-ranked members and optionally remove their messages.''
       ''Membership'' [''guild''] []
       [] ''dangerous'',
     permission_entry ADMINISTRATOR ''Administrator''
       ''Bypass all channel permission overwrites and grant every permission.''
       ''Advanced'' [''guild''] []
       [] ''critical'',
     permission_entry MANAGE_CHANNELS ''Manage channels''
       ''Create, edit, reorder, and delete channels and categories.''
       ''Management'' [''guild'', ''channel''] [0, 2, 4, 5, 10, 11, 12, 13, 15, 17]
       [] ''elevated'',
     permission_entry MANAGE_GUILD ''Manage guild''
       ''Change guild settings and federation policy.''
       ''Management'' [''guild''] []
       [] ''elevated'',
     permission_entry ADD_REACTIONS ''Add reactions''
       ''Add reactions to messages.''
       ''Text'' [''channel''] TEXT_PERMISSION_CHANNEL_TYPES
       [VIEW_CHANNEL, READ_MESSAGE_HISTORY] ''normal'',
     permission_entry VIEW_AUDIT_LOG ''View audit log''
       ''View security-sensitive guild administration history.''
       ''Management'' [''guild''] []
       [] ''elevated'',
     permission_entry PRIORITY_SPEAKER ''Priority speaker''
       ''Reduce other participants' volume while speaking in voice channels.''
       ''Voice'' [''channel''] [2]
       [CONNECT, SPEAK] ''normal'',
     permission_entry VIEW_CHANNEL ''View channel''
       ''See a channel and its live activity.''
       ''General'' [''channel''] [0, 2, 4, 5, 10, 11, 12, 13, 15, 17]
       [] ''normal'',
     permission_entry SEND_MESSAGES ''Send messages''
       ''Send messages in channels and create posts in forum channels.''
       ''Text'' [''channel''] SEND_MESSAGES_CHANNEL_TYPES
       [VIEW_CHANNEL] ''normal'',
     permission_entry SEND_TTS_MESSAGES ''Send text-to-speech messages''
       ''Send messages that clients may read aloud.''
       ''Text'' [''channel''] TEXT_PERMISSION_CHANNEL_TYPES
       [VIEW_CHANNEL, SEND_MESSAGES] ''normal'',
     permission_entry MANAGE_MESSAGES ''Manage messages''
       ''Delete and moderate other members' messages.''
       ''Text'' [''channel''] TEXT_PERMISSION_CHANNEL_TYPES
       [VIEW_CHANNEL] ''elevated'',
     permission_entry EMBED_LINKS ''Embed links''
       ''Expand links into rich previews.''
       ''Text'' [''channel''] TEXT_PERMISSION_CHANNEL_TYPES
       [VIEW_CHANNEL] ''normal'',
     permission_entry ATTACH_FILES ''Attach files''
       ''Upload and attach files to messages.''
       ''Text'' [''channel''] TEXT_PERMISSION_CHANNEL_TYPES
       [VIEW_CHANNEL] ''normal'',
     permission_entry READ_MESSAGE_HISTORY ''Read message history''
       ''Read retained messages and receive permitted federated history.''
       ''Text'' [''channel''] TEXT_PERMISSION_CHANNEL_TYPES
       [VIEW_CHANNEL] ''normal'']"

definition PERMISSION_METADATA_2 :: "PermissionMetadata list" where
  "PERMISSION_METADATA_2 =
    [permission_entry MENTION_EVERYONE ''Mention everyone''
       ''Notify broad guild or role audiences.''
       ''Text'' [''channel''] TEXT_PERMISSION_CHANNEL_TYPES
       [VIEW_CHANNEL] ''elevated'',
     permission_entry USE_EXTERNAL_EMOJIS ''Use external emoji''
       ''Use emoji originating outside this guild.''
       ''Text'' [''channel''] TEXT_PERMISSION_CHANNEL_TYPES
       [VIEW_CHANNEL] ''normal'',
     permission_entry USE_EXTERNAL_STICKERS ''Use external stickers''
       ''Use stickers originating outside this guild.''
       ''Text'' [''channel''] TEXT_PERMISSION_CHANNEL_TYPES
       [VIEW_CHANNEL] ''normal'',
     permission_entry CONNECT ''Connect''
       ''Join voice channels.''
       ''Voice'' [''channel''] [2, 13]
       [VIEW_CHANNEL] ''normal'',
     permission_entry SPEAK ''Speak''
       ''Publish microphone audio in voice channels.''
       ''Voice'' [''channel''] [2]
       [CONNECT] ''normal'',
     permission_entry MUTE_MEMBERS ''Mute members''
       ''Server-mute other voice participants.''
       ''Voice moderation'' [''channel''] [2, 13]
       [] ''elevated'',
     permission_entry DEAFEN_MEMBERS ''Deafen members''
       ''Server-deafen other voice participants.''
       ''Voice moderation'' [''channel''] [2]
       [] ''elevated'',
     permission_entry MOVE_MEMBERS ''Move members''
       ''Move voice participants between channels.''
       ''Voice moderation'' [''channel''] [2, 13]
       [CONNECT] ''elevated'',
     permission_entry USE_VAD ''Use voice activity''
       ''Transmit with voice activity detection instead of push-to-talk.''
       ''Voice'' [''channel''] [2]
       [SPEAK] ''normal'',
     permission_entry CHANGE_NICKNAME ''Change nickname''
       ''Change your own guild nickname.''
       ''Membership'' [''guild''] []
       [] ''normal'',
     permission_entry MANAGE_NICKNAMES ''Manage nicknames''
       ''Change lower-ranked members' nicknames.''
       ''Membership'' [''guild''] []
       [] ''elevated'',
     permission_entry MANAGE_ROLES ''Manage roles and permissions''
       ''Manage lower roles, member role assignments, and channel overwrites.''
       ''Management'' [''guild'', ''channel''] [0, 2, 4, 5, 10, 11, 12, 13, 15, 17]
       [] ''critical'',
     permission_entry MANAGE_WEBHOOKS ''Manage webhooks''
       ''Create, edit, rotate, and revoke channel webhooks.''
       ''Management'' [''guild'', ''channel''] WEBHOOK_CHANNEL_TYPES
       [] ''critical'',
     permission_entry MANAGE_EMOJIS ''Manage guild expressions''
       ''Edit and remove emoji, stickers, and soundboard sounds created by other members.''
       ''Management'' [''guild''] []
       [] ''elevated'',
     permission_entry STREAM ''Share video and screen''
       ''Publish camera video or screen shares in voice and Stage channels.''
       ''Voice'' [''channel''] [2, 13]
       [CONNECT] ''normal'',
     permission_entry USE_APPLICATION_COMMANDS ''Use application commands''
       ''Use slash commands and context menu commands from applications.''
       ''Applications'' [''channel''] [0, 2, 5, 10, 11, 12, 13, 15, 17]
       [VIEW_CHANNEL] ''normal'']"

definition PERMISSION_METADATA_3 :: "PermissionMetadata list" where
  "PERMISSION_METADATA_3 =
    [permission_entry REQUEST_TO_SPEAK ''Request to speak''
       ''Request speaker access in moderated voice channels.''
       ''Voice'' [''channel''] [13]
       [VIEW_CHANNEL, CONNECT] ''normal'',
     permission_entry MANAGE_THREADS ''Manage threads and posts''
       ''Rename, archive, lock, delete, and view private threads and forum posts.''
       ''Thread management'' [''guild'', ''channel''] [0, 5, 10, 11, 12, 15]
       [VIEW_CHANNEL] ''elevated'',
     permission_entry CREATE_PUBLIC_THREADS ''Create public threads''
       ''Create public and announcement threads.''
       ''Threads'' [''channel''] [0, 5]
       [VIEW_CHANNEL] ''normal'',
     permission_entry CREATE_PRIVATE_THREADS ''Create private threads''
       ''Create private threads.''
       ''Threads'' [''channel''] [0]
       [VIEW_CHANNEL] ''normal'',
     permission_entry SEND_MESSAGES_IN_THREADS ''Send messages in threads''
       ''Send messages in public, private, announcement, and forum-post threads.''
       ''Threads'' [''channel''] [0, 5, 10, 11, 12, 15]
       [VIEW_CHANNEL] ''normal'',
     permission_entry MANAGE_EVENTS ''Manage events''
       ''Edit and cancel guild events created by other members.''
       ''Management'' [''guild'', ''channel''] [2, 13]
       [] ''elevated'',
     permission_entry MODERATE_MEMBERS ''Timeout members''
       ''Temporarily or indefinitely restrict lower-ranked members.''
       ''Membership'' [''guild''] []
       [] ''dangerous'',
     permission_entry BAN_INSTANCES ''Ban federated instances''
       ''Remove and block every member from a federated instance.''
       ''Federation'' [''guild''] []
       [] ''critical'',
     permission_entry USE_SOUNDBOARD ''Use soundboard''
       ''Play guild soundboard sounds in voice channels.''
       ''Voice'' [''channel''] [2]
       [VIEW_CHANNEL, CONNECT, SPEAK] ''normal'',
     permission_entry CREATE_GUILD_EXPRESSIONS ''Create guild expressions''
       ''Create guild emoji, stickers, and soundboard sounds.''
       ''Management'' [''guild''] []
       [] ''elevated'',
     permission_entry CREATE_EVENTS ''Create events''
       ''Create guild events.''
       ''Management'' [''guild'', ''channel''] [2, 13]
       [] ''normal'',
     permission_entry USE_EXTERNAL_SOUNDS ''Use external sounds''
       ''Play soundboard sounds originating outside this guild.''
       ''Voice'' [''channel''] [2]
       [VIEW_CHANNEL, CONNECT, SPEAK, USE_SOUNDBOARD] ''normal'',
     permission_entry SEND_VOICE_MESSAGES ''Send voice messages''
       ''Send recorded voice messages in text, voice, Stage, and thread chats.''
       ''Text'' [''channel''] TEXT_PERMISSION_CHANNEL_TYPES
       [VIEW_CHANNEL] ''normal'',
     permission_entry SET_VOICE_CHANNEL_STATUS ''Set voice channel status''
       ''Set the displayed status for a voice channel.''
       ''Voice'' [''channel''] [2]
       [VIEW_CHANNEL] ''normal'',
     permission_entry SEND_POLLS ''Send polls''
       ''Create polls in text, voice, Stage, and thread chats.''
       ''Text'' [''channel''] TEXT_PERMISSION_CHANNEL_TYPES
       [VIEW_CHANNEL] ''normal'']"

definition PERMISSION_METADATA_4 :: "PermissionMetadata list" where
  "PERMISSION_METADATA_4 =
    [permission_entry USE_EXTERNAL_APPS ''Use external apps''
       ''Let user-installed apps that are not installed to this guild send public responses; otherwise their responses are private.''
       ''Applications'' [''channel''] [0, 2, 5, 10, 11, 12, 13, 15, 17]
       [VIEW_CHANNEL] ''normal'',
     permission_entry PIN_MESSAGES ''Pin messages''
       ''Pin and unpin messages in text channels and threads.''
       ''Text moderation'' [''channel''] PIN_MESSAGES_CHANNEL_TYPES
       [VIEW_CHANNEL, READ_MESSAGE_HISTORY] ''elevated'',
     permission_entry BYPASS_SLOWMODE ''Bypass slowmode''
       ''Send messages and create posts without waiting for slowmode.''
       ''Text'' [''channel''] TEXT_PERMISSION_CHANNEL_TYPES
       [VIEW_CHANNEL] ''elevated'',
     permission_entry CREATE_TRACKER_TASKS ''Create tracker tasks''
       ''Add tasks to tracker channels.''
       ''Tracker'' [''channel''] [17]
       [VIEW_CHANNEL] ''normal'',
     permission_entry EDIT_OWN_TRACKER_TASKS ''Edit own tracker tasks''
       ''Edit, move, complete, and delete tasks you created or are assigned.''
       ''Tracker'' [''channel''] [17]
       [VIEW_CHANNEL] ''normal'',
     permission_entry MANAGE_TRACKER_TASKS ''Manage tracker tasks''
       ''Edit, move, complete, and delete any task in tracker channels.''
       ''Tracker moderation'' [''channel''] [17]
       [VIEW_CHANNEL] ''elevated'',
     permission_entry ASSIGN_TRACKER_TASKS ''Assign tracker tasks''
       ''Assign and unassign other members on tracker tasks.''
       ''Tracker moderation'' [''channel''] [17]
       [VIEW_CHANNEL] ''elevated'',
     permission_entry MANAGE_TRACKER ''Manage tracker''
       ''Change tracker settings and create, edit, reorder, or remove lanes.''
       ''Tracker management'' [''channel''] [17]
       [VIEW_CHANNEL] ''elevated'']"

definition PERMISSION_METADATA :: "PermissionMetadata list" where
  "PERMISSION_METADATA =
     PERMISSION_METADATA_1 @ PERMISSION_METADATA_2 @ PERMISSION_METADATA_3 @ PERMISSION_METADATA_4"

definition PERMISSION_METADATA_BY_PERMISSION :: "permission \<rightharpoonup> PermissionMetadata" where
  "PERMISSION_METADATA_BY_PERMISSION =
     map_of (rev (map (\<lambda>item. (pm_permission item, item)) PERMISSION_METADATA))"

section \<open>Endpoint contract\<close>

record EndpointPermissionContract =
  ec_operation :: string
  ec_permission :: int
  ec_scope :: string
  ec_conditional :: "string option"

definition contract :: "string \<Rightarrow> int \<Rightarrow> string \<Rightarrow> string option \<Rightarrow> EndpointPermissionContract" where
  "contract operation permission scope conditional =
     \<lparr>ec_operation = operation, ec_permission = permission, ec_scope = scope,
      ec_conditional = conditional\<rparr>"

definition CONTRACTS_1 :: "EndpointPermissionContract list" where
  "CONTRACTS_1 =
    [contract ''guild.update'' (mask_of [MANAGE_GUILD]) ''guild'' None,
     contract ''guild.audit.list'' (mask_of [VIEW_AUDIT_LOG]) ''guild'' None,
     contract ''guild.invite.list'' (mask_of [MANAGE_GUILD]) ''guild'' None,
     contract ''guild.invite.revoke'' (mask_of [MANAGE_GUILD, MANAGE_CHANNELS]) ''guild''
       (Some ''MANAGE_GUILD, or MANAGE_CHANNELS in the invite channel''),
     contract ''guild.expression.read'' (mask_of []) ''guild''
       (Some ''guild membership is required; no expression permission is required''),
     contract ''guild.emoji.manage'' (mask_of [MANAGE_EMOJIS]) ''guild'' None,
     contract ''guild.expression.create'' (mask_of [CREATE_GUILD_EXPRESSIONS]) ''guild'' None,
     contract ''guild.expression.manage'' (mask_of [MANAGE_EMOJIS]) ''guild'' None,
     contract ''guild.event.create'' (mask_of [CREATE_EVENTS]) ''guild'' None,
     contract ''guild.event.manage'' (mask_of [MANAGE_EVENTS]) ''guild'' None,
     contract ''guild.automod.list'' (mask_of [MANAGE_GUILD]) ''guild'' None,
     contract ''guild.automod.create'' (mask_of [MANAGE_GUILD]) ''guild'' None,
     contract ''guild.automod.update'' (mask_of [MANAGE_GUILD]) ''guild'' None,
     contract ''guild.automod.delete'' (mask_of [MANAGE_GUILD]) ''guild'' None,
     contract ''guild.asset.manage'' (mask_of [MANAGE_GUILD]) ''guild'' None,
     contract ''guild.webhook.list'' (mask_of [MANAGE_WEBHOOKS]) ''guild'' None,
     contract ''channel.create'' (mask_of [MANAGE_CHANNELS]) ''guild'' None,
     contract ''channel.update'' (mask_of [MANAGE_CHANNELS]) ''channel'' None,
     contract ''channel.voice_status.set'' (mask_of [SET_VOICE_CHANNEL_STATUS]) ''channel'' None,
     contract ''channel.delete'' (mask_of [MANAGE_CHANNELS]) ''channel'' None,
     contract ''channel.reorder'' (mask_of [MANAGE_CHANNELS]) ''guild'' None,
     contract ''channel.overwrite.list'' (mask_of [MANAGE_ROLES]) ''channel'' None,
     contract ''channel.overwrite.put'' (mask_of [MANAGE_ROLES]) ''channel''
       (Some ''actor may only grant held bits and manage lower targets''),
     contract ''channel.overwrite.delete'' (mask_of [MANAGE_ROLES]) ''channel''
       (Some ''actor must manage the target''),
     contract ''channel.permissions.sync'' (mask_of [MANAGE_ROLES]) ''channel'' None,
     contract ''role.create'' (mask_of [MANAGE_ROLES]) ''guild'' None,
     contract ''role.reorder'' (mask_of [MANAGE_ROLES]) ''guild'' None,
     contract ''role.update'' (mask_of [MANAGE_ROLES]) ''guild''
       (Some ''role hierarchy and changed-bit checks apply''),
     contract ''role.delete'' (mask_of [MANAGE_ROLES]) ''guild''
       (Some ''role hierarchy applies''),
     contract ''member.role.update'' (mask_of [MANAGE_ROLES]) ''guild''
       (Some ''member and role hierarchy apply''),
     contract ''member.kick'' (mask_of [KICK_MEMBERS]) ''guild''
       (Some ''member hierarchy applies''),
     contract ''member.ban'' (mask_of [BAN_MEMBERS]) ''guild''
       (Some ''member hierarchy applies''),
     contract ''guild.prune'' (mask_of [MANAGE_GUILD, KICK_MEMBERS]) ''guild''
       (Some ''member hierarchy applies and included roles are an allow-list''),
     contract ''guild.bulk_ban'' (mask_of [MANAGE_GUILD, BAN_MEMBERS]) ''guild''
       (Some ''member hierarchy applies to every requested user''),
     contract ''member.timeout'' (mask_of [MODERATE_MEMBERS]) ''guild''
       (Some ''member hierarchy applies''),
     contract ''member.list'' (mask_of [VIEW_CHANNEL]) ''guild'' None,
     contract ''member.nickname.self'' (mask_of [CHANGE_NICKNAME]) ''guild'' None,
     contract ''member.nickname.other'' (mask_of [MANAGE_NICKNAMES]) ''guild''
       (Some ''member hierarchy applies''),
     contract ''ban.list'' (mask_of [BAN_MEMBERS]) ''guild'' None,
     contract ''ban.remove'' (mask_of [BAN_MEMBERS]) ''guild'' None,
     contract ''instance_ban.list'' (mask_of [BAN_INSTANCES]) ''guild'' None,
     contract ''instance_ban.put'' (mask_of [BAN_INSTANCES]) ''guild''
       (Some ''actor must outrank every affected member and cannot ban the local instance''),
     contract ''instance_ban.remove'' (mask_of [BAN_INSTANCES]) ''guild'' None,
     contract ''invite.create'' (mask_of [CREATE_INVITE]) ''channel'' None,
     contract ''channel.invite.list'' (mask_of [MANAGE_CHANNELS]) ''channel'' None,
     contract ''message.list'' (mask_of [VIEW_CHANNEL, READ_MESSAGE_HISTORY]) ''channel'' None,
     contract ''announcement.follow.source'' (mask_of [VIEW_CHANNEL]) ''channel''
       (Some ''MANAGE_WEBHOOKS is required only in the destination channel''),
     contract ''message.create'' (mask_of [VIEW_CHANNEL, SEND_MESSAGES]) ''channel''
       (Some ''ATTACH_FILES is additionally required when attachments are committed; SEND_VOICE_MESSAGES is required for voice messages''),
     contract ''forum.post.create'' (mask_of [VIEW_CHANNEL, SEND_MESSAGES]) ''channel''
       (Some ''ATTACH_FILES is additionally required when the starter message has attachments''),
     contract ''thread.create.public'' (mask_of [VIEW_CHANNEL, CREATE_PUBLIC_THREADS]) ''channel''
       (Some ''the source message must belong to the parent channel when one is supplied''),
     contract ''thread.create.private'' (mask_of [VIEW_CHANNEL, CREATE_PRIVATE_THREADS]) ''channel'' None]"

definition CONTRACTS_2 :: "EndpointPermissionContract list" where
  "CONTRACTS_2 =
    [contract ''thread.message.create'' (mask_of [VIEW_CHANNEL, SEND_MESSAGES_IN_THREADS]) ''channel''
       (Some ''ATTACH_FILES is additionally required when attachments are committed; SEND_VOICE_MESSAGES is required for voice messages''),
     contract ''thread.attachment.create'' (mask_of [VIEW_CHANNEL, SEND_MESSAGES_IN_THREADS, ATTACH_FILES]) ''channel'' None,
     contract ''thread.update.self'' (mask_of [VIEW_CHANNEL]) ''channel''
       (Some ''only the owner may rename/archive/change defaults; any locked-thread mutation requires MANAGE_THREADS''),
     contract ''thread.update.other'' (mask_of [VIEW_CHANNEL, MANAGE_THREADS]) ''channel'' None,
     contract ''thread.delete'' (mask_of [VIEW_CHANNEL, MANAGE_THREADS]) ''channel'' None,
     contract ''thread.member.list'' (mask_of [VIEW_CHANNEL]) ''channel'' None,
     contract ''thread.member.join'' (mask_of [VIEW_CHANNEL]) ''channel''
       (Some ''the thread must be active; private visibility still requires existing membership''),
     contract ''thread.member.add'' (mask_of [VIEW_CHANNEL, SEND_MESSAGES_IN_THREADS]) ''channel''
       (Some ''the thread must be invitable or the actor must have MANAGE_THREADS''),
     contract ''thread.member.remove.self'' (mask_of [VIEW_CHANNEL]) ''channel'' None,
     contract ''thread.member.remove.other'' (mask_of [VIEW_CHANNEL, MANAGE_THREADS]) ''channel''
       (Some ''the private-thread creator may also remove another member''),
     contract ''application.command.use'' (mask_of [VIEW_CHANNEL, USE_APPLICATION_COMMANDS]) ''channel'' None,
     contract ''poll.create'' (mask_of [VIEW_CHANNEL, SEND_MESSAGES, SEND_POLLS]) ''channel'' None,
     contract ''soundboard.use'' (mask_of [VIEW_CHANNEL, CONNECT, SPEAK, USE_SOUNDBOARD]) ''channel'' None,
     contract ''message.delete.other'' (mask_of [MANAGE_MESSAGES]) ''channel'' None,
     contract ''message.delete.self'' (mask_of [VIEW_CHANNEL]) ''channel'' None,
     contract ''message.edit.self'' (mask_of [VIEW_CHANNEL]) ''channel''
       (Some ''only the author may edit''),
     contract ''message.bulk_delete'' (mask_of [MANAGE_MESSAGES]) ''channel'' None,
     contract ''reaction.create'' (mask_of [VIEW_CHANNEL, READ_MESSAGE_HISTORY]) ''channel''
       (Some ''ADD_REACTIONS is required only when the emoji has no existing reaction''),
     contract ''reaction.list'' (mask_of [VIEW_CHANNEL, READ_MESSAGE_HISTORY]) ''channel'' None,
     contract ''reaction.delete.self'' (mask_of [VIEW_CHANNEL]) ''channel'' None,
     contract ''reaction.delete.other'' (mask_of [MANAGE_MESSAGES]) ''channel'' None,
     contract ''pin.update'' (mask_of [VIEW_CHANNEL, READ_MESSAGE_HISTORY, PIN_MESSAGES]) ''channel'' None,
     contract ''pin.list'' (mask_of [VIEW_CHANNEL]) ''channel''
       (Some ''without READ_MESSAGE_HISTORY the current Discord API returns an empty page''),
     contract ''typing.publish'' (mask_of [VIEW_CHANNEL]) ''channel'' None,
     contract ''read_state.update'' (mask_of [VIEW_CHANNEL, READ_MESSAGE_HISTORY]) ''channel'' None,
     contract ''tracker.read'' (mask_of [VIEW_CHANNEL]) ''channel'' None,
     contract ''tracker.task.create'' (mask_of [VIEW_CHANNEL, CREATE_TRACKER_TASKS]) ''channel''
       (Some ''assigning another member additionally requires ASSIGN_TRACKER_TASKS''),
     contract ''tracker.task.update.own'' (mask_of [VIEW_CHANNEL, EDIT_OWN_TRACKER_TASKS]) ''channel''
       (Some ''the actor must have created the task or currently be assigned to it''),
     contract ''tracker.task.update.other'' (mask_of [VIEW_CHANNEL, MANAGE_TRACKER_TASKS]) ''channel'' None,
     contract ''tracker.task.assign'' (mask_of [VIEW_CHANNEL, ASSIGN_TRACKER_TASKS]) ''channel''
       (Some ''members may claim any unassigned task or unassign themselves without this permission''),
     contract ''tracker.lane.manage'' (mask_of [VIEW_CHANNEL, MANAGE_TRACKER]) ''channel'' None,
     contract ''tracker.settings.manage'' (mask_of [VIEW_CHANNEL, MANAGE_TRACKER]) ''channel'' None,
     contract ''webhook.manage'' (mask_of [MANAGE_WEBHOOKS]) ''channel'' None,
     contract ''attachment.create'' (mask_of [VIEW_CHANNEL, SEND_MESSAGES, ATTACH_FILES]) ''channel'' None,
     contract ''voice.join'' (mask_of [VIEW_CHANNEL, CONNECT]) ''channel'' None]"

definition CONTRACTS_3 :: "EndpointPermissionContract list" where
  "CONTRACTS_3 =
    [contract ''voice.mute'' (mask_of [MUTE_MEMBERS]) ''channel'' None,
     contract ''voice.deafen'' (mask_of [DEAFEN_MEMBERS]) ''channel'' None,
     contract ''voice.move'' (mask_of [MOVE_MEMBERS]) ''channel'' None,
     contract ''voice.stream'' (mask_of [STREAM]) ''channel'' None,
     contract ''voice.occupancy'' (mask_of [VIEW_CHANNEL]) ''channel'' None]"

definition CONTRACTS :: "EndpointPermissionContract list" where
  "CONTRACTS = CONTRACTS_1 @ CONTRACTS_2 @ CONTRACTS_3"

text \<open>The dictionary comprehension keeps the last contract of a name.\<close>

definition PERMISSION_CONTRACT :: "string \<rightharpoonup> EndpointPermissionContract" where
  "PERMISSION_CONTRACT = map_of (rev (map (\<lambda>c. (ec_operation c, c)) CONTRACTS))"

definition required_permissions :: "string \<Rightarrow> int result" where
  "required_permissions operation =
     (case PERMISSION_CONTRACT operation of
        Some c \<Rightarrow> Inr (ec_permission c)
      | None \<Rightarrow> Inl (RuntimeError ''unknown permission contract operation''))"

section \<open>The permission enumeration\<close>

lemma UNIV_permission: "UNIV = set all_permissions"
proof -
  have "p \<in> set all_permissions" for p
    by (cases p) (simp_all add: all_permissions_def)
  then show ?thesis by blast
qed

lemma distinct_permission_bits: "distinct (map perm_bit all_permissions)"
  by (simp add: all_permissions_def)

instantiation permission :: enum
begin

definition enum_permission_def: "(enum_class.enum :: permission list) = all_permissions"

definition enum_all_permission_def:
  "enum_class.enum_all (P :: permission \<Rightarrow> bool) \<longleftrightarrow> list_all P all_permissions"

definition enum_ex_permission_def:
  "enum_class.enum_ex (P :: permission \<Rightarrow> bool) \<longleftrightarrow> list_ex P all_permissions"

instance
proof
  show "distinct (enum_class.enum :: permission list)"
    using distinct_permission_bits by (simp add: enum_permission_def distinct_map)
qed (auto simp: enum_permission_def enum_all_permission_def enum_ex_permission_def
       UNIV_permission list_all_iff list_ex_iff)

end

lemma inj_perm_bit: "inj perm_bit"
  using distinct_permission_bits by (simp add: UNIV_permission distinct_map)

lemma perm_bit_eq_iff [simp]: "perm_bit p = perm_bit q \<longleftrightarrow> p = q"
  using inj_perm_bit by (rule inj_eq)

instantiation permission :: linorder
begin

definition less_eq_permission :: "permission \<Rightarrow> permission \<Rightarrow> bool" where
  "less_eq_permission p q \<longleftrightarrow> perm_bit p \<le> perm_bit q"

definition less_permission :: "permission \<Rightarrow> permission \<Rightarrow> bool" where
  "less_permission p q \<longleftrightarrow> perm_bit p < perm_bit q"

instance
  by intro_classes (auto simp: less_eq_permission_def less_permission_def intro: inj_perm_bit [THEN injD])

end

lemma has_iff [mask_simps]: "has m p \<longleftrightarrow> bit m (perm_bit p)"
  by (simp add: has_def perm_value_def mask_simps)

lemma bit_perm_value [mask_simps]: "bit (perm_value p) k \<longleftrightarrow> k = perm_bit p"
  by (auto simp: perm_value_def mask_simps)

lemma bit_mask_of [mask_simps]: "bit (mask_of ps) k \<longleftrightarrow> k \<in> perm_bit ` set ps"
  by (auto simp: mask_of_def mask_simps)

lemma ALL_PERMISSIONS_numeral: "ALL_PERMISSIONS = 576456216817434111"
  by (simp add: ALL_PERMISSIONS_def all_permissions_def perm_value_def flag_def)

lemma ALL_PERMISSIONS_mask_of: "ALL_PERMISSIONS = mask_of all_permissions"
  unfolding ALL_PERMISSIONS_numeral
  by (simp add: mask_of_def all_permissions_def perm_value_def flag_def or_list_def)

lemma bit_ALL_PERMISSIONS [mask_simps]: "bit ALL_PERMISSIONS k \<longleftrightarrow> k \<in> range perm_bit"
  by (simp add: ALL_PERMISSIONS_mask_of bit_mask_of UNIV_permission)

lemma ALL_PERMISSIONS_nonneg [simp]: "0 \<le> ALL_PERMISSIONS"
  by (simp add: ALL_PERMISSIONS_numeral)

lemma submask_ALL_iff: "submask m ALL_PERMISSIONS \<longleftrightarrow> (\<forall>k. bit m k \<longrightarrow> k \<in> range perm_bit)"
  by (simp add: submask_iff mask_simps)

lemma mask_of_submask_ALL [simp]: "submask (mask_of ps) ALL_PERMISSIONS"
  by (auto simp: submask_iff mask_simps)

section \<open>Metadata\<close>

lemmas metadata_table_defs =
  PERMISSION_METADATA_def PERMISSION_METADATA_1_def PERMISSION_METADATA_2_def
  PERMISSION_METADATA_3_def PERMISSION_METADATA_4_def

lemma metadata_dependencies:
  "map (\<lambda>m. (pm_permission m, pm_dependencies m)) PERMISSION_METADATA =
   [(CREATE_INVITE, []), (KICK_MEMBERS, []), (BAN_MEMBERS, []), (ADMINISTRATOR, []),
    (MANAGE_CHANNELS, []), (MANAGE_GUILD, []),
    (ADD_REACTIONS, [VIEW_CHANNEL, READ_MESSAGE_HISTORY]), (VIEW_AUDIT_LOG, []),
    (PRIORITY_SPEAKER, [CONNECT, SPEAK]), (VIEW_CHANNEL, []), (SEND_MESSAGES, [VIEW_CHANNEL]),
    (SEND_TTS_MESSAGES, [VIEW_CHANNEL, SEND_MESSAGES]), (MANAGE_MESSAGES, [VIEW_CHANNEL]),
    (EMBED_LINKS, [VIEW_CHANNEL]), (ATTACH_FILES, [VIEW_CHANNEL]),
    (READ_MESSAGE_HISTORY, [VIEW_CHANNEL]), (MENTION_EVERYONE, [VIEW_CHANNEL]),
    (USE_EXTERNAL_EMOJIS, [VIEW_CHANNEL]), (USE_EXTERNAL_STICKERS, [VIEW_CHANNEL]),
    (CONNECT, [VIEW_CHANNEL]), (SPEAK, [CONNECT]), (MUTE_MEMBERS, []), (DEAFEN_MEMBERS, []),
    (MOVE_MEMBERS, [CONNECT]), (USE_VAD, [SPEAK]), (CHANGE_NICKNAME, []),
    (MANAGE_NICKNAMES, []), (MANAGE_ROLES, []), (MANAGE_WEBHOOKS, []), (MANAGE_EMOJIS, []),
    (STREAM, [CONNECT]), (USE_APPLICATION_COMMANDS, [VIEW_CHANNEL]),
    (REQUEST_TO_SPEAK, [VIEW_CHANNEL, CONNECT]), (MANAGE_THREADS, [VIEW_CHANNEL]),
    (CREATE_PUBLIC_THREADS, [VIEW_CHANNEL]), (CREATE_PRIVATE_THREADS, [VIEW_CHANNEL]),
    (SEND_MESSAGES_IN_THREADS, [VIEW_CHANNEL]), (MANAGE_EVENTS, []), (MODERATE_MEMBERS, []),
    (BAN_INSTANCES, []), (USE_SOUNDBOARD, [VIEW_CHANNEL, CONNECT, SPEAK]),
    (CREATE_GUILD_EXPRESSIONS, []), (CREATE_EVENTS, []),
    (USE_EXTERNAL_SOUNDS, [VIEW_CHANNEL, CONNECT, SPEAK, USE_SOUNDBOARD]),
    (SEND_VOICE_MESSAGES, [VIEW_CHANNEL]), (SET_VOICE_CHANNEL_STATUS, [VIEW_CHANNEL]),
    (SEND_POLLS, [VIEW_CHANNEL]), (USE_EXTERNAL_APPS, [VIEW_CHANNEL]),
    (PIN_MESSAGES, [VIEW_CHANNEL, READ_MESSAGE_HISTORY]), (BYPASS_SLOWMODE, [VIEW_CHANNEL]),
    (CREATE_TRACKER_TASKS, [VIEW_CHANNEL]), (EDIT_OWN_TRACKER_TASKS, [VIEW_CHANNEL]),
    (MANAGE_TRACKER_TASKS, [VIEW_CHANNEL]), (ASSIGN_TRACKER_TASKS, [VIEW_CHANNEL]),
    (MANAGE_TRACKER, [VIEW_CHANNEL])]"
  by (simp add: metadata_table_defs permission_entry_def)

lemma metadata_permissions: "map pm_permission PERMISSION_METADATA = map fst (map (\<lambda>m. (pm_permission m, pm_dependencies m)) PERMISSION_METADATA)"
  by simp

lemma metadata_distinct: "distinct (map pm_permission PERMISSION_METADATA)"
  unfolding metadata_permissions metadata_dependencies by simp

lemma metadata_complete: "pm_permission ` set PERMISSION_METADATA = UNIV"
proof -
  have "pm_permission ` set PERMISSION_METADATA = set (map pm_permission PERMISSION_METADATA)" by simp
  also have "\<dots> = set all_permissions"
    unfolding metadata_permissions metadata_dependencies by (auto simp: all_permissions_def)
  finally show ?thesis by (simp add: UNIV_permission)
qed

text \<open>The published dependency relation and a rank that decreases along it.\<close>

definition depends_on :: "permission \<Rightarrow> permission \<Rightarrow> bool" where
  "depends_on p d \<longleftrightarrow> list_ex (\<lambda>m. pm_permission m = p \<and> List.member (pm_dependencies m) d) PERMISSION_METADATA"

definition dependency_rank :: "permission \<Rightarrow> nat" where
  "dependency_rank p =
     (if p = VIEW_CHANNEL then 0
      else if p \<in> {CONNECT, READ_MESSAGE_HISTORY, SEND_MESSAGES} then 1
      else if p = SPEAK then 2
      else if p = USE_SOUNDBOARD then 3
      else 4)"

lemma depends_on_iff:
  "depends_on p d \<longleftrightarrow> (\<exists>ds. (p, ds) \<in> set (map (\<lambda>m. (pm_permission m, pm_dependencies m)) PERMISSION_METADATA) \<and> d \<in> set ds)"
  by (auto simp: depends_on_def list_ex_iff)

lemma depends_on_rank: "depends_on p d \<Longrightarrow> dependency_rank d < dependency_rank p"
  unfolding depends_on_iff metadata_dependencies by (auto simp: dependency_rank_def)

lemma wf_dependencies: "wf {(d, p). depends_on p d}"
  by (rule wf_subset [OF wf_measure [of dependency_rank]]) (auto dest: depends_on_rank)

section \<open>Endpoint contract\<close>

lemmas contract_table_defs = CONTRACTS_def CONTRACTS_1_def CONTRACTS_2_def CONTRACTS_3_def contract_def

lemma contract_operations_distinct: "distinct (map ec_operation CONTRACTS)"
  by (simp add: contract_table_defs)

lemma contract_masks: "list_all (\<lambda>c. \<exists>ps. ec_permission c = mask_of ps) CONTRACTS"
  unfolding contract_table_defs by (simp, blast)

lemma required_permissions_ok:
  assumes "c \<in> set CONTRACTS"
  shows "required_permissions (ec_operation c) = Inr (ec_permission c)"
proof -
  have "map_of (map (\<lambda>c. (ec_operation c, c)) (rev CONTRACTS)) (ec_operation c) = Some c"
    using assms contract_operations_distinct
    by (intro map_of_is_SomeI) (auto simp: rev_map [symmetric] o_def)
  then show ?thesis by (simp add: required_permissions_def PERMISSION_CONTRACT_def rev_map)
qed

lemma required_permissions_unknown:
  "operation \<notin> ec_operation ` set CONTRACTS \<longleftrightarrow>
   required_permissions operation = Inl (RuntimeError ''unknown permission contract operation'')"
proof (cases "operation \<in> ec_operation ` set CONTRACTS")
  case True
  then show ?thesis using required_permissions_ok by fastforce
next
  case False
  then have "PERMISSION_CONTRACT operation = None"
    by (auto simp: PERMISSION_CONTRACT_def map_of_eq_None_iff)
  with False show ?thesis by (simp add: required_permissions_def)
qed

lemma required_permissions_known_bits:
  "required_permissions operation = Inr m \<Longrightarrow> submask m ALL_PERMISSIONS"
  using contract_masks
  by (fastforce simp: required_permissions_def PERMISSION_CONTRACT_def list_all_iff
        dest: map_of_SomeD split: option.splits)

section \<open>Wire form\<close>

lemma wire_value_canonical:
  "\<not> (v = [] \<or> \<not> list_all (\<lambda>c. c < 128) v \<or> \<not> list_all is_digit v \<or> (1 < length v \<and> hd v = 48))
   \<longleftrightarrow> canonical_decimal v"
  by (auto simp: canonical_decimal_def list_all_iff is_digit_def)

lemma to_wire_Inr_iff:
  "permission_mask_to_wire (PInt m) = Inr w \<longleftrightarrow>
     0 \<le> m \<and> submask m ALL_PERMISSIONS \<and>
     w = [(PStr (ucs ''schema''), PStr (ucs PERMISSION_SCHEMA)), (PStr (ucs ''value''), PStr (str_nat (nat m)))]"
  by (auto simp: permission_mask_to_wire_def submask_def)

lemma from_wire_Inr_iff:
  "permission_mask_from_wire w = Inr m \<longleftrightarrow>
     fst ` set w = {PStr (ucs ''schema''), PStr (ucs ''value'')} \<and>
     map_of w (PStr (ucs ''schema'')) = Some (PStr (ucs PERMISSION_SCHEMA)) \<and>
     (\<exists>v. map_of w (PStr (ucs ''value'')) = Some (PStr v) \<and> canonical_decimal v \<and>
          m = int (nat_of_str v) \<and> submask m ALL_PERMISSIONS)"
  unfolding permission_mask_from_wire_def wire_value_canonical [symmetric]
  by (auto simp: submask_def Let_def split: option.splits pyval.splits)


section \<open>Properties\<close>

text \<open>The published bits are pairwise distinct, the catalogue of all permissions holds exactly
  the defined bits, and every mask built from them fits PostgreSQL's signed BIGINT.\<close>

theorem permission_bits_distinct_and_bounded:
  "inj perm_bit \<and>
   (\<forall>k. bit ALL_PERMISSIONS k \<longleftrightarrow> (\<exists>p. perm_bit p = k)) \<and>
   (\<forall>ps. 0 \<le> mask_of ps \<and> submask (mask_of ps) ALL_PERMISSIONS \<and> mask_of ps < 2 ^ 63)"
proof (intro conjI allI)
  fix ps
  show "0 \<le> mask_of ps" using submask_nonneg [OF mask_of_submask_ALL] by simp
  have "mask_of ps \<le> ALL_PERMISSIONS"
    using submask_le [OF mask_of_submask_ALL] by simp
  then show "mask_of ps < 2 ^ 63" by (simp add: ALL_PERMISSIONS_numeral)
qed (auto simp: inj_perm_bit mask_simps)

text \<open>The metadata table describes every permission exactly once, and the published dependency
  relation is well-founded: no permission depends on itself through any chain.\<close>

theorem permission_metadata_sound:
  "distinct (map pm_permission PERMISSION_METADATA) \<and>
   dom PERMISSION_METADATA_BY_PERMISSION = UNIV \<and>
   wf {(d, p). depends_on p d}"
  using metadata_distinct metadata_complete wf_dependencies
  by (simp add: PERMISSION_METADATA_BY_PERMISSION_def dom_map_of_conv_image_fst image_image)

text \<open>Looking up an operation name returns the mask of its contract entry, which names published
  bits only, and a name without an entry raises.\<close>

theorem required_permissions_contract:
  "(\<forall>c \<in> set CONTRACTS. required_permissions (ec_operation c) = Inr (ec_permission c)
      \<and> submask (ec_permission c) ALL_PERMISSIONS) \<and>
   (\<forall>operation. operation \<notin> ec_operation ` set CONTRACTS \<longrightarrow>
      required_permissions operation = Inl (RuntimeError ''unknown permission contract operation''))"
  using required_permissions_ok required_permissions_known_bits required_permissions_unknown by blast

theorem required_permissions_contract_witness:
  "required_permissions ''voice.join'' = Inr (mask_of [VIEW_CHANNEL, CONNECT]) \<and>
   required_permissions ''voice.leave'' = Inl (RuntimeError ''unknown permission contract operation'')"
proof -
  let ?c = "contract ''voice.join'' (mask_of [VIEW_CHANNEL, CONNECT]) ''channel'' None"
  have "?c \<in> set CONTRACTS_2" by (simp add: CONTRACTS_2_def)
  then have "?c \<in> set CONTRACTS" by (simp add: CONTRACTS_def)
  with required_permissions_contract [THEN conjunct1]
  have "required_permissions (ec_operation ?c) = Inr (ec_permission ?c)" by (blast dest: bspec)
  then have "required_permissions ''voice.join'' = Inr (mask_of [VIEW_CHANNEL, CONNECT])"
    by (simp add: contract_def)
  moreover have "list_all (\<lambda>c. ec_operation c \<noteq> ''voice.leave'') CONTRACTS"
    by (simp add: contract_table_defs)
  then have "''voice.leave'' \<notin> ec_operation ` set CONTRACTS" by (auto simp: list_all_iff)
  ultimately show ?thesis
    using required_permissions_contract [THEN conjunct2, rule_format, of "''voice.leave''"] by simp
qed

text \<open>C23: A wire envelope decodes to a mask exactly when it is the envelope the encoder writes for that
  mask (as a dictionary): encoding and decoding are inverse and no second spelling is accepted.\<close>

theorem permission_wire_exact:
  "permission_mask_from_wire w = Inr m \<longleftrightarrow>
    (\<exists>w'. permission_mask_to_wire (PInt m) = Inr w' \<and> map_of w = map_of w')"
proof
  assume "permission_mask_from_wire w = Inr m"
  then obtain v where v: "map_of w (PStr (ucs ''value'')) = Some (PStr v)" "canonical_decimal v"
      "m = int (nat_of_str v)" "submask m ALL_PERMISSIONS"
    and keys: "fst ` set w = {PStr (ucs ''schema''), PStr (ucs ''value'')}"
    and sch: "map_of w (PStr (ucs ''schema'')) = Some (PStr (ucs PERMISSION_SCHEMA))"
    unfolding from_wire_Inr_iff by blast
  let ?w' = "[(PStr (ucs ''schema''), PStr (ucs PERMISSION_SCHEMA)), (PStr (ucs ''value''), PStr v)]"
  have "permission_mask_to_wire (PInt m) = Inr ?w'"
    using v by (simp add: to_wire_Inr_iff str_nat_nat_of_str)
  moreover have "map_of w k = map_of ?w' k" for k
  proof (cases "k \<in> fst ` set w")
    case True
    with keys v sch show ?thesis by auto
  next
    case False
    then have "map_of w k = None" by (simp add: map_of_eq_None_iff)
    with False keys show ?thesis by auto
  qed
  ultimately show "\<exists>w'. permission_mask_to_wire (PInt m) = Inr w' \<and> map_of w = map_of w'"
    by blast
next
  assume "\<exists>w'. permission_mask_to_wire (PInt m) = Inr w' \<and> map_of w = map_of w'"
  then have m: "0 \<le> m" "submask m ALL_PERMISSIONS" and eq: "map_of w =
      map_of [(PStr (ucs ''schema''), PStr (ucs PERMISSION_SCHEMA)), (PStr (ucs ''value''), PStr (str_nat (nat m)))]"
    by (auto simp: to_wire_Inr_iff)
  have "fst ` set w = dom (map_of w)" by (simp add: dom_map_of_conv_image_fst)
  with m show "permission_mask_from_wire w = Inr m"
    unfolding from_wire_Inr_iff eq by (auto simp: canonical_str_nat split: if_splits)
qed
end
