(* ===== verification/Permission_Resolution.thy ===== *)
theory Permission_Resolution
  imports Permissions
begin

text \<open>
  The pure core of \<open>chat/permissions.py\<close>: dependency normalisation of a mask and the resolution of role and
  member overwrites. The normalisation loop is a total function (its measure is the number of held
  permissions); its result is characterised as the greatest contract-consistent sub-mask, and
  overwrite resolution bit by bit.
\<close>

unbundle bit_operations_syntax

section \<open>Dependency normalisation\<close>

definition TEXT_DEPENDENT :: int where
  "TEXT_DEPENDENT = mask_of [SEND_MESSAGES, EMBED_LINKS, ATTACH_FILES, MENTION_EVERYONE]"

definition THREAD_TEXT_DEPENDENT :: int where
  "THREAD_TEXT_DEPENDENT = mask_of [EMBED_LINKS, ATTACH_FILES, MENTION_EVERYONE]"

definition VOICE_DEPENDENT :: int where
  "VOICE_DEPENDENT = mask_of [PRIORITY_SPEAKER, SPEAK, STREAM, USE_VAD, MOVE_MEMBERS]"

definition TIMEOUT_ALLOWED :: int where
  "TIMEOUT_ALLOWED = mask_of [VIEW_CHANNEL, READ_MESSAGE_HISTORY]"

text \<open>One dependency of a held permission is missing; threads read \<open>SEND_MESSAGES\<close> as
  \<open>SEND_MESSAGES_IN_THREADS\<close>.\<close>

definition dependency_missing :: "int \<Rightarrow> int \<Rightarrow> permission \<Rightarrow> bool" where
  "dependency_missing channel_type permissions dependency \<longleftrightarrow>
     (if dependency = SEND_MESSAGES \<and> channel_type \<in> {10, 11, 12}
      then \<not> has permissions SEND_MESSAGES_IN_THREADS
      else permissions AND perm_value dependency \<noteq> perm_value dependency)"

text \<open>The body of the \<open>while\<close>: one pass over the metadata, with the flag \<open>changed\<close>.\<close>

fun normalize_pass :: "int \<Rightarrow> PermissionMetadata list \<Rightarrow> int \<Rightarrow> bool \<Rightarrow> int \<times> bool" where
  "normalize_pass channel_type [] permissions changed = (permissions, changed)"
| "normalize_pass channel_type (metadata # rest) permissions changed =
     (if \<not> has permissions (pm_permission metadata)
      then normalize_pass channel_type rest permissions changed
      else if list_ex (dependency_missing channel_type permissions) (pm_dependencies metadata)
      then normalize_pass channel_type rest
             (permissions AND NOT (perm_value (pm_permission metadata))) True
      else normalize_pass channel_type rest permissions changed)"

lemma has_clear [simp]: "has (m AND NOT (perm_value p)) q \<longleftrightarrow> has m q \<and> q \<noteq> p"
  by (auto simp: mask_simps)

lemma normalize_pass_subset:
  "normalize_pass ct ms p c = (p', c') \<Longrightarrow> submask p' p"
  by (induction ct ms p c arbitrary: p' c' rule: normalize_pass.induct)
     (fastforce simp: submask_iff bit_and_iff split: if_splits)+

lemma normalize_pass_changed_mono: "snd (normalize_pass ct ms p True)"
  by (induction ct ms p True rule: normalize_pass.induct) auto

lemma normalize_pass_changed:
  "normalize_pass ct ms p False = (p', True) \<Longrightarrow> {q. has p' q} \<subset> {q. has p q}"
proof (induction ct ms p False arbitrary: p' rule: normalize_pass.induct)
  case (2 ct m ms p)
  let ?q = "p AND NOT (perm_value (pm_permission m))"
  consider "\<not> has p (pm_permission m)"
    | "has p (pm_permission m)" "list_ex (dependency_missing ct p) (pm_dependencies m)"
    | "has p (pm_permission m)" "\<not> list_ex (dependency_missing ct p) (pm_dependencies m)"
    by blast
  then show ?case
  proof cases
    case 1
    with 2 show ?thesis by auto
  next
    case b: 2
    with 2(4) have "submask p' ?q"
      by (auto dest: normalize_pass_subset)
    then have "{q. has p' q} \<subseteq> {q. has ?q q}" by (auto simp: submask_iff mask_simps)
    with b show ?thesis by auto
  next
    case 3
    with 2 show ?thesis by auto
  qed
qed simp

function normalize_loop :: "int \<Rightarrow> int \<Rightarrow> int" where
  "normalize_loop channel_type permissions =
     (let (permissions', changed) = normalize_pass channel_type PERMISSION_METADATA permissions False
      in if changed then normalize_loop channel_type permissions' else permissions')"
  by pat_completeness auto
termination
proof (relation "measure (\<lambda>(ct, p). card {q. has p q})", goal_cases)
  case (2 ct p x p' changed)
  then have "normalize_pass ct PERMISSION_METADATA p False = (p', True)" by simp
  then have "{q. has p' q} \<subset> {q. has p q}" by (rule normalize_pass_changed)
  then show ?case by (simp add: psubset_card_mono)
qed simp

declare normalize_loop.simps [simp del]

text \<open>The channel-type-specific masks, in the order of the source.\<close>

definition strip_dependent_masks :: "int \<Rightarrow> int \<Rightarrow> int" where
  "strip_dependent_masks ct permissions =
     (let p1 = (if ct \<in> GUILD_SEND_MESSAGES_CHANNEL_TYPES \<and> \<not> has permissions SEND_MESSAGES
                then permissions AND NOT TEXT_DEPENDENT else permissions);
          p2 = (if ct \<in> {10, 11, 12} \<and> \<not> has p1 SEND_MESSAGES_IN_THREADS
                then p1 AND NOT THREAD_TEXT_DEPENDENT else p1);
          p3 = (if ct \<in> GUILD_VOICE_CHANNEL_TYPES \<and> \<not> has p2 CONNECT
                then p2 AND NOT VOICE_DEPENDENT else p2)
      in if ct = 2 \<and> \<not> has p3 SPEAK then p3 AND NOT (perm_value PRIORITY_SPEAKER) else p3)"

definition normalize_permission_dependencies :: "int \<Rightarrow> int option \<Rightarrow> bool \<Rightarrow> int" where
  "normalize_permission_dependencies permissions channel_type timed_out =
     (case channel_type of
        None \<Rightarrow> permissions
      | Some ct \<Rightarrow>
          if \<not> has permissions VIEW_CHANNEL then 0
          else
            let normalized = normalize_loop ct (strip_dependent_masks ct permissions)
            in if timed_out then normalized AND TIMEOUT_ALLOWED else normalized)"

section \<open>Greatest-submask characterisation\<close>

text \<open>The dependencies of an entry as a channel of the given type reads them, and masks closed under
  them.\<close>

definition effective_dependency :: "int \<Rightarrow> permission \<Rightarrow> permission" where
  "effective_dependency ct d =
     (if d = SEND_MESSAGES \<and> ct \<in> {10, 11, 12} then SEND_MESSAGES_IN_THREADS else d)"

definition entry_closed :: "int \<Rightarrow> int \<Rightarrow> PermissionMetadata \<Rightarrow> bool" where
  "entry_closed ct m e \<longleftrightarrow>
     (has m (pm_permission e) \<longrightarrow> (\<forall>d \<in> set (pm_dependencies e). has m (effective_dependency ct d)))"

definition dependency_closed :: "int \<Rightarrow> int \<Rightarrow> bool" where
  "dependency_closed ct m \<longleftrightarrow> list_all (entry_closed ct m) PERMISSION_METADATA"

lemma dependency_missing_iff: "dependency_missing ct m d \<longleftrightarrow> \<not> has m (effective_dependency ct d)"
  by (auto simp: dependency_missing_def effective_dependency_def has_iff perm_value_def and_flag_neq)

lemma list_ex_missing_iff:
  "has m (pm_permission e) \<Longrightarrow>
   list_ex (dependency_missing ct m) (pm_dependencies e) \<longleftrightarrow> \<not> entry_closed ct m e"
  by (auto simp: list_ex_iff dependency_missing_iff entry_closed_def)

lemma entry_closed_absent: "\<not> has m (pm_permission e) \<Longrightarrow> entry_closed ct m e"
  by (simp add: entry_closed_def)

lemma normalize_pass_stable:
  "normalize_pass ct ms p False = (p', False) \<Longrightarrow> p' = p \<and> list_all (entry_closed ct p) ms"
proof (induction ct ms p False arbitrary: p' rule: normalize_pass.induct)
  case (2 ct m ms p)
  have "\<not> (has p (pm_permission m) \<and> \<not> entry_closed ct p m)"
  proof
    assume "has p (pm_permission m) \<and> \<not> entry_closed ct p m"
    with 2(4) have "snd (normalize_pass ct ms (p AND NOT (perm_value (pm_permission m))) True) = False"
      by (simp add: list_ex_missing_iff)
    then show False using normalize_pass_changed_mono by blast
  qed
  with 2 show ?case
    by (cases "has p (pm_permission m)") (auto simp: list_ex_missing_iff entry_closed_absent)
qed simp

lemma normalize_pass_keeps_closed:
  "normalize_pass ct ms p c = (p', c') \<Longrightarrow> submask q p \<Longrightarrow> list_all (entry_closed ct q) ms \<Longrightarrow> submask q p'"
proof (induction ct ms p c arbitrary: p' c' rule: normalize_pass.induct)
  case (2 ct m ms p c)
  show ?case
  proof (cases "has p (pm_permission m) \<and> \<not> entry_closed ct p m")
    case True
    have "\<not> has q (pm_permission m)"
    proof
      assume "has q (pm_permission m)"
      with 2(6) have "\<forall>d \<in> set (pm_dependencies m). has q (effective_dependency ct d)"
        by (simp add: entry_closed_def)
      with 2(5) have "entry_closed ct p m" by (auto simp: entry_closed_def submask_iff mask_simps)
      with True show False by simp
    qed
    with 2(5) have "submask q (p AND NOT (perm_value (pm_permission m)))"
      by (auto simp: submask_iff mask_simps)
    with 2 True show ?thesis by (simp add: list_ex_missing_iff)
  next
    case False
    with 2 show ?thesis
      by (cases "has p (pm_permission m)") (auto simp: list_ex_missing_iff)
  qed
qed simp

lemma normalize_loop_greatest:
  "submask (normalize_loop ct p) p \<and> dependency_closed ct (normalize_loop ct p) \<and>
   (\<forall>q. submask q p \<longrightarrow> dependency_closed ct q \<longrightarrow> submask q (normalize_loop ct p))"
proof (induction ct p rule: normalize_loop.induct)
  case (1 ct p)
  obtain p' c where pc: "normalize_pass ct PERMISSION_METADATA p False = (p', c)" by fastforce
  note sub = normalize_pass_subset [OF pc]
    and keep = normalize_pass_keeps_closed [OF pc]
  show ?case
  proof (cases c)
    case True
    then have eq: "normalize_loop ct p = normalize_loop ct p'"
      using pc by (simp add: normalize_loop.simps [of ct p])
    from 1 [OF pc [symmetric] refl True] sub keep show ?thesis
      unfolding eq by (auto intro: submask_trans simp: dependency_closed_def)
  next
    case False
    with pc have "p' = p \<and> list_all (entry_closed ct p) PERMISSION_METADATA"
      by (auto dest: normalize_pass_stable)
    with pc False show ?thesis
      by (auto simp: normalize_loop.simps [of ct p] dependency_closed_def)
  qed
qed

text \<open>What a mask that a channel of the given type may expose has to satisfy.\<close>

definition channel_consistent :: "int \<Rightarrow> int \<Rightarrow> bool" where
  "channel_consistent ct q \<longleftrightarrow> q = 0 \<or>
     has q VIEW_CHANNEL \<and> dependency_closed ct q \<and>
     (ct \<in> GUILD_SEND_MESSAGES_CHANNEL_TYPES \<longrightarrow> \<not> has q SEND_MESSAGES \<longrightarrow> q AND TEXT_DEPENDENT = 0) \<and>
     (ct \<in> {10, 11, 12} \<longrightarrow> \<not> has q SEND_MESSAGES_IN_THREADS \<longrightarrow> q AND THREAD_TEXT_DEPENDENT = 0) \<and>
     (ct \<in> GUILD_VOICE_CHANNEL_TYPES \<longrightarrow> \<not> has q CONNECT \<longrightarrow> q AND VOICE_DEPENDENT = 0) \<and>
     (ct = 2 \<longrightarrow> has q PRIORITY_SPEAKER \<longrightarrow> has q SPEAK)"

lemmas dependent_masks = TEXT_DEPENDENT_def THREAD_TEXT_DEPENDENT_def VOICE_DEPENDENT_def TIMEOUT_ALLOWED_def

lemma and_mask_of_0: "q AND mask_of ps = 0 \<longleftrightarrow> (\<forall>p \<in> set ps. \<not> has q p)"
  unfolding bit_eq_iff [of "q AND mask_of ps" 0] by (auto simp: mask_simps)

lemma has_and_not_mask_of: "has (q AND NOT (mask_of ps)) p \<longleftrightarrow> has q p \<and> p \<notin> set ps"
  by (auto simp: mask_simps)

lemma has_mask_of: "has (mask_of ps) p \<longleftrightarrow> p \<in> set ps"
  by (auto simp: mask_simps)

lemma submask_mask_of: "submask (mask_of ps) m \<longleftrightarrow> (\<forall>p \<in> set ps. has m p)"
  by (auto simp: submask_iff mask_simps)

lemma submask_has: "submask a b \<Longrightarrow> has a p \<Longrightarrow> has b p"
  by (simp add: submask_iff mask_simps)

lemma submask_and_not: "submask q p \<Longrightarrow> q AND m = 0 \<Longrightarrow> submask q (p AND NOT m)"
  unfolding bit_eq_iff [of "q AND m" 0] by (auto simp: submask_iff mask_simps)

lemma dependency_closed_iff:
  "dependency_closed ct m \<longleftrightarrow>
   (\<forall>(p, ds) \<in> set (map (\<lambda>e. (pm_permission e, pm_dependencies e)) PERMISSION_METADATA).
      has m p \<longrightarrow> (\<forall>d \<in> set ds. has m (effective_dependency ct d)))"
  by (auto simp: dependency_closed_def list_all_iff entry_closed_def)

lemma dependency_closed_chains:
  "dependency_closed ct (mask_of [VIEW_CHANNEL, SEND_MESSAGES])"
  "dependency_closed ct (mask_of [VIEW_CHANNEL, SEND_MESSAGES_IN_THREADS])"
  "dependency_closed ct (mask_of [VIEW_CHANNEL, CONNECT])"
  "dependency_closed ct (mask_of [VIEW_CHANNEL, CONNECT, SPEAK])"
  "dependency_closed ct (mask_of [VIEW_CHANNEL])"
  unfolding dependency_closed_iff metadata_dependencies
  by (simp_all add: has_mask_of effective_dependency_def)

lemma dependency_closed_ALL: "dependency_closed ct ALL_PERMISSIONS"
  by (simp add: dependency_closed_def list_all_iff entry_closed_def mask_simps)

lemma normalize_loop_keeps:
  assumes "dependency_closed ct (mask_of ps)" "list_all (has p) ps" "q \<in> set ps"
  shows "has (normalize_loop ct p) q"
proof -
  from assms(2) have "submask (mask_of ps) p" by (simp add: submask_mask_of list_all_iff)
  with assms(1) normalize_loop_greatest have "submask (mask_of ps) (normalize_loop ct p)" by blast
  with assms(3) show ?thesis by (simp add: submask_mask_of)
qed

lemma strip_submask: "submask (strip_dependent_masks ct p) p"
  by (auto simp: strip_dependent_masks_def submask_iff mask_simps Let_def)

lemma strip_keeps_view: "has p VIEW_CHANNEL \<Longrightarrow> has (strip_dependent_masks ct p) VIEW_CHANNEL"
  by (simp add: strip_dependent_masks_def Let_def dependent_masks has_and_not_mask_of)

lemma strip_step:
  "submask q p \<Longrightarrow> (C \<Longrightarrow> \<not> has q a \<Longrightarrow> q AND m = 0) \<Longrightarrow>
   submask q (if C \<and> \<not> has p a then p AND NOT m else p)"
  by (auto intro: submask_and_not dest: submask_has)

lemma strip_keeps_consistent:
  assumes "channel_consistent ct q" "q \<noteq> 0" "submask q p"
  shows "submask q (strip_dependent_masks ct p)"
  using assms unfolding strip_dependent_masks_def Let_def
  by (intro strip_step) (auto simp: channel_consistent_def has_def)

lemma strip_facts:
  fixes ct p
  defines "r \<equiv> strip_dependent_masks ct p"
  shows
    "ct \<in> GUILD_SEND_MESSAGES_CHANNEL_TYPES \<Longrightarrow> \<not> has r SEND_MESSAGES \<Longrightarrow> r AND TEXT_DEPENDENT = 0"
    "ct \<in> {10, 11, 12} \<Longrightarrow> \<not> has r SEND_MESSAGES_IN_THREADS \<Longrightarrow> r AND THREAD_TEXT_DEPENDENT = 0"
    "ct \<in> GUILD_VOICE_CHANNEL_TYPES \<Longrightarrow> \<not> has r CONNECT \<Longrightarrow> r AND VOICE_DEPENDENT = 0"
    "ct = 2 \<Longrightarrow> has r PRIORITY_SPEAKER \<Longrightarrow> has r SPEAK"
  by (auto simp: r_def strip_dependent_masks_def Let_def dependent_masks has_and_not_mask_of and_mask_of_0 has_clear split: if_splits)

lemma and_submask_0: "submask a b \<Longrightarrow> b AND m = 0 \<Longrightarrow> a AND m = 0"
  unfolding bit_eq_iff [of "b AND m" 0] bit_eq_iff [of "a AND m" 0] by (auto simp: submask_iff mask_simps)

lemma normalize_consistent:
  assumes "has p VIEW_CHANNEL"
  shows "channel_consistent ct (normalize_loop ct (strip_dependent_masks ct p))"
proof -
  let ?s = "strip_dependent_masks ct p" and ?r = "normalize_loop ct (strip_dependent_masks ct p)"
  have sub: "submask ?r ?s" and closed: "dependency_closed ct ?r"
    using normalize_loop_greatest [of ct ?s] by auto
  have view: "has ?s VIEW_CHANNEL" using assms by (rule strip_keeps_view)
  note keep = dependency_closed_chains [of ct, THEN normalize_loop_keeps, of ?s]
  have "has ?r VIEW_CHANNEL" using keep(5) view by simp
  moreover have "has ?s SEND_MESSAGES \<Longrightarrow> has ?r SEND_MESSAGES"
    "has ?s SEND_MESSAGES_IN_THREADS \<Longrightarrow> has ?r SEND_MESSAGES_IN_THREADS"
    and conn: "has ?s CONNECT \<Longrightarrow> has ?r CONNECT"
    using keep(1,2,3) view by simp_all
  moreover have "has ?r SPEAK" if "ct = 2" "has ?r PRIORITY_SPEAKER"
  proof -
    from sub that(2) have "has ?s PRIORITY_SPEAKER" by (rule submask_has)
    with that(1) have "has ?s SPEAK" by (rule strip_facts(4))
    have "has ?s CONNECT"
    proof (rule ccontr)
      assume "\<not> has ?s CONNECT"
      with that have "?s AND VOICE_DEPENDENT = 0"
        by (intro strip_facts(3)) (simp_all add: GUILD_VOICE_CHANNEL_TYPES_def GUILD_VOICE_CHANNEL_def)
      with \<open>has ?s SPEAK\<close> show False by (simp add: VOICE_DEPENDENT_def and_mask_of_0)
    qed
    then show ?thesis using \<open>has ?s SPEAK\<close> keep(4) view by simp
  qed
  ultimately show ?thesis
    using closed and_submask_0 [OF sub] strip_facts [of ct p] by (auto simp: channel_consistent_def)
qed

lemma normalize_greatest:
  fixes ct p
  defines "r \<equiv> normalize_permission_dependencies p (Some ct) False"
  shows "submask r p \<and> channel_consistent ct r \<and>
         (\<forall>q. submask q p \<longrightarrow> channel_consistent ct q \<longrightarrow> submask q r)"
proof (cases "has p VIEW_CHANNEL")
  case False
  then have r: "r = 0" by (simp add: r_def normalize_permission_dependencies_def)
  have "submask q 0" if "submask q p" "channel_consistent ct q" for q
  proof -
    from that(1) False have "\<not> has q VIEW_CHANNEL" by (blast dest: submask_has)
    with that(2) have "q = 0" by (simp add: channel_consistent_def)
    then show ?thesis by simp
  qed
  then show ?thesis by (simp add: r channel_consistent_def)
next
  case True
  let ?s = "strip_dependent_masks ct p"
  from True have r: "r = normalize_loop ct ?s"
    by (simp add: r_def normalize_permission_dependencies_def)
  have "submask q r" if q: "submask q p" "channel_consistent ct q" for q
  proof (cases "q = 0")
    case False
    with q have "submask q ?s" by (blast intro: strip_keeps_consistent)
    moreover from False q have "dependency_closed ct q" by (simp add: channel_consistent_def)
    ultimately show ?thesis using normalize_loop_greatest [of ct ?s] unfolding r by simp
  qed simp
  moreover have "submask r p"
    using normalize_loop_greatest [of ct ?s, THEN conjunct1] strip_submask unfolding r by (rule submask_trans)
  ultimately show ?thesis using normalize_consistent [OF True] r by blast
qed

lemma submask_absorb: "submask a b \<Longrightarrow> b AND a = a"
  by (rule bit_eqI) (auto simp: submask_iff mask_simps)

section \<open>Overwrite resolution\<close>

record PermissionOverwrite =
  po_target_id :: int
  po_target_domain :: string
  po_target_type :: string
  po_allow :: int
  po_deny :: int

abbreviation po_target :: "PermissionOverwrite \<Rightarrow> entity_ref" where
  "po_target item \<equiv> (po_target_id item, po_target_domain item)"

definition apply_overwrite :: "int \<Rightarrow> PermissionOverwrite option \<Rightarrow> int" where
  "apply_overwrite permissions overwrite =
     (case overwrite of
        None \<Rightarrow> permissions
      | Some item \<Rightarrow> (permissions AND NOT (po_deny item)) OR po_allow item)"

text \<open>The loop that accumulates the overwrites of the member's roles.\<close>

fun accumulate_role_overwrites ::
  "entity_ref \<Rightarrow> entity_ref set \<Rightarrow> PermissionOverwrite list \<Rightarrow> int \<Rightarrow> int \<Rightarrow> int \<times> int" where
  "accumulate_role_overwrites everyone_ref role_ids [] role_deny role_allow = (role_deny, role_allow)"
| "accumulate_role_overwrites everyone_ref role_ids (item # rest) role_deny role_allow =
     (if po_target_type item = ''role'' \<and> po_target item \<noteq> everyone_ref \<and> po_target item \<in> role_ids
      then accumulate_role_overwrites everyone_ref role_ids rest
             (role_deny OR po_deny item) (role_allow OR po_allow item)
      else accumulate_role_overwrites everyone_ref role_ids rest role_deny role_allow)"

definition apply_overwrites ::
  "entity_ref \<Rightarrow> entity_ref \<Rightarrow> entity_ref set \<Rightarrow> PermissionOverwrite list \<Rightarrow> int \<Rightarrow> int" where
  "apply_overwrites user everyone_ref role_ids overwrites permissions =
     (let everyone = find (\<lambda>item. po_target_type item = ''role'' \<and> po_target item = everyone_ref) overwrites;
          p1 = apply_overwrite permissions everyone;
          (role_deny, role_allow) = accumulate_role_overwrites everyone_ref role_ids overwrites 0 0;
          p2 = (p1 AND NOT role_deny) OR role_allow;
          member = find (\<lambda>item. po_target_type item = ''member'' \<and> po_target item = user) overwrites
      in apply_overwrite p2 member)"

definition resolve_permissions ::
  "bool \<Rightarrow> entity_ref \<Rightarrow> entity_ref \<Rightarrow> entity_ref set \<Rightarrow> int \<Rightarrow> PermissionOverwrite list \<Rightarrow> int option \<Rightarrow> bool
   \<Rightarrow> int" where
  "resolve_permissions owner user everyone_ref role_ids base_permissions overwrites channel_type timed_out =
     (if owner then ALL_PERMISSIONS
      else normalize_permission_dependencies
             (if has base_permissions ADMINISTRATOR then ALL_PERMISSIONS
              else apply_overwrites user everyone_ref role_ids overwrites base_permissions)
             channel_type timed_out)"

text \<open>
  The abstract rule for one bit: the member's own overwrite decides first (allow before deny), then
  any of the member's roles (allow before deny), then the overwrite of the everyone role, then the
  base mask.
\<close>

definition overwrite_verdict :: "PermissionOverwrite list \<Rightarrow> nat \<Rightarrow> bool option" where
  "overwrite_verdict items k =
     (if \<exists>i \<in> set items. bit (po_allow i) k then Some True
      else if \<exists>i \<in> set items. bit (po_deny i) k then Some False
      else None)"

definition resolved_bit ::
  "entity_ref \<Rightarrow> entity_ref \<Rightarrow> entity_ref set \<Rightarrow> PermissionOverwrite list \<Rightarrow> int \<Rightarrow> nat \<Rightarrow> bool" where
  "resolved_bit user everyone_ref role_ids overwrites base k =
     (let members = filter (\<lambda>i. po_target_type i = ''member'' \<and> po_target i = user) overwrites;
          roles = filter (\<lambda>i. po_target_type i = ''role'' \<and> po_target i \<noteq> everyone_ref \<and> po_target i \<in> role_ids) overwrites;
          everyone = filter (\<lambda>i. po_target_type i = ''role'' \<and> po_target i = everyone_ref) overwrites
      in case overwrite_verdict (take 1 members) k of
           Some b \<Rightarrow> b
         | None \<Rightarrow> (case overwrite_verdict roles k of
               Some b \<Rightarrow> b
             | None \<Rightarrow> (case overwrite_verdict (take 1 everyone) k of Some b \<Rightarrow> b | None \<Rightarrow> bit base k)))"

lemma find_filter: "find P xs = (case filter P xs of [] \<Rightarrow> None | x # _ \<Rightarrow> Some x)"
  by (induction xs) auto

lemma bit_apply_overwrite:
  "bit (apply_overwrite p (find P xs)) k \<longleftrightarrow>
   (case overwrite_verdict (take 1 (filter P xs)) k of Some b \<Rightarrow> b | None \<Rightarrow> bit p k)"
  by (cases "filter P xs") (simp_all add: apply_overwrite_def find_filter overwrite_verdict_def mask_simps)

lemma bit_accumulate_role_overwrites:
  "accumulate_role_overwrites e R xs d a = (d', a') \<Longrightarrow>
   (bit d' k \<longleftrightarrow> bit d k \<or> (\<exists>i\<in>set xs. po_target_type i = ''role'' \<and> po_target i \<noteq> e \<and> po_target i \<in> R \<and> bit (po_deny i) k)) \<and>
   (bit a' k \<longleftrightarrow> bit a k \<or> (\<exists>i\<in>set xs. po_target_type i = ''role'' \<and> po_target i \<noteq> e \<and> po_target i \<in> R \<and> bit (po_allow i) k))"
  by (induction e R xs d a arbitrary: d' a' rule: accumulate_role_overwrites.induct)
     (auto simp: bit_or_iff split: if_splits)

lemma bit_apply_overwrites:
  "bit (apply_overwrites user e R xs base) k \<longleftrightarrow> resolved_bit user e R xs base k"
proof -
  obtain d a where da: "accumulate_role_overwrites e R xs 0 0 = (d, a)" by fastforce
  note bits = bit_accumulate_role_overwrites [OF da, of k]
  let ?roles = "filter (\<lambda>i. po_target_type i = ''role'' \<and> po_target i \<noteq> e \<and> po_target i \<in> R) xs"
  have roles: "bit ((p AND NOT d) OR a) k \<longleftrightarrow>
      (case overwrite_verdict ?roles k of Some b \<Rightarrow> b | None \<Rightarrow> bit p k)" for p
    using bits by (auto simp: overwrite_verdict_def mask_simps)
  show ?thesis
    unfolding apply_overwrites_def resolved_bit_def da Let_def prod.case bit_apply_overwrite roles ..
qed

lemma has_ALL [simp]: "has ALL_PERMISSIONS p"
  by (simp add: mask_simps)

lemma channel_consistent_ALL: "channel_consistent ct ALL_PERMISSIONS"
  using dependency_closed_ALL by (simp add: channel_consistent_def)

lemma normalize_ALL: "normalize_permission_dependencies ALL_PERMISSIONS ct False = ALL_PERMISSIONS"
proof (cases ct)
  case None
  then show ?thesis by (simp add: normalize_permission_dependencies_def)
next
  case (Some c)
  let ?r = "normalize_permission_dependencies ALL_PERMISSIONS (Some c) False"
  have "submask ?r ALL_PERMISSIONS" "submask ALL_PERMISSIONS ?r"
    using normalize_greatest [where p = ALL_PERMISSIONS and ct = c] channel_consistent_ALL
    by simp_all
  with Some show ?thesis by (blast intro: submask_antisym)
qed

lemma normalize_submask: "submask (normalize_permission_dependencies p ct t) p"
proof (cases ct)
  case None
  then show ?thesis by (simp add: normalize_permission_dependencies_def)
next
  case (Some c)
  have "submask (normalize_permission_dependencies p (Some c) t)
      (normalize_permission_dependencies p (Some c) False)"
    by (simp add: normalize_permission_dependencies_def Let_def)
  then show ?thesis
    using normalize_greatest [where p = p and ct = c] Some by (blast intro: submask_trans)
qed

lemma normalize_timed_out:
  "normalize_permission_dependencies p (Some ct) True =
   normalize_permission_dependencies p (Some ct) False AND TIMEOUT_ALLOWED"
  by (simp add: normalize_permission_dependencies_def Let_def)

lemma overwrite_verdict_True:
  "overwrite_verdict items k = Some True \<Longrightarrow> \<exists>i \<in> set items. bit (po_allow i) k"
  by (auto simp: overwrite_verdict_def split: if_splits)

lemma resolved_bit_origin:
  "resolved_bit user e R ows base k \<Longrightarrow> bit base k \<or> (\<exists>i \<in> set ows. bit (po_allow i) k)"
  unfolding resolved_bit_def Let_def
  by (fastforce dest: overwrite_verdict_True in_set_takeD split: option.splits)

lemma apply_overwrites_submask:
  "submask base m \<Longrightarrow> \<forall>i \<in> set ows. submask (po_allow i) m \<Longrightarrow>
   submask (apply_overwrites user e R ows base) m"
  unfolding submask_iff bit_apply_overwrites by (blast dest: resolved_bit_origin)

section \<open>Properties\<close>

text \<open>C2: Within a channel and without a timeout, dependency normalisation terminates and returns the greatest
  sub-mask of its input that satisfies the published dependency contract of that channel type: it grants
  nothing new, leaves no bit whose prerequisite is missing and removes no bit that could stay.
  Normalising again changes nothing.\<close>

theorem normalize_greatest_consistent:
  "let r = normalize_permission_dependencies p (Some ct) False in
     submask r p \<and> channel_consistent ct r \<and>
     (\<forall>q. submask q p \<longrightarrow> channel_consistent ct q \<longrightarrow> submask q r) \<and>
     normalize_permission_dependencies r (Some ct) False = r"
proof -
  let ?r = "normalize_permission_dependencies p (Some ct) False"
  have "submask ?r p" "channel_consistent ct ?r"
    "\<forall>q. submask q p \<longrightarrow> channel_consistent ct q \<longrightarrow> submask q ?r"
    using normalize_greatest [where p = p and ct = ct] by blast+
  moreover have "normalize_permission_dependencies ?r (Some ct) False = ?r"
    using normalize_greatest [where p = ?r and ct = ct] \<open>channel_consistent ct ?r\<close>
    by (blast intro: submask_antisym submask_refl)
  ultimately show ?thesis unfolding Let_def by blast
qed

theorem normalize_greatest_consistent_witness:
  "submask (mask_of [VIEW_CHANNEL, CONNECT])
     (normalize_permission_dependencies (mask_of [VIEW_CHANNEL, CONNECT, USE_SOUNDBOARD]) (Some 2) False)"
proof -
  have "channel_consistent 2 (mask_of [VIEW_CHANNEL, CONNECT])"
    using dependency_closed_chains(3)
    by (simp add: channel_consistent_def has_mask_of dependent_masks and_mask_of_0)
  moreover have "submask (mask_of [VIEW_CHANNEL, CONNECT]) (mask_of [VIEW_CHANNEL, CONNECT, USE_SOUNDBOARD])"
    by (simp add: submask_mask_of has_mask_of)
  ultimately show ?thesis
    using normalize_greatest_consistent
      [of "mask_of [VIEW_CHANNEL, CONNECT, USE_SOUNDBOARD]" 2] unfolding Let_def by blast
qed

text \<open>C1: Overwrite resolution of a member without ownership and without Administrator implements the abstract
  per-bit rule: member overwrite, then the union of the role overwrites, then the everyone overwrite,
  then the base mask. The guild-scoped result is exactly that set of bits, timed out or not. The channel-scoped
  result is the greatest contract-consistent sub-mask of that set, from which an active timeout then keeps only
  the bits that a timed-out member may have, viewing and reading history.\<close>

theorem resolve_permissions_refines_rule:
  assumes "\<not> has base ADMINISTRATOR"
  shows "(\<forall>k. bit (resolve_permissions False user everyone R base ows None timed_out) k
              \<longleftrightarrow> resolved_bit user everyone R ows base k) \<and>
    (\<exists>r. channel_consistent ct r \<and> (\<forall>k. bit r k \<longrightarrow> resolved_bit user everyone R ows base k) \<and>
       (\<forall>q. channel_consistent ct q \<longrightarrow> (\<forall>k. bit q k \<longrightarrow> resolved_bit user everyone R ows base k)
            \<longrightarrow> submask q r) \<and>
       resolve_permissions False user everyone R base ows (Some ct) timed_out =
         (if timed_out then r AND mask_of [VIEW_CHANNEL, READ_MESSAGE_HISTORY] else r))"
proof
  let ?p = "apply_overwrites user everyone R ows base"
  let ?r = "normalize_permission_dependencies ?p (Some ct) False"
  show "\<forall>k. bit (resolve_permissions False user everyone R base ows None timed_out) k
              \<longleftrightarrow> resolved_bit user everyone R ows base k"
    using assms
    by (simp add: resolve_permissions_def normalize_permission_dependencies_def [of _ None] bit_apply_overwrites)
  have greatest: "channel_consistent ct ?r" "submask ?r ?p"
      "\<forall>q. channel_consistent ct q \<longrightarrow> submask q ?p \<longrightarrow> submask q ?r"
    using normalize_greatest [where p = ?p and ct = ct] by blast+
  have "resolve_permissions False user everyone R base ows (Some ct) timed_out =
      (if timed_out then ?r AND mask_of [VIEW_CHANNEL, READ_MESSAGE_HISTORY] else ?r)"
    using assms by (simp add: resolve_permissions_def normalize_timed_out TIMEOUT_ALLOWED_def)
  with greatest
  show "\<exists>r. channel_consistent ct r \<and> (\<forall>k. bit r k \<longrightarrow> resolved_bit user everyone R ows base k) \<and>
       (\<forall>q. channel_consistent ct q \<longrightarrow> (\<forall>k. bit q k \<longrightarrow> resolved_bit user everyone R ows base k)
            \<longrightarrow> submask q r) \<and>
       resolve_permissions False user everyone R base ows (Some ct) timed_out =
         (if timed_out then r AND mask_of [VIEW_CHANNEL, READ_MESSAGE_HISTORY] else r)"
    unfolding submask_iff [of _ ?p] bit_apply_overwrites by blast
qed

theorem resolve_permissions_refines_rule_witness:
  "let deny_send = \<lparr>po_target_id = 1, po_target_domain = ''a.example'', po_target_type = ''role'',
         po_allow = 0, po_deny = mask_of [SEND_MESSAGES]\<rparr>;
       resolve = resolve_permissions False (7, ''a.example'') (1, ''a.example'') {(1, ''a.example'')};
       in_guild = resolve (mask_of [VIEW_CHANNEL, SEND_MESSAGES]) [deny_send] None False;
       in_voice = resolve (mask_of [VIEW_CHANNEL, CONNECT, SEND_MESSAGES]) [deny_send] (Some 2)
   in \<not> has in_guild SEND_MESSAGES \<and> has in_guild VIEW_CHANNEL \<and>
      has (in_voice False) CONNECT \<and> \<not> has (in_voice False) SEND_MESSAGES \<and>
      has (in_voice True) VIEW_CHANNEL \<and> \<not> has (in_voice True) CONNECT"
proof -
  let ?ows = "[\<lparr>po_target_id = 1, po_target_domain = ''a.example'', po_target_type = ''role'',
      po_allow = 0, po_deny = mask_of [SEND_MESSAGES]\<rparr>]"
  let ?resolve = "resolve_permissions False (7, ''a.example'') (1, ''a.example'') {(1, ''a.example'')}"
  let ?bit = "resolved_bit (7, ''a.example'') (1, ''a.example'') {(1, ''a.example'')} ?ows"
  let ?voice = "mask_of [VIEW_CHANNEL, CONNECT]"
  have guild: "bit (?resolve (mask_of [VIEW_CHANNEL, SEND_MESSAGES]) ?ows None False) k =
      ?bit (mask_of [VIEW_CHANNEL, SEND_MESSAGES]) k" for k
    by (rule resolve_permissions_refines_rule [THEN conjunct1, rule_format]) (simp add: has_mask_of)
  have rule: "?bit base k \<longleftrightarrow> bit base k \<and> k \<noteq> perm_bit SEND_MESSAGES" for base k
    by (auto simp: resolved_bit_def overwrite_verdict_def Let_def bit_mask_of)
  have "channel_consistent 2 ?voice"
    using dependency_closed_chains(3)
    by (simp add: channel_consistent_def has_mask_of dependent_masks and_mask_of_0)
  moreover have "\<forall>k. bit ?voice k \<longrightarrow> ?bit (mask_of [VIEW_CHANNEL, CONNECT, SEND_MESSAGES]) k"
    unfolding rule by (auto simp: bit_mask_of)
  moreover have no_admin: "\<not> has (mask_of [VIEW_CHANNEL, CONNECT, SEND_MESSAGES]) ADMINISTRATOR"
    by (simp add: has_mask_of)
  ultimately have voice: "\<exists>r. submask ?voice r \<and> \<not> has r SEND_MESSAGES \<and>
      ?resolve (mask_of [VIEW_CHANNEL, CONNECT, SEND_MESSAGES]) ?ows (Some 2) t =
        (if t then r AND mask_of [VIEW_CHANNEL, READ_MESSAGE_HISTORY] else r)" for t
    using resolve_permissions_refines_rule [OF no_admin, THEN conjunct2,
        of 2 "(7, ''a.example'')" "(1, ''a.example'')" "{(1, ''a.example'')}" ?ows t]
    unfolding rule has_iff by blast
  have "has r VIEW_CHANNEL" "has r CONNECT" if "submask ?voice r" for r
    using that by (auto simp: submask_mask_of)
  then show ?thesis
    using voice [of False] voice [of True] unfolding Let_def has_iff guild rule
    by (auto simp: bit_mask_of mask_simps)
qed

text \<open>Ownership grants every permission everywhere, even during a timeout. Administrator grants every
  permission whatever the overwrites say, except that an active timeout reduces it in a channel to
  viewing and reading history.\<close>

theorem resolve_permissions_privileged:
  "resolve_permissions True user everyone R base ows ct timed_out = ALL_PERMISSIONS \<and>
   (has base ADMINISTRATOR \<longrightarrow>
      resolve_permissions False user everyone R base ows ct False = ALL_PERMISSIONS \<and>
      resolve_permissions False user everyone R base ows None True = ALL_PERMISSIONS \<and>
      resolve_permissions False user everyone R base ows (Some c) True = TIMEOUT_ALLOWED)"
proof -
  have "ALL_PERMISSIONS AND TIMEOUT_ALLOWED = TIMEOUT_ALLOWED"
    by (simp add: TIMEOUT_ALLOWED_def submask_absorb)
  then show ?thesis
    by (simp add: resolve_permissions_def normalize_ALL normalize_timed_out)
       (simp add: normalize_permission_dependencies_def)
qed

theorem resolve_permissions_privileged_witness:
  "resolve_permissions False (7, ''a.example'') (1, ''a.example'') {} (mask_of [ADMINISTRATOR]) [] (Some 0) True
   = TIMEOUT_ALLOWED"
  using resolve_permissions_privileged [of "(7, ''a.example'')" "(1, ''a.example'')" "{}"
      "mask_of [ADMINISTRATOR]" "[]" None False 0]
  by (simp add: has_mask_of)

text \<open>C3: A timed-out member other than the owner keeps at most viewing and history reading in a channel,
  the timeout never adds a permission, and no resolution yields a bit outside the published catalogue
  when the role masks and allow masks stay inside it.\<close>

theorem resolve_permissions_bounded:
  "submask (resolve_permissions False user everyone R base ows (Some c) True) TIMEOUT_ALLOWED \<and>
   submask (resolve_permissions owner user everyone R base ows ct True)
     (resolve_permissions owner user everyone R base ows ct False) \<and>
   (submask base ALL_PERMISSIONS \<longrightarrow> (\<forall>i \<in> set ows. submask (po_allow i) ALL_PERMISSIONS) \<longrightarrow>
      submask (resolve_permissions owner user everyone R base ows ct timed_out) ALL_PERMISSIONS)"
proof (intro conjI impI)
  show "submask (resolve_permissions False user everyone R base ows (Some c) True) TIMEOUT_ALLOWED"
    by (simp add: resolve_permissions_def normalize_timed_out)
  show "submask (resolve_permissions owner user everyone R base ows ct True)
      (resolve_permissions owner user everyone R base ows ct False)"
    by (cases ct) (auto simp: resolve_permissions_def normalize_timed_out,
        simp_all add: normalize_permission_dependencies_def)
  assume "submask base ALL_PERMISSIONS" "\<forall>i \<in> set ows. submask (po_allow i) ALL_PERMISSIONS"
  then have "submask (apply_overwrites user everyone R ows base) ALL_PERMISSIONS"
    by (rule apply_overwrites_submask)
  then have "submask (normalize_permission_dependencies (if has base ADMINISTRATOR then ALL_PERMISSIONS
      else apply_overwrites user everyone R ows base) ct timed_out) ALL_PERMISSIONS"
    by (intro submask_trans [OF normalize_submask]) simp
  then show "submask (resolve_permissions owner user everyone R base ows ct timed_out) ALL_PERMISSIONS"
    by (simp add: resolve_permissions_def)
qed

theorem resolve_permissions_bounded_witness:
  "submask (resolve_permissions False (7, ''a.example'') (1, ''a.example'') {} (mask_of [VIEW_CHANNEL]) [] (Some 0) False)
     ALL_PERMISSIONS"
  using resolve_permissions_bounded [where owner = False and user = "(7, ''a.example'')" and
      everyone = "(1, ''a.example'')" and R = "{}" and base = "mask_of [VIEW_CHANNEL]" and ows = "[]"
      and ct = "Some 0" and timed_out = False] by simp
end
