(* ===== verification/Guild_Store.thy ===== *)
theory Guild_Store
  imports Kaede_Prelude
begin

text \<open>
  The database rows that authorization reads, reduced to the columns it uses, and the session as the
  collection of the tables. A nullable column is an \<open>option\<close>; a composite foreign key compares both
  components; a timestamp is a number of microseconds. Nothing here is an operation of the program:
  the queries are modelled where the code states them.
\<close>

record Guild =
  g_id :: int
  g_origin_domain :: string
  g_owner_id :: int
  g_owner_domain :: string
  g_permission_generation :: int
  g_onboarding :: "(pyval \<times> pyval) list option"

abbreviation g_ref :: "Guild \<Rightarrow> entity_ref" where
  "g_ref g \<equiv> (g_id g, g_origin_domain g)"

abbreviation g_owner :: "Guild \<Rightarrow> entity_ref" where
  "g_owner g \<equiv> (g_owner_id g, g_owner_domain g)"

record User =
  u_id :: int
  u_origin_domain :: string
  u_account_type :: string
  u_disabled_at :: "int option"

abbreviation u_ref :: "User \<Rightarrow> entity_ref" where
  "u_ref u \<equiv> (u_id u, u_origin_domain u)"

record GuildMember =
  gm_guild_id :: int
  gm_guild_domain :: string
  gm_user_id :: int
  gm_user_domain :: string
  gm_timeout_until :: "int option"
  gm_timeout_indefinite :: bool
  gm_member_version :: int
  gm_onboarding_state :: "(pyval \<times> pyval) list option"

record Role =
  r_id :: int
  r_origin_domain :: string
  r_guild_id :: int
  r_guild_domain :: string
  r_permissions :: int
  r_position :: int
  r_managed :: bool

record MemberRole =
  mr_guild_id :: int
  mr_guild_domain :: string
  mr_user_id :: int
  mr_user_domain :: string
  mr_role_id :: int
  mr_role_domain :: string

record Channel =
  c_id :: int
  c_origin_domain :: string
  c_guild_id :: "int option"
  c_guild_domain :: "string option"
  c_type :: int
  c_unavailable :: bool
  c_parent_id :: "int option"
  c_parent_domain :: "string option"
  c_permissions_synced :: bool

abbreviation c_ref :: "Channel \<Rightarrow> entity_ref" where
  "c_ref c \<equiv> (c_id c, c_origin_domain c)"

abbreviation c_guild :: "Channel \<Rightarrow> int option \<times> string option" where
  "c_guild c \<equiv> (c_guild_id c, c_guild_domain c)"

record ChannelOverwrite =
  co_channel_id :: int
  co_channel_domain :: string
  co_target_id :: int
  co_target_domain :: string
  co_target_type :: string
  co_allow :: int
  co_deny :: int

record BotInstallation =
  bi_id :: int
  bi_application_id :: int
  bi_application_domain :: string
  bi_guild_id :: int
  bi_guild_domain :: string
  bi_bot_user_id :: int
  bi_bot_user_domain :: string
  bi_status :: string
  bi_revoked_at :: "int option"
  bi_grant_revision :: int
  bi_granted_permissions :: int
  bi_channel_restrictions :: "ustr list"

record BotApplication =
  ba_id :: int
  ba_origin_domain :: string
  ba_bot_user_id :: int
  ba_bot_user_domain :: string
  ba_status :: string
  ba_manifest_generation :: int
  ba_revocation_generation :: int

record BotApplicationTarget =
  bt_application_id :: int
  bt_application_domain :: string
  bt_target_domain :: string
  bt_runtime_fingerprint :: "ustr option"
  bt_runtime_manifest_generation :: int
  bt_runtime_revocation_generation :: int
  bt_runtime_status :: string
  bt_runtime_target_allowed :: bool

record Session =
  s_members :: "GuildMember list"
  s_roles :: "Role list"
  s_member_roles :: "MemberRole list"
  s_channels :: "Channel list"
  s_overwrites :: "ChannelOverwrite list"
  s_thread_members :: "(entity_ref \<times> entity_ref) list"
  s_installations :: "BotInstallation list"
  s_applications :: "BotApplication list"
  s_targets :: "BotApplicationTarget list"

text \<open>\<open>session.get(Channel, (id, domain))\<close>: the row of a primary key; a NULL component finds nothing.\<close>

definition get_channel :: "Session \<Rightarrow> int option \<Rightarrow> string option \<Rightarrow> Channel option" where
  "get_channel s cid cdom =
     (case (cid, cdom) of
        (Some i, Some d) \<Rightarrow> find (\<lambda>c. c_ref c = (i, d)) (s_channels s)
      | _ \<Rightarrow> None)"

text \<open>The guild-scoped member row of a user.\<close>

definition find_member :: "Session \<Rightarrow> Guild \<Rightarrow> entity_ref \<Rightarrow> GuildMember option" where
  "find_member s g u =
     find (\<lambda>m. (gm_guild_id m, gm_guild_domain m) = g_ref g \<and> (gm_user_id m, gm_user_domain m) = u) (s_members s)"

lemma get_channel_SomeD:
  "get_channel s i d = Some c \<Longrightarrow> c \<in> set (s_channels s) \<and> i = Some (c_id c) \<and> d = Some (c_origin_domain c)"
  by (auto simp: get_channel_def split: option.splits dest: find_SomeD)

lemma find_member_SomeD:
  "find_member s g u = Some m \<Longrightarrow> m \<in> set (s_members s) \<and> gm_guild_id m = g_id g \<and>
     gm_guild_domain m = g_origin_domain g \<and> (gm_user_id m, gm_user_domain m) = u"
  by (auto simp: find_member_def dest: find_SomeD)

end
