(* ===== verification/Hierarchy.thy ===== *)
theory Hierarchy
  imports Guild_Store "HOL-Library.Product_Lexorder"
begin

text \<open>
  Role and member hierarchy (\<open>chat/hierarchy.py\<close>): the rank of a role, the highest role of a member, and the
  guards of role, member and role-assignment mutations. The locale states the contract of a ranked
  authority relation once; member management and role reordering are its instances, which gives
  that authority is acyclic: no chain of members can each manage the next and come back.
\<close>

section \<open>Operations\<close>

definition guild_member :: "Session \<Rightarrow> Guild \<Rightarrow> entity_ref \<Rightarrow> GuildMember result" where
  "guild_member session guild user =
     (case find_member session guild user of
        None \<Rightarrow> Inl (HTTPException 404 ''MEMBER_NOT_FOUND'')
      | Some member \<Rightarrow> Inr member)"

definition guild_role :: "Session \<Rightarrow> Guild \<Rightarrow> int \<Rightarrow> Role result" where
  "guild_role session guild role_id =
     (case find (\<lambda>r. r_id r = role_id \<and> r_origin_domain r = g_origin_domain guild
                     \<and> (r_guild_id r, r_guild_domain r) = g_ref guild) (s_roles session) of
        None \<Rightarrow> Inl (HTTPException 404 ''ROLE_NOT_FOUND'')
      | Some role \<Rightarrow> Inr role)"

text \<open>The outer join: the roles of the guild that are the everyone role or assigned to the user.\<close>

definition member_roles :: "Session \<Rightarrow> Guild \<Rightarrow> entity_ref \<Rightarrow> Role list" where
  "member_roles session guild user =
     filter (\<lambda>r. (r_guild_id r, r_guild_domain r) = g_ref guild \<and>
               (r_id r = g_id guild \<or>
                list_ex (\<lambda>m. (mr_role_id m, mr_role_domain m) = (r_id r, r_origin_domain r)
                           \<and> (mr_guild_id m, mr_guild_domain m) = g_ref guild
                           \<and> (mr_user_id m, mr_user_domain m) = user) (s_member_roles session)))
       (s_roles session)"

definition role_rank :: "Role \<Rightarrow> int \<times> int" where
  "role_rank role = (r_position role, - r_id role)"

definition role_reorder_allowed :: "Role \<Rightarrow> Role \<Rightarrow> int \<Rightarrow> bool" where
  "role_reorder_allowed actor_role target_role new_position \<longleftrightarrow>
     role_rank target_role < role_rank actor_role \<and> new_position < r_position actor_role"

definition highest_role :: "Session \<Rightarrow> Guild \<Rightarrow> entity_ref \<Rightarrow> Role result" where
  "highest_role session guild user =
     (case member_roles session guild user of
        [] \<Rightarrow> Inl (ValueError ''max() arg is an empty sequence'')
      | r # rs \<Rightarrow> Inr (max_key role_rank r rs))"

definition require_unmanaged_role :: "Role \<Rightarrow> unit result" where
  "require_unmanaged_role role =
     (if r_managed role then Inl (HTTPException 400 ''MANAGED_ROLE_IMMUTABLE'') else Inr ())"

definition require_can_manage_role :: "Session \<Rightarrow> Guild \<Rightarrow> User \<Rightarrow> Role \<Rightarrow> unit result" where
  "require_can_manage_role session guild actor role =
     (if g_owner guild = u_ref actor then Inr ()
      else rbind (highest_role session guild (u_ref actor)) (\<lambda>actor_role.
        if role_rank actor_role \<le> role_rank role then Inl (HTTPException 403 ''ROLE_HIERARCHY'')
        else Inr ()))"

text \<open>The rank comparison that member management and role assignment share.\<close>

definition require_outranks :: "Session \<Rightarrow> Guild \<Rightarrow> User \<Rightarrow> entity_ref \<Rightarrow> GuildMember \<Rightarrow> GuildMember result" where
  "require_outranks session guild actor target_ref target =
     rbind (highest_role session guild (u_ref actor)) (\<lambda>actor_role.
     rbind (highest_role session guild target_ref) (\<lambda>target_role.
       if role_rank actor_role \<le> role_rank target_role then Inl (HTTPException 403 ''ROLE_HIERARCHY'')
       else Inr target))"

definition require_can_manage_member ::
  "Session \<Rightarrow> Guild \<Rightarrow> User \<Rightarrow> entity_ref \<Rightarrow> GuildMember result" where
  "require_can_manage_member session guild actor target_ref =
     rbind (guild_member session guild target_ref) (\<lambda>target.
       if target_ref = g_owner guild then Inl (HTTPException 403 ''OWNER_IMMUNE'')
       else if target_ref = u_ref actor then Inl (HTTPException 403 ''CANNOT_MANAGE_SELF'')
       else if g_owner guild = u_ref actor then Inr target
       else require_outranks session guild actor target_ref target)"

definition require_can_assign_member_role ::
  "Session \<Rightarrow> Guild \<Rightarrow> User \<Rightarrow> entity_ref \<Rightarrow> GuildMember result" where
  "require_can_assign_member_role session guild actor target_ref =
     rbind (guild_member session guild target_ref) (\<lambda>target.
       if target_ref = g_owner guild
       then (if u_ref actor \<noteq> g_owner guild then Inl (HTTPException 403 ''OWNER_IMMUNE'') else Inr target)
       else if u_ref actor \<in> {target_ref, g_owner guild} then Inr target
       else require_outranks session guild actor target_ref target)"

section \<open>Ranked authority\<close>

locale ranked_authority =
  fixes manages :: "'m \<Rightarrow> 'm \<Rightarrow> bool"
    and supreme :: "'m \<Rightarrow> bool"
    and rank :: "'m \<Rightarrow> 'k::linorder"
  assumes supreme_immune: "manages a t \<Longrightarrow> \<not> supreme t"
    and outranks: "manages a t \<Longrightarrow> \<not> supreme a \<Longrightarrow> rank t < rank a"
begin

lemma manages_lex: "manages a t \<Longrightarrow> (supreme t, rank t) < (supreme a, rank a)"
  using supreme_immune [of a t] outranks [of a t] by (cases "supreme a") (auto simp: less_prod_simp)

lemma manages_chain: "manages\<^sup>+\<^sup>+ a t \<Longrightarrow> (supreme t, rank t) < (supreme a, rank a)"
proof (induction rule: tranclp.induct)
  case (r_into_trancl a b)
  then show ?case by (rule manages_lex)
next
  case (trancl_into_trancl a b c)
  from manages_lex [OF trancl_into_trancl(2)] trancl_into_trancl(3)
  show ?case by (rule less_trans)
qed

lemma no_cycle: "\<not> manages\<^sup>+\<^sup>+ a a"
  using manages_chain [of a a] by blast

lemma manages_asym: "manages a t \<Longrightarrow> \<not> manages t a"
  using no_cycle [of a] by (meson tranclp.r_into_trancl tranclp.trancl_into_trancl)

end

section \<open>The guards as ranked authorities\<close>

text \<open>The rank of a member: the rank of the highest role, where one exists.\<close>

definition member_rank :: "Session \<Rightarrow> Guild \<Rightarrow> entity_ref \<Rightarrow> int \<times> int" where
  "member_rank session guild user =
     (case highest_role session guild user of Inr r \<Rightarrow> role_rank r | Inl _ \<Rightarrow> (0, 0))"

definition actor_of :: "entity_ref \<Rightarrow> User" where
  "actor_of u = \<lparr>u_id = fst u, u_origin_domain = snd u, u_account_type = ''human'', u_disabled_at = None\<rparr>"

definition can_manage_member :: "Session \<Rightarrow> Guild \<Rightarrow> entity_ref \<Rightarrow> entity_ref \<Rightarrow> bool" where
  "can_manage_member session guild a t \<longleftrightarrow> is_ok (require_can_manage_member session guild (actor_of a) t)"

lemma u_ref_actor_of [simp]: "u_id (actor_of u) = fst u" "u_origin_domain (actor_of u) = snd u"
  by (simp_all add: actor_of_def)

lemma require_outranks_Inr:
  "require_outranks s g a t m = Inr m' \<longleftrightarrow>
   m' = m \<and> is_ok (highest_role s g (u_ref a)) \<and> is_ok (highest_role s g t) \<and>
   member_rank s g t < member_rank s g (u_ref a)"
  by (auto simp: require_outranks_def member_rank_def is_ok_iff result_simps not_le split: if_splits)

lemma manage_member_Inr:
  "require_can_manage_member s g a t = Inr m \<longleftrightarrow>
   guild_member s g t = Inr m \<and> t \<noteq> g_owner g \<and> t \<noteq> u_ref a \<and>
   (g_owner g = u_ref a \<or>
    is_ok (highest_role s g (u_ref a)) \<and> is_ok (highest_role s g t) \<and>
    member_rank s g t < member_rank s g (u_ref a))"
  unfolding require_can_manage_member_def
  by (auto simp: result_simps require_outranks_Inr split: if_splits)

lemma assign_role_Inr:
  "require_can_assign_member_role s g a t = Inr m \<longleftrightarrow>
   guild_member s g t = Inr m \<and>
   (if t = g_owner g then u_ref a = g_owner g
    else u_ref a = t \<or> u_ref a = g_owner g \<or>
      is_ok (highest_role s g (u_ref a)) \<and> is_ok (highest_role s g t) \<and>
      member_rank s g t < member_rank s g (u_ref a))"
  unfolding require_can_assign_member_role_def
  by (auto simp: result_simps require_outranks_Inr split: if_splits)

lemma highest_role_greatest:
  assumes "highest_role s g u = Inr r"
  shows "r \<in> set (member_roles s g u) \<and> (\<forall>r' \<in> set (member_roles s g u). role_rank r' \<le> role_rank r)"
proof -
  from assms obtain x xs where xs: "member_roles s g u = x # xs" "r = max_key role_rank x xs"
    by (auto simp: highest_role_def split: list.splits)
  then show ?thesis using max_key_in [of role_rank x xs] max_key_ge [of _ x xs role_rank] by simp
qed

interpretation member_auth: ranked_authority
  "can_manage_member session guild" "\<lambda>u. u = g_owner guild" "member_rank session guild"
  for session guild
  by unfold_locales (auto simp: can_manage_member_def is_ok_iff manage_member_Inr)

interpretation role_auth: ranked_authority
  "\<lambda>actor_role target_role. role_reorder_allowed actor_role target_role new_position" "\<lambda>_. False" role_rank
  for new_position
  by unfold_locales (simp_all add: role_reorder_allowed_def)

section \<open>Properties\<close>

text \<open>C14: Member management is acyclic: there is no chain of members, each allowed to kick, ban or time out the
  next, that returns to its start; in particular two members never hold that authority over each
  other and nobody holds it over themselves.\<close>

theorem member_management_acyclic:
  "\<not> (can_manage_member session guild)\<^sup>+\<^sup>+ u u \<and>
   \<not> (can_manage_member session guild a t \<and> can_manage_member session guild t a)"
  using member_auth.no_cycle member_auth.manages_asym by blast

text \<open>A member guard that succeeds for an actor who is not the owner guarantees that the target is a guild member,
  is neither the owner nor the actor, and that every role the target holds ranks strictly below some
  role of the actor. Role assignment gives the same guarantee except that members may act on
  themselves; nobody but the owner can change the owner's roles.\<close>

theorem member_guards_outrank:
  assumes "u_ref actor \<noteq> g_owner guild"
  shows "(require_can_manage_member session guild actor target = Inr m \<longrightarrow>
      find_member session guild target = Some m \<and> target \<noteq> g_owner guild \<and> target \<noteq> u_ref actor \<and>
      (\<exists>r \<in> set (member_roles session guild (u_ref actor)).
         \<forall>r' \<in> set (member_roles session guild target). role_rank r' < role_rank r)) \<and>
    (require_can_assign_member_role session guild actor target = Inr m \<longrightarrow>
      find_member session guild target = Some m \<and> target \<noteq> g_owner guild \<and>
      (target = u_ref actor \<or>
       (\<exists>r \<in> set (member_roles session guild (u_ref actor)).
          \<forall>r' \<in> set (member_roles session guild target). role_rank r' < role_rank r)))"
proof -
  have member: "find_member session guild target = Some m" if "guild_member session guild target = Inr m"
    using that by (simp add: guild_member_def split: option.splits)
  have outrank: "\<exists>r \<in> set (member_roles session guild (u_ref actor)).
      \<forall>r' \<in> set (member_roles session guild target). role_rank r' < role_rank r"
    if "is_ok (highest_role session guild (u_ref actor))" "is_ok (highest_role session guild target)"
      "member_rank session guild target < member_rank session guild (u_ref actor)"
  proof -
    from that obtain r t where r: "highest_role session guild (u_ref actor) = Inr r"
      and t: "highest_role session guild target = Inr t" and "role_rank t < role_rank r"
      by (auto simp: is_ok_iff member_rank_def)
    with highest_role_greatest [OF r] highest_role_greatest [OF t] show ?thesis
      by (meson le_less_trans)
  qed
  show ?thesis
    using assms member outrank unfolding manage_member_Inr assign_role_Inr by (auto split: if_splits)
qed

theorem member_guards_outrank_witness:
  "\<exists>session guild. require_can_manage_member session guild (actor_of (5, ''a.example'')) (6, ''a.example'')
       = Inr (hd (tl (s_members session))) \<and>
     (\<exists>r \<in> set (member_roles session guild (5, ''a.example'')).
        \<forall>r' \<in> set (member_roles session guild (6, ''a.example'')). role_rank r' < role_rank r)"
proof -
  let ?m = "\<lambda>i. \<lparr>gm_guild_id = 1, gm_guild_domain = ''a.example'', gm_user_id = i,
    gm_user_domain = ''a.example'', gm_timeout_until = None, gm_timeout_indefinite = False,
    gm_member_version = 1, gm_onboarding_state = None\<rparr>"
  let ?r = "\<lambda>i p. \<lparr>r_id = i, r_origin_domain = ''a.example'', r_guild_id = 1, r_guild_domain = ''a.example'',
    r_permissions = 0, r_position = p, r_managed = False\<rparr>"
  let ?s = "\<lparr>s_members = [?m 5, ?m 6], s_roles = [?r 1 0, ?r 9 3],
    s_member_roles = [\<lparr>mr_guild_id = 1, mr_guild_domain = ''a.example'', mr_user_id = 5,
      mr_user_domain = ''a.example'', mr_role_id = 9, mr_role_domain = ''a.example''\<rparr>],
    s_channels = [], s_overwrites = [], s_thread_members = [], s_installations = [],
    s_applications = [], s_targets = []\<rparr>"
  let ?g = "\<lparr>g_id = 1, g_origin_domain = ''a.example'', g_owner_id = 4, g_owner_domain = ''a.example'',
    g_permission_generation = 1, g_onboarding = None\<rparr>"
  have ok: "require_can_manage_member ?s ?g (actor_of (5, ''a.example'')) (6, ''a.example'') = Inr (?m 6)"
    by (simp add: require_can_manage_member_def guild_member_def find_member_def require_outranks_def
        highest_role_def member_roles_def role_rank_def less_eq_prod_simp)
  have "u_ref (actor_of (5, ''a.example'')) \<noteq> g_owner ?g" by simp
  from member_guards_outrank [OF this, THEN conjunct1, rule_format, OF ok] ok
  show ?thesis by (intro exI [of _ ?s] exI [of _ ?g]) simp
qed

text \<open>A permitted role reorder keeps the moved role strictly below the actor's own role, so reordering
  never crosses the actor's hierarchy ceiling.\<close>

theorem role_reorder_below_ceiling:
  assumes "role_reorder_allowed actor_role target_role new_position"
  shows "role_rank (target_role\<lparr>r_position := new_position\<rparr>) < role_rank actor_role \<and>
    \<not> role_reorder_allowed target_role actor_role p"
  using assms by (auto simp: role_reorder_allowed_def role_rank_def less_prod_simp)

theorem role_reorder_below_ceiling_witness:
  "let top = \<lparr>r_id = 9, r_origin_domain = ''a.example'', r_guild_id = 1, r_guild_domain = ''a.example'',
       r_permissions = 0, r_position = 3, r_managed = False\<rparr>
   in role_rank (top\<lparr>r_id := 8, r_position := 2\<rparr>) < role_rank top"
proof -
  let ?top = "\<lparr>r_id = 9, r_origin_domain = ''a.example'', r_guild_id = 1, r_guild_domain = ''a.example'',
       r_permissions = 0, r_position = 3, r_managed = False\<rparr>"
  have "role_reorder_allowed ?top (?top\<lparr>r_id := 8, r_position := 1\<rparr>) 2"
    by (simp add: role_reorder_allowed_def role_rank_def less_prod_simp)
  from role_reorder_below_ceiling [OF this] show ?thesis by (simp add: Let_def)
qed

end
