(* ===== verification/Snowflake.thy ===== *)
theory Snowflake
  imports Kaede_Prelude Complex_Main
begin

text \<open>
  Identifier minting (\<open>core/snowflake.py\<close>). The first part models the worker lease and the generator as
  functions of what one call reads from its environment: the wall clock in milliseconds, the
  monotonic clock in seconds and the reply of the store. The second part is the lease protocol itself
  as a step relation over one worker key: claims, quarantine, activation, renewal, expiry and store
  flushes interleave freely. Identifiers of one generator strictly increase, identifiers of
  different workers differ, and at no time two processes hold a valid lease of the same worker.
\<close>

unbundle bit_operations_syntax

section \<open>Constants\<close>

definition EPOCH_MS :: int where "EPOCH_MS = 1767225600000"
definition WORKER_BITS :: nat where "WORKER_BITS = 10"
definition SEQUENCE_BITS :: nat where "SEQUENCE_BITS = 12"
definition MAX_WORKER_ID :: int where "MAX_WORKER_ID = push_bit WORKER_BITS 1 - 1"
definition MAX_SEQUENCE :: int where "MAX_SEQUENCE = push_bit SEQUENCE_BITS 1 - 1"
definition MAX_TIMESTAMP :: int where "MAX_TIMESTAMP = push_bit 41 1 - 1"
definition LEASE_TTL_SECONDS :: int where "LEASE_TTL_SECONDS = 60"
definition HEARTBEAT_SECONDS :: int where "HEARTBEAT_SECONDS = 20"

section \<open>Worker lease\<close>

record WorkerLease =
  worker_id :: int
  owner :: string
  valid_until :: "rat option"
  lease_ttl_seconds :: int
  lost :: bool

definition WorkerLease_post_init :: "WorkerLease \<Rightarrow> WorkerLease result" where
  "WorkerLease_post_init lease =
     (if \<not> (0 \<le> worker_id lease \<and> worker_id lease \<le> MAX_WORKER_ID)
      then Inl (ValueError ''snowflake worker ID is outside the 10-bit range'')
      else if owner lease = [] then Inl (ValueError ''snowflake lease owner cannot be empty'')
      else if lease_ttl_seconds lease \<le> 0 then Inl (ValueError ''snowflake lease TTL must be positive'')
      else Inr lease)"

text \<open>What one candidate worker answers during acquisition: whether \<open>SET NX\<close> claimed the key, the
  monotonic time of the activation request, the activation reply and the time it is inspected.\<close>

record acquire_env =
  ae_acquired :: bool
  ae_requested_at :: rat
  ae_activated :: int
  ae_checked_at :: rat

fun acquire_loop :: "int \<Rightarrow> string \<Rightarrow> (int \<Rightarrow> acquire_env) \<Rightarrow> int list \<Rightarrow> WorkerLease result" where
  "acquire_loop ttl own env [] = Inl (RuntimeError ''all snowflake worker IDs are leased'')"
| "acquire_loop ttl own env (w # ws) =
     (if ae_acquired (env w)
      then let until = ae_requested_at (env w) + of_int ttl
           in if ae_activated (env w) \<noteq> 1 then acquire_loop ttl own env ws
              else if until \<le> ae_checked_at (env w) then acquire_loop ttl own env ws
              else WorkerLease_post_init
                     \<lparr>worker_id = w, owner = own, valid_until = Some until, lease_ttl_seconds = ttl, lost = False\<rparr>
      else acquire_loop ttl own env ws)"

definition acquire :: "int \<Rightarrow> string \<Rightarrow> (int \<Rightarrow> acquire_env) \<Rightarrow> WorkerLease result" where
  "acquire ttl own env =
     (if ttl \<le> 0 then Inl (ValueError ''snowflake lease TTL must be positive'')
      else acquire_loop ttl own env [0..MAX_WORKER_ID])"

text \<open>The property \<open>valid\<close> read at a monotonic time; an expired lease is marked lost.\<close>

definition lease_valid :: "rat \<Rightarrow> WorkerLease \<Rightarrow> bool \<times> WorkerLease" where
  "lease_valid now lease =
     (if lost lease then (False, lease)
      else case valid_until lease of
             None \<Rightarrow> (True, lease)
           | Some deadline \<Rightarrow> if deadline \<le> now then (False, lease\<lparr>lost := True\<rparr>) else (True, lease))"

text \<open>What the awaited store call does: it replies, it raises, or the task is cancelled in it.\<close>

datatype eval_outcome = Reply int | Raised | Cancelled

text \<open>The exceptions of a mint; cancellation is not an \<open>Exception\<close> and passes every handler.\<close>

datatype mint_error = MintRuntimeError string | MintCancelled

record ownership_env =
  oe_entry :: rat
  oe_locked :: rat
  oe_requested_at :: rat
  oe_outcome :: eval_outcome
  oe_replied_at :: rat

definition assert_owned :: "ownership_env \<Rightarrow> WorkerLease \<Rightarrow> (mint_error + unit) \<times> WorkerLease" where
  "assert_owned env lease =
     (case lease_valid (oe_entry env) lease of
        (False, l1) \<Rightarrow> (Inl (MintRuntimeError ''snowflake worker lease was lost''), l1)
      | (True, l1) \<Rightarrow>
          (case lease_valid (oe_locked env) l1 of
             (False, l2) \<Rightarrow> (Inl (MintRuntimeError ''snowflake worker lease was lost''), l2)
           | (True, l2) \<Rightarrow>
               (case oe_outcome env of
                  Cancelled \<Rightarrow> (Inl MintCancelled, l2)
                | Raised \<Rightarrow>
                    (Inl (MintRuntimeError ''snowflake worker lease ownership is uncertain''), l2\<lparr>lost := True\<rparr>)
                | Reply renewed \<Rightarrow>
                    (let until = oe_requested_at env + of_int (lease_ttl_seconds l2)
                     in if renewed \<noteq> 1 \<or> until \<le> oe_replied_at env
                        then (Inl (MintRuntimeError ''snowflake worker lease was lost''), l2\<lparr>lost := True\<rparr>)
                        else (Inr (), l2\<lparr>valid_until := Some until\<rparr>)))))"

definition start_heartbeat :: "rat \<Rightarrow> WorkerLease \<Rightarrow> WorkerLease" where
  "start_heartbeat now lease =
     (if valid_until lease = None
      then lease\<lparr>valid_until := Some (now + of_int (lease_ttl_seconds lease))\<rparr> else lease)"

text \<open>One round of the heartbeat: an exception of the renewal marks the lease lost and ends the task.\<close>

definition heartbeat_round :: "ownership_env \<Rightarrow> WorkerLease \<Rightarrow> bool \<times> WorkerLease" where
  "heartbeat_round env lease =
     (case assert_owned env lease of
        (Inr _, l) \<Rightarrow> (True, l)
      | (Inl MintCancelled, l) \<Rightarrow> (False, l)
      | (Inl (MintRuntimeError _), l) \<Rightarrow> (False, l\<lparr>lost := True\<rparr>))"

definition lease_close :: "WorkerLease \<Rightarrow> WorkerLease" where
  "lease_close lease = lease\<lparr>lost := True\<rparr>"

section \<open>Generator\<close>

record generator =
  last_ms :: int
  sequence :: int

definition new_generator :: generator where
  "new_generator = \<lparr>last_ms = -1, sequence = 0\<rparr>"

text \<open>What a mint reads: the clock, the clock after the regression sleep, the monotonic start of a
  sequence rollover and its polls (lease check, deadline check, next clock reading), and the
  ownership confirmation.\<close>

record mint_env =
  me_entry :: rat
  me_clock :: int
  me_clock_after_sleep :: int
  me_rollover_start :: rat
  me_polls :: "(rat \<times> rat \<times> int) list"
  me_ownership :: ownership_env

text \<open>The rollover loop. \<open>None\<close>: the polls end while the loop is still waiting.\<close>

fun rollover :: "rat \<Rightarrow> int \<Rightarrow> int \<Rightarrow> (rat \<times> rat \<times> int) list \<Rightarrow> WorkerLease
    \<Rightarrow> ((mint_error + int) \<times> WorkerLease) option" where
  "rollover deadline last_time now_ms polls lease =
     (if last_time < now_ms then Some (Inr now_ms, lease)
      else case polls of
             [] \<Rightarrow> None
           | (t_valid, t_deadline, next_clock) # rest \<Rightarrow>
               (case lease_valid t_valid lease of
                  (False, l) \<Rightarrow> Some (Inl (MintRuntimeError ''snowflake worker lease was lost''), l)
                | (True, l) \<Rightarrow>
                    if deadline \<le> t_deadline
                    then Some (Inl (MintRuntimeError ''clock did not advance during sequence rollover''), l)
                    else rollover deadline last_time next_clock rest l))"

declare rollover.simps [simp del]

text \<open>The identifier layout: 41 bits of time, 10 bits of worker, 12 bits of sequence.\<close>

definition snowflake_id :: "int \<Rightarrow> int \<Rightarrow> int \<Rightarrow> int" where
  "snowflake_id worker timestamp seq =
     push_bit (WORKER_BITS + SEQUENCE_BITS) timestamp OR push_bit SEQUENCE_BITS worker OR seq"

text \<open>The tail of \<open>mint\<close>: range checks, ownership confirmation, commit.\<close>

definition commit_identifier ::
  "mint_env \<Rightarrow> int \<Rightarrow> generator \<Rightarrow> WorkerLease \<Rightarrow> (mint_error + int) \<times> generator \<times> WorkerLease" where
  "commit_identifier env now_ms gen lease =
     (if now_ms < EPOCH_MS then (Inl (MintRuntimeError ''clock is before the Kaede epoch''), gen, lease)
      else let timestamp = now_ms - EPOCH_MS
        in if MAX_TIMESTAMP < timestamp
           then (Inl (MintRuntimeError ''snowflake timestamp exhausted the signed BIGINT range''), gen, lease)
           else (case assert_owned (me_ownership env) lease of
                   (Inl e, l) \<Rightarrow> (Inl e, gen, l)
                 | (Inr _, l) \<Rightarrow>
                     (Inr (snowflake_id (worker_id l) timestamp (sequence gen)), gen\<lparr>last_ms := now_ms\<rparr>, l)))"

definition mint ::
  "mint_env \<Rightarrow> generator \<Rightarrow> WorkerLease \<Rightarrow> ((mint_error + int) \<times> generator \<times> WorkerLease) option" where
  "mint env gen lease =
     (case lease_valid (me_entry env) lease of
        (False, l) \<Rightarrow> Some (Inl (MintRuntimeError ''snowflake worker lease was lost''), gen, l)
      | (True, l) \<Rightarrow>
          if me_clock env < last_ms gen \<and> 5000 < last_ms gen - me_clock env
          then Some (Inl (MintRuntimeError ''clock regressed by more than 5 seconds''), gen, l)
          else
            let now_ms = (if me_clock env < last_ms gen then max (me_clock_after_sleep env) (last_ms gen)
                          else me_clock env)
            in if now_ms = last_ms gen
               then let gen' = gen\<lparr>sequence := sequence gen + 1\<rparr>
                    in if MAX_SEQUENCE < sequence gen'
                       then (case rollover (me_rollover_start env + 5) (last_ms gen) now_ms (me_polls env) l of
                               None \<Rightarrow> None
                             | Some (Inl e, l') \<Rightarrow> Some (Inl e, gen', l')
                             | Some (Inr now', l') \<Rightarrow>
                                 Some (commit_identifier env now' (gen'\<lparr>sequence := 0\<rparr>) l'))
                       else Some (commit_identifier env now_ms gen' l)
               else Some (commit_identifier env now_ms (gen\<lparr>sequence := 0\<rparr>) l))"

text \<open>Consecutive calls; the generator's lock orders them. The identifiers returned, in order.\<close>

fun mint_all :: "mint_env list \<Rightarrow> generator \<Rightarrow> WorkerLease \<Rightarrow> int list" where
  "mint_all [] gen lease = []"
| "mint_all (env # envs) gen lease =
     (case mint env gen lease of
        None \<Rightarrow> []
      | Some (Inl e, gen', lease') \<Rightarrow> mint_all envs gen' lease'
      | Some (Inr i, gen', lease') \<Rightarrow> i # mint_all envs gen' lease')"

section \<open>Identifiers\<close>

definition snowflake_id_range :: "int \<Rightarrow> int \<Rightarrow> int \<Rightarrow> bool" where
  "snowflake_id_range worker timestamp seq \<longleftrightarrow>
     0 \<le> worker \<and> worker \<le> MAX_WORKER_ID \<and> 0 \<le> timestamp \<and> timestamp \<le> MAX_TIMESTAMP \<and>
     0 \<le> seq \<and> seq \<le> MAX_SEQUENCE"

lemmas snowflake_consts = WORKER_BITS_def SEQUENCE_BITS_def MAX_WORKER_ID_def MAX_SEQUENCE_def MAX_TIMESTAMP_def

lemma or_low_bits:
  assumes "0 \<le> (b::int)" "b < 2 ^ n"
  shows "push_bit n a OR b = a * 2 ^ n + b"
proof -
  have "push_bit n a AND b = 0"
  proof (rule bit_eqI)
    fix k
    show "bit (push_bit n a AND b) k \<longleftrightarrow> bit 0 k"
    proof (cases "k < n")
      case False
      have "take_bit n b = b" using assms by (simp add: take_bit_int_eq_self)
      then have "\<not> bit b k" using False by (metis bit_take_bit_iff)
      then show ?thesis by (simp add: bit_and_iff)
    qed (simp add: bit_and_iff bit_push_bit_iff)
  qed
  then have "push_bit n a + b = push_bit n a OR b" by (rule disjunctive_add_eq_or)
  then show ?thesis by (simp add: push_bit_eq_mult)
qed

lemma snowflake_id_arith:
  assumes "snowflake_id_range w t s"
  shows "snowflake_id w t s = t * 2 ^ 22 + w * 2 ^ 12 + s"
proof -
  have r: "0 \<le> s" "s < 2 ^ 12" "0 \<le> w" "w < 2 ^ 10"
    using assms by (auto simp: snowflake_id_range_def snowflake_consts)
  have low: "push_bit 12 w OR s = w * 2 ^ 12 + s" using r(1,2) by (rule or_low_bits)
  have "push_bit 22 t OR (w * 2 ^ 12 + s) = t * 2 ^ 22 + (w * 2 ^ 12 + s)"
    using r by (intro or_low_bits) simp_all
  with low show ?thesis by (simp add: snowflake_id_def snowflake_consts or.assoc)
qed

lemma snowflake_id_inject:
  assumes "snowflake_id_range w t s" "snowflake_id_range w' t' s'" "snowflake_id w t s = snowflake_id w' t' s'"
  shows "w = w' \<and> t = t' \<and> s = s'"
proof -
  have eq: "t * 2 ^ 22 + w * 2 ^ 12 + s = t' * 2 ^ 22 + w' * 2 ^ 12 + s'"
    using assms by (simp add: snowflake_id_arith)
  have r: "0 \<le> w" "w < 1024" "0 \<le> w'" "w' < 1024" "0 \<le> s" "s < 4096" "0 \<le> s'" "s' < 4096"
    using assms(1,2) by (auto simp: snowflake_id_range_def snowflake_consts)
  from eq r have t: "t = t'" by simp
  with eq r have "w = w'" by simp
  with t eq show ?thesis by simp
qed

lemma snowflake_id_less:
  assumes "snowflake_id_range w t s" "snowflake_id_range w t' s'"
  shows "snowflake_id w t s < snowflake_id w t' s' \<longleftrightarrow> t < t' \<or> t = t' \<and> s < s'"
  using assms unfolding snowflake_id_arith [OF assms(1)] snowflake_id_arith [OF assms(2)]
  by (auto simp: snowflake_id_range_def snowflake_consts)

lemma snowflake_id_bounds:
  assumes "snowflake_id_range w t s"
  shows "0 \<le> snowflake_id w t s \<and> snowflake_id w t s < 2 ^ 63"
  using assms unfolding snowflake_id_arith [OF assms]
  by (auto simp: snowflake_id_range_def snowflake_consts)

section \<open>One mint\<close>

lemma lease_valid_cases:
  assumes "lease_valid now l = (b, l')"
  shows "worker_id l' = worker_id l \<and> (b \<longrightarrow> l' = l \<and> \<not> lost l) \<and> (\<not> b \<longrightarrow> lost l')"
  using assms by (auto simp: lease_valid_def split: if_splits option.splits)

lemma lease_valid_lost: "lost l \<Longrightarrow> lease_valid now l = (False, l)"
  by (simp add: lease_valid_def)

lemma assert_owned_worker: "assert_owned env l = (r, l') \<Longrightarrow> worker_id l' = worker_id l"
  by (auto simp: assert_owned_def Let_def split: prod.splits bool.splits eval_outcome.splits if_splits
      dest!: lease_valid_cases)

lemma assert_owned_failed:
  "assert_owned env l = (Inl e, l') \<Longrightarrow> oe_outcome env \<noteq> Cancelled \<Longrightarrow> lost l'"
  by (auto simp: assert_owned_def Let_def split: prod.splits bool.splits eval_outcome.splits if_splits
      dest!: lease_valid_cases)

lemma rollover_result:
  "rollover d t n polls l = Some (r, l') \<Longrightarrow> worker_id l' = worker_id l \<and>
   (\<forall>n'. r = Inr n' \<longrightarrow> t < n' \<and> (n' = n \<or> n' \<in> (\<lambda>(_, _, c). c) ` set polls))"
proof (induction polls arbitrary: n l)
  case Nil
  then show ?case by (auto simp: rollover.simps split: if_splits)
next
  case (Cons p polls)
  then show ?case
    by (cases p) (force simp: rollover.simps [of d t n] split: if_splits prod.splits bool.splits
        dest!: lease_valid_cases)
qed

definition clock_ok :: "int \<Rightarrow> bool" where
  "clock_ok c \<longleftrightarrow> c - EPOCH_MS \<le> MAX_TIMESTAMP"

text \<open>A call that is not cancelled while it confirms ownership and whose clock stays inside the 41-bit range.\<close>

definition env_ok :: "mint_env \<Rightarrow> bool" where
  "env_ok env \<longleftrightarrow> oe_outcome (me_ownership env) \<noteq> Cancelled \<and> clock_ok (me_clock env) \<and>
     clock_ok (me_clock_after_sleep env) \<and> list_all (\<lambda>(_, _, c). clock_ok c) (me_polls env)"

lemma commit_unfold:
  "commit_identifier env n g l =
     (if n < EPOCH_MS then (Inl (MintRuntimeError ''clock is before the Kaede epoch''), g, l)
      else if MAX_TIMESTAMP < n - EPOCH_MS
      then (Inl (MintRuntimeError ''snowflake timestamp exhausted the signed BIGINT range''), g, l)
      else case assert_owned (me_ownership env) l of
             (r, m) \<Rightarrow> (case r of Inl e \<Rightarrow> (Inl e, g, m)
                       | Inr _ \<Rightarrow> (Inr (snowflake_id (worker_id m) (n - EPOCH_MS) (sequence g)), g\<lparr>last_ms := n\<rparr>, m)))"
  by (simp add: commit_identifier_def Let_def split: prod.split sum.split)

lemma commit_success:
  assumes "commit_identifier env n g l = (Inr i, g', l')" "0 \<le> worker_id l" "worker_id l \<le> MAX_WORKER_ID"
    "0 \<le> sequence g" "sequence g \<le> MAX_SEQUENCE"
  shows "worker_id l' = worker_id l \<and> g' = g\<lparr>last_ms := n\<rparr> \<and>
    i = snowflake_id (worker_id l) (n - EPOCH_MS) (sequence g) \<and>
    snowflake_id_range (worker_id l) (n - EPOCH_MS) (sequence g)"
proof -
  obtain r m where rm: "assert_owned (me_ownership env) l = (r, m)" by fastforce
  from assms(1) have n: "\<not> n < EPOCH_MS" "\<not> MAX_TIMESTAMP < n - EPOCH_MS"
    by (simp_all add: commit_unfold split: if_splits)
  with assms(1) rm have "i = snowflake_id (worker_id m) (n - EPOCH_MS) (sequence g)" "g' = g\<lparr>last_ms := n\<rparr>" "l' = m"
    by (cases r; simp add: commit_unfold)+
  with n assms(2-) assert_owned_worker [OF rm] show ?thesis by (simp add: snowflake_id_range_def)
qed

lemma commit_failure:
  assumes "commit_identifier env n g l = (Inl e, g', l')" "oe_outcome (me_ownership env) \<noteq> Cancelled" "clock_ok n"
  shows "g' = g \<and> worker_id l' = worker_id l \<and> (lost l' \<or> n < EPOCH_MS)"
proof (cases "n < EPOCH_MS")
  case True
  with assms(1) show ?thesis by (simp add: commit_unfold)
next
  case False
  obtain r m where rm: "assert_owned (me_ownership env) l = (r, m)" by fastforce
  with False assms(1,3) have "r = Inl e" "g' = g" "l' = m"
    by (cases r; simp add: commit_unfold clock_ok_def)+
  with rm assms(2) show ?thesis by (auto dest: assert_owned_failed assert_owned_worker)
qed


definition mint_clocks :: "mint_env \<Rightarrow> int set" where
  "mint_clocks env = {me_clock env, me_clock_after_sleep env} \<union> (\<lambda>(_, _, c). c) ` set (me_polls env)"

lemma env_ok_clocks: "env_ok env \<Longrightarrow> n \<in> mint_clocks env \<Longrightarrow> clock_ok n"
  by (auto simp: env_ok_def mint_clocks_def list_all_iff)

text \<open>Every call either leaves the committed state alone or reaches the commit with a fresh time or the next
  sequence number.\<close>

lemma mint_cases:
  assumes "mint env g l = Some (r, g', l')"
  obtains
    (kept) e where "r = Inl e" "last_ms g' = last_ms g" "sequence g \<le> sequence g'" "worker_id l' = worker_id l"
  | (fresh) n l0 where "worker_id l0 = worker_id l" "last_ms g < n" "n \<in> mint_clocks env"
      "commit_identifier env n (g\<lparr>sequence := 0\<rparr>) l0 = (r, g', l')"
  | (next_seq) l0 where "worker_id l0 = worker_id l" "sequence g + 1 \<le> MAX_SEQUENCE"
      "commit_identifier env (last_ms g) (g\<lparr>sequence := sequence g + 1\<rparr>) l0 = (r, g', l')"
proof -
  obtain b l1 where v: "lease_valid (me_entry env) l = (b, l1)" by fastforce
  note w = lease_valid_cases [OF v]
  define now where "now = (if me_clock env < last_ms g then max (me_clock_after_sleep env) (last_ms g) else me_clock env)"
  define reg where "reg \<longleftrightarrow> me_clock env < last_ms g \<and> 5000 < last_ms g - me_clock env"
  note folds = now_def [symmetric] reg_def [symmetric]
  consider "\<not> b" | "b" "reg"
    | "b" "\<not> reg" "now \<noteq> last_ms g"
    | "b" "\<not> reg" "now = last_ms g" "\<not> MAX_SEQUENCE < sequence g + 1"
    | "b" "\<not> reg" "now = last_ms g" "MAX_SEQUENCE < sequence g + 1"
    by blast
  then show thesis
  proof cases
    case 1
    with assms v w show thesis by (intro kept) (auto simp: mint_def)
  next
    case 2
    with assms v w show thesis by (intro kept) (auto simp: mint_def folds)
  next
    case 3
    then have "last_ms g < now" "now \<in> mint_clocks env"
      by (auto simp: now_def mint_clocks_def max_def split: if_splits)
    moreover from 3 assms v have "commit_identifier env now (g\<lparr>sequence := 0\<rparr>) l1 = (r, g', l')"
      by (simp add: mint_def Let_def folds)
    ultimately show thesis using w by (intro fresh) simp_all
  next
    case 4
    with assms v have "commit_identifier env (last_ms g) (g\<lparr>sequence := sequence g + 1\<rparr>) l1 = (r, g', l')"
      by (simp add: mint_def Let_def folds)
    with 4 w show thesis by (intro next_seq) simp_all
  next
    case 5
    with assms v obtain x l2 where ro: "rollover (me_rollover_start env + 5) (last_ms g) (last_ms g) (me_polls env) l1 = Some (x, l2)"
      by (auto simp: mint_def Let_def folds split: option.splits)
    note rr = rollover_result [OF ro]
    show thesis
    proof (cases x)
      case (Inl e)
      with 5 assms v ro rr w show thesis
        by (intro kept) (auto simp: mint_def Let_def folds)
    next
      case (Inr n)
      with 5 assms v ro have "commit_identifier env n (g\<lparr>sequence := 0\<rparr>) l2 = (r, g', l')"
        by (simp add: mint_def Let_def folds)
      moreover from Inr rr have "last_ms g < n" "n \<in> mint_clocks env" by (auto simp: mint_clocks_def)
      ultimately show thesis using rr w by (intro fresh) simp_all
    qed
  qed
qed

definition gen_ok :: "generator \<Rightarrow> bool" where
  "gen_ok g \<longleftrightarrow> 0 \<le> sequence g \<and> (last_ms g = -1 \<or> EPOCH_MS \<le> last_ms g) \<and> clock_ok (last_ms g)"

text \<open>The position of the generator: emitted positions only grow.\<close>

definition before :: "generator \<Rightarrow> int \<times> int \<Rightarrow> bool" where
  "before g p \<longleftrightarrow> last_ms g < fst p \<or> last_ms g = fst p \<and> sequence g < snd p"

definition worker_ok :: "WorkerLease \<Rightarrow> bool" where
  "worker_ok l \<longleftrightarrow> 0 \<le> worker_id l \<and> worker_id l \<le> MAX_WORKER_ID"

lemma EPOCH_MS_pos: "- 1 < EPOCH_MS"
  by (simp add: EPOCH_MS_def)

lemma mint_success:
  assumes m: "mint env g l = Some (Inr i, g', l')" and ok: "env_ok env" "gen_ok g" "worker_ok l"
  shows "gen_ok g' \<and> worker_id l' = worker_id l \<and> before g (last_ms g', sequence g') \<and>
    i = snowflake_id (worker_id l) (last_ms g' - EPOCH_MS) (sequence g') \<and>
    snowflake_id_range (worker_id l) (last_ms g' - EPOCH_MS) (sequence g')"
  using m
proof (cases rule: mint_cases)
  case (fresh n l0)
  with ok have "worker_id l' = worker_id l0 \<and> g' = g\<lparr>sequence := 0, last_ms := n\<rparr> \<and>
      i = snowflake_id (worker_id l) (n - EPOCH_MS) 0 \<and> snowflake_id_range (worker_id l) (n - EPOCH_MS) 0"
    using commit_success [OF fresh(4)] by (simp add: worker_ok_def MAX_SEQUENCE_def SEQUENCE_BITS_def)
  with fresh ok show ?thesis
    by (auto simp: gen_ok_def before_def env_ok_clocks snowflake_id_range_def)
next
  case (next_seq l0)
  with ok have "worker_id l' = worker_id l0 \<and> g' = g\<lparr>sequence := sequence g + 1, last_ms := last_ms g\<rparr> \<and>
      i = snowflake_id (worker_id l) (last_ms g - EPOCH_MS) (sequence g + 1) \<and>
      snowflake_id_range (worker_id l) (last_ms g - EPOCH_MS) (sequence g + 1)"
    using commit_success [OF next_seq(3)] by (simp add: worker_ok_def gen_ok_def)
  with next_seq ok show ?thesis by (auto simp: gen_ok_def before_def)
qed simp

lemma mint_failure:
  assumes m: "mint env g l = Some (Inl e, g', l')" and ok: "env_ok env" "gen_ok g"
  shows "lost l' \<or> gen_ok g' \<and> worker_id l' = worker_id l \<and>
    (\<forall>p. before g' p \<longrightarrow> EPOCH_MS \<le> last_ms g \<longrightarrow> before g p)"
  using m
proof (cases rule: mint_cases)
  case (kept e)
  with ok show ?thesis by (auto simp: gen_ok_def before_def)
next
  case (fresh n l0)
  from fresh(3) ok have "clock_ok n" "oe_outcome (me_ownership env) \<noteq> Cancelled"
    by (auto simp: env_ok_def intro: env_ok_clocks)
  with commit_failure [OF fresh(4)] have c: "g' = g\<lparr>sequence := 0\<rparr>" "worker_id l' = worker_id l0"
    "lost l' \<or> n < EPOCH_MS" by auto
  with fresh ok show ?thesis by (auto simp: gen_ok_def before_def)
next
  case (next_seq l0)
  from ok have "clock_ok (last_ms g)" "oe_outcome (me_ownership env) \<noteq> Cancelled"
    by (auto simp: env_ok_def gen_ok_def)
  with commit_failure [OF next_seq(3)] have c: "g' = g\<lparr>sequence := sequence g + 1\<rparr>" "worker_id l' = worker_id l0"
    "lost l' \<or> last_ms g < EPOCH_MS" by auto
  with next_seq ok show ?thesis by (auto simp: gen_ok_def before_def)
qed

lemma mint_lost: "lost l \<Longrightarrow> mint env g l = Some (Inl (MintRuntimeError ''snowflake worker lease was lost''), g, l)"
  by (simp add: mint_def lease_valid_lost)

lemma mint_all_lost: "lost l \<Longrightarrow> mint_all envs g l = []"
  by (induction envs) (simp_all add: mint_lost)

definition emitted_position :: "int \<Rightarrow> int \<times> int \<Rightarrow> int" where
  "emitted_position w p = snowflake_id w (fst p - EPOCH_MS) (snd p)"

lemma mint_all_positions:
  assumes "list_all env_ok envs" "gen_ok g" "worker_ok l"
  shows "\<exists>ps. mint_all envs g l = map (emitted_position (worker_id l)) ps \<and>
    list_all (\<lambda>p. snowflake_id_range (worker_id l) (fst p - EPOCH_MS) (snd p)) ps \<and>
    (EPOCH_MS \<le> last_ms g \<longrightarrow> list_all (before g) ps) \<and>
    sorted_wrt (\<lambda>p q. fst p < fst q \<or> fst p = fst q \<and> snd p < snd q) ps"
  using assms
proof (induction envs arbitrary: g l)
  case Nil
  then show ?case by simp
next
  case (Cons env envs)
  from Cons.prems have ok: "env_ok env" "list_all env_ok envs" by auto
  show ?case
  proof (cases "mint env g l")
    case None
    then show ?thesis by simp
  next
    case (Some out)
    obtain r g' l' where out: "out = (r, g', l')" by (cases out) auto
    show ?thesis
    proof (cases r)
      case (Inl e)
      with Some out have m: "mint env g l = Some (Inl e, g', l')" by simp
      show ?thesis
      proof (cases "lost l'")
        case True
        with m show ?thesis by (simp add: mint_all_lost)
      next
        case False
        with mint_failure [OF m ok(1) Cons.prems(2)] have g': "gen_ok g'" "worker_id l' = worker_id l"
          "\<forall>p. before g' p \<longrightarrow> EPOCH_MS \<le> last_ms g \<longrightarrow> before g p" by auto
        then have "worker_ok l'" using Cons.prems(3) by (simp add: worker_ok_def)
        from Cons.IH [OF ok(2) g'(1) this] obtain ps where
          ps: "mint_all envs g' l' = map (emitted_position (worker_id l)) ps"
            "list_all (\<lambda>p. snowflake_id_range (worker_id l) (fst p - EPOCH_MS) (snd p)) ps"
            "EPOCH_MS \<le> last_ms g' \<longrightarrow> list_all (before g') ps"
            "sorted_wrt (\<lambda>p q. fst p < fst q \<or> fst p = fst q \<and> snd p < snd q) ps"
          unfolding g'(2) by blast
        have "last_ms g' = last_ms g"
          using m by (cases rule: mint_cases) (auto simp: commit_unfold split: if_splits prod.splits sum.splits)
        with ps g'(3) m show ?thesis by (intro exI [of _ ps]) (auto simp: list_all_iff)
      qed
    next
      case (Inr i)
      with Some out have m: "mint env g l = Some (Inr i, g', l')" by simp
      note s = mint_success [OF m ok(1) Cons.prems(2,3)]
      then have "gen_ok g'" "worker_ok l'" using Cons.prems(3) by (auto simp: worker_ok_def)
      from Cons.IH [OF ok(2) this] s obtain ps where
        ps: "mint_all envs g' l' = map (emitted_position (worker_id l)) ps"
          "list_all (\<lambda>p. snowflake_id_range (worker_id l) (fst p - EPOCH_MS) (snd p)) ps"
          "EPOCH_MS \<le> last_ms g' \<longrightarrow> list_all (before g') ps"
          "sorted_wrt (\<lambda>p q. fst p < fst q \<or> fst p = fst q \<and> snd p < snd q) ps"
        by auto
      from s have "EPOCH_MS \<le> last_ms g'" by (simp add: snowflake_id_range_def)
      with ps s m show ?thesis
        by (intro exI [of _ "(last_ms g', sequence g') # ps"])
           (auto simp: emitted_position_def list_all_iff before_def)
    qed
  qed
qed

section \<open>The lease protocol\<close>

text \<open>
  One worker key of the store, shared by any number of claimants. The store entry carries its value and
  its expiry; the two scripts run atomically at the store's current time.
\<close>

datatype 'o lease_value = Quarantine 'o | Active 'o

type_synonym 'o lease_entry = "('o lease_value \<times> rat) option"

definition set_nx :: "'o lease_value \<Rightarrow> rat \<Rightarrow> rat \<Rightarrow> 'o lease_entry \<Rightarrow> bool \<times> 'o lease_entry" where
  "set_nx v ex t e = (case e of None \<Rightarrow> (True, Some (v, t + ex)) | Some _ \<Rightarrow> (False, e))"

definition ACTIVATE_SCRIPT ::
  "'o lease_value \<Rightarrow> 'o lease_value \<Rightarrow> rat \<Rightarrow> rat \<Rightarrow> 'o lease_entry \<Rightarrow> int \<times> 'o lease_entry" where
  "ACTIVATE_SCRIPT expected new ex t e =
     (case e of
        Some (v, _) \<Rightarrow> if v = expected then (1, Some (new, t + ex)) else (0, e)
      | None \<Rightarrow> (0, e))"

definition RENEW_SCRIPT :: "'o lease_value \<Rightarrow> rat \<Rightarrow> rat \<Rightarrow> 'o lease_entry \<Rightarrow> int \<times> 'o lease_entry" where
  "RENEW_SCRIPT expected ex t e =
     (case e of
        Some (v, _) \<Rightarrow> if v = expected then (1, Some (v, t + ex)) else (0, e)
      | None \<Rightarrow> (0, e))"

record 'o protocol =
  now :: rat
  entry :: "'o lease_entry"
  sleeping_until :: "'o \<rightharpoonup> rat"
  local_deadline :: "'o \<rightharpoonup> rat"

definition initial_protocol :: "rat \<Rightarrow> 'o protocol" where
  "initial_protocol t = \<lparr>now = t, entry = None, sleeping_until = Map.empty, local_deadline = Map.empty\<rparr>"

definition expire :: "rat \<Rightarrow> 'o lease_entry \<Rightarrow> 'o lease_entry" where
  "expire t e = (case e of Some (_, expiry) \<Rightarrow> if expiry \<le> t then None else e | None \<Rightarrow> None)"

text \<open>
  The steps: time passes; the store is flushed; a claimant's \<open>SET NX\<close> succeeds and it sleeps one
  lease; after the sleep its activation runs, its reply in time or too late; an owner's guarded
  renewal is confirmed or fails.
\<close>

inductive lease_step :: "rat \<Rightarrow> 'o protocol \<Rightarrow> 'o protocol \<Rightarrow> bool" for ttl :: rat where
  tick: "now s \<le> t \<Longrightarrow> lease_step ttl s (s\<lparr>now := t, entry := expire t (entry s)\<rparr>)"
| flush: "lease_step ttl s (s\<lparr>entry := None\<rparr>)"
| claim: "local_deadline s p = None \<Longrightarrow> set_nx (Quarantine p) (ttl * 3) (now s) (entry s) = (True, e) \<Longrightarrow>
    lease_step ttl s (s\<lparr>entry := e, sleeping_until := (sleeping_until s)(p \<mapsto> now s + ttl)\<rparr>)"
| activate: "sleeping_until s p = Some w \<Longrightarrow> w \<le> requested \<Longrightarrow> requested \<le> now s \<Longrightarrow>
    ACTIVATE_SCRIPT (Quarantine p) (Active p) ttl (now s) (entry s) = (1, e) \<Longrightarrow>
    lease_step ttl s (s\<lparr>entry := e, sleeping_until := (sleeping_until s)(p := None),
                        local_deadline := (local_deadline s)(p \<mapsto> requested + ttl)\<rparr>)"
| activate_late: "sleeping_until s p = Some w \<Longrightarrow> w \<le> now s \<Longrightarrow>
    ACTIVATE_SCRIPT (Quarantine p) (Active p) ttl (now s) (entry s) = (1, e) \<Longrightarrow>
    lease_step ttl s (s\<lparr>entry := e, sleeping_until := (sleeping_until s)(p := None)\<rparr>)"
| renew: "local_deadline s p = Some v \<Longrightarrow> requested \<le> now s \<Longrightarrow>
    RENEW_SCRIPT (Active p) ttl (now s) (entry s) = (1, e) \<Longrightarrow>
    lease_step ttl s (s\<lparr>entry := e, local_deadline := (local_deadline s)(p \<mapsto> requested + ttl)\<rparr>)"
| lose: "lease_step ttl s (s\<lparr>local_deadline := (local_deadline s)(p := None)\<rparr>)"

inductive lease_reachable :: "rat \<Rightarrow> 'o protocol \<Rightarrow> bool" for ttl :: rat where
  start: "lease_reachable ttl (initial_protocol t)"
| step: "lease_reachable ttl s \<Longrightarrow> lease_step ttl s s' \<Longrightarrow> lease_reachable ttl s'"

definition holds_lease :: "'o protocol \<Rightarrow> 'o \<Rightarrow> bool" where
  "holds_lease s p \<longleftrightarrow> (case local_deadline s p of None \<Rightarrow> False | Some v \<Rightarrow> now s < v)"

definition lease_inv :: "rat \<Rightarrow> 'o protocol \<Rightarrow> bool" where
  "lease_inv ttl s \<longleftrightarrow>
     (\<forall>p v. local_deadline s p = Some v \<longrightarrow> v \<le> now s + ttl) \<and>
     (\<forall>p e q v. entry s = Some (Active p, e) \<longrightarrow> local_deadline s q = Some v \<longrightarrow> q \<noteq> p \<longrightarrow> v \<le> now s) \<and>
     (\<forall>q e w p v. entry s = Some (Quarantine q, e) \<longrightarrow> sleeping_until s q = Some w \<longrightarrow>
        local_deadline s p = Some v \<longrightarrow> v \<le> w) \<and>
     (\<forall>p q v w. p \<noteq> q \<longrightarrow> local_deadline s p = Some v \<longrightarrow> local_deadline s q = Some w \<longrightarrow>
        v \<le> now s \<or> w \<le> now s)"

lemma lease_inv_init: "lease_inv ttl (initial_protocol t)"
  by (simp add: lease_inv_def initial_protocol_def)

lemma expire_Some: "expire t e = Some x \<Longrightarrow> e = Some x"
  by (auto simp: expire_def split: option.splits prod.splits if_splits)

lemma set_nx_True: "set_nx v ex t e = (True, e') \<longleftrightarrow> e = None \<and> e' = Some (v, t + ex)"
  by (auto simp: set_nx_def split: option.splits)

lemma ACTIVATE_confirmed:
  "ACTIVATE_SCRIPT v n ex t e = (1, e') \<longleftrightarrow> (\<exists>x. e = Some (v, x)) \<and> e' = Some (n, t + ex)"
  by (auto simp: ACTIVATE_SCRIPT_def split: option.splits prod.splits if_splits)

lemma RENEW_confirmed:
  "RENEW_SCRIPT v ex t e = (1, e') \<longleftrightarrow> (\<exists>x. e = Some (v, x)) \<and> e' = Some (v, t + ex)"
  by (auto simp: RENEW_SCRIPT_def split: option.splits prod.splits if_splits)

lemma lease_step_inv: "lease_step ttl s s' \<Longrightarrow> lease_inv ttl s \<Longrightarrow> lease_inv ttl s'"
proof (induction rule: lease_step.induct)
  case (tick s t)
  then show ?case by (fastforce simp: lease_inv_def dest!: expire_Some)
next
  case (flush s)
  then show ?case by (auto simp: lease_inv_def)
next
  case (claim s p e)
  then show ?case by (auto simp: lease_inv_def set_nx_True)
next
  case (activate s p w requested e)
  then have others: "\<forall>q v. local_deadline s q = Some v \<longrightarrow> v \<le> now s"
    by (fastforce simp: lease_inv_def ACTIVATE_confirmed)
  from activate show ?case
    unfolding lease_inv_def ACTIVATE_confirmed using others by (auto split: if_splits)
next
  case (activate_late s p w e)
  then have others: "\<forall>q v. local_deadline s q = Some v \<longrightarrow> v \<le> now s"
    by (fastforce simp: lease_inv_def ACTIVATE_confirmed)
  from activate_late show ?case
    unfolding lease_inv_def ACTIVATE_confirmed using others by (auto split: if_splits)
next
  case (renew s p v requested e)
  then have others: "\<forall>q v. local_deadline s q = Some v \<longrightarrow> q \<noteq> p \<longrightarrow> v \<le> now s"
    by (auto simp: lease_inv_def RENEW_confirmed)
  from renew show ?case
    unfolding lease_inv_def RENEW_confirmed using others by (auto split: if_splits)
next
  case (lose s p)
  then show ?case by (auto simp: lease_inv_def split: if_splits)
qed

lemma lease_reachable_inv: "lease_reachable ttl s \<Longrightarrow> lease_inv ttl s"
  by (induction rule: lease_reachable.induct) (auto intro: lease_inv_init lease_step_inv)

lemma rollover_returns:
  "(\<exists>(tv, td, c) \<in> set polls. deadline \<le> td) \<Longrightarrow> rollover deadline t n polls l \<noteq> None"
proof (induction polls arbitrary: n l)
  case (Cons p polls)
  then show ?case
    by (cases p) (fastforce simp: rollover.simps [of deadline t n] split: prod.splits bool.splits)
qed simp

text \<open>A candidate is usable when its claim and its activation are confirmed in time.\<close>

definition usable :: "int \<Rightarrow> acquire_env \<Rightarrow> bool" where
  "usable ttl e \<longleftrightarrow> ae_acquired e \<and> ae_activated e = 1 \<and> ae_checked_at e < ae_requested_at e + of_int ttl"

lemma acquire_loop_find:
  assumes "0 < ttl" "own \<noteq> []" "\<forall>w \<in> set ws. 0 \<le> w \<and> w \<le> MAX_WORKER_ID"
  shows "acquire_loop ttl own env ws =
    (case find (\<lambda>w. usable ttl (env w)) ws of
       None \<Rightarrow> Inl (RuntimeError ''all snowflake worker IDs are leased'')
     | Some w \<Rightarrow> Inr \<lparr>worker_id = w, owner = own, valid_until = Some (ae_requested_at (env w) + of_int ttl),
                      lease_ttl_seconds = ttl, lost = False\<rparr>)"
  using assms
  by (induction ws) (auto simp: usable_def WorkerLease_post_init_def Let_def not_le)

section \<open>Properties\<close>

text \<open>C15: Every identifier a generator returns over any sequence of calls is greater than all it returned before,
  and lies in the non-negative range of a signed BIGINT. The calls may fail, meet clock regressions,
  exhaust the per-millisecond sequence or lose the lease in any order; they must not be cancelled
  inside the ownership confirmation, and the clock must stay below the 41-bit limit.\<close>

theorem mint_strictly_increasing:
  assumes "list_all env_ok envs" and "worker_ok lease"
  shows "sorted_wrt (<) (mint_all envs new_generator lease) \<and>
    (\<forall>i \<in> set (mint_all envs new_generator lease). 0 \<le> i \<and> i < 2 ^ 63)"
proof -
  let ?w = "worker_id lease"
  have "gen_ok new_generator"
    by (simp add: gen_ok_def new_generator_def clock_ok_def snowflake_consts EPOCH_MS_def)
  from mint_all_positions [OF assms(1) this assms(2)] obtain ps where
    ps: "mint_all envs new_generator lease = map (emitted_position ?w) ps"
    "\<forall>p \<in> set ps. snowflake_id_range ?w (fst p - EPOCH_MS) (snd p)"
    "sorted_wrt (\<lambda>p q. fst p < fst q \<or> fst p = fst q \<and> snd p < snd q) ps"
    unfolding list_all_iff by blast
  have "sorted_wrt (\<lambda>p q. emitted_position ?w p < emitted_position ?w q) ps"
    using ps(3) by (rule sorted_wrt_mono_rel [rotated])
      (use ps(2) in \<open>auto simp: emitted_position_def snowflake_id_less\<close>)
  moreover have "0 \<le> emitted_position ?w p \<and> emitted_position ?w p < 2 ^ 63" if "p \<in> set ps" for p
    unfolding emitted_position_def using ps(2) that by (intro snowflake_id_bounds) blast
  ultimately show ?thesis unfolding ps(1) sorted_wrt_map by auto
qed

text \<open>A call at clock reading \<open>c\<close> whose ownership confirmation ends with \<open>out\<close>, all within one second.\<close>

definition simple_env :: "int \<Rightarrow> eval_outcome \<Rightarrow> mint_env" where
  "simple_env c out = \<lparr>me_entry = 0, me_clock = c, me_clock_after_sleep = c, me_rollover_start = 0,
     me_polls = [], me_ownership = \<lparr>oe_entry = 0, oe_locked = 0, oe_requested_at = 0, oe_outcome = out,
       oe_replied_at = 1\<rparr>\<rparr>"

definition simple_lease :: WorkerLease where
  "simple_lease = \<lparr>worker_id = 3, owner = ''a'', valid_until = Some 60, lease_ttl_seconds = 60, lost = False\<rparr>"

lemmas mint_eval = simple_env_def simple_lease_def new_generator_def mint_def lease_valid_def assert_owned_def
  commit_identifier_def snowflake_id_def snowflake_consts EPOCH_MS_def Let_def

theorem mint_strictly_increasing_witness:
  "mint_all [simple_env EPOCH_MS (Reply 1), simple_env EPOCH_MS (Reply 1)] new_generator simple_lease
     = [12288, 12289] \<and>
   sorted_wrt (<) (mint_all [simple_env EPOCH_MS (Reply 1), simple_env EPOCH_MS (Reply 1)] new_generator simple_lease)"
proof -
  have "list_all env_ok [simple_env EPOCH_MS (Reply 1), simple_env EPOCH_MS (Reply 1)]" "worker_ok simple_lease"
    by (simp_all add: env_ok_def clock_ok_def worker_ok_def simple_env_def simple_lease_def snowflake_consts)
  from mint_strictly_increasing [OF this] show ?thesis by (simp add: mint_eval)
qed

text \<open>Generators of different workers never return the same identifier.\<close>

theorem mint_workers_disjoint:
  assumes "list_all env_ok envs" "list_all env_ok envs'" "worker_ok lease" "worker_ok lease'"
    and "worker_id lease \<noteq> worker_id lease'"
  shows "set (mint_all envs new_generator lease) \<inter> set (mint_all envs' new_generator lease') = {}"
proof -
  have "gen_ok new_generator"
    by (simp add: gen_ok_def new_generator_def clock_ok_def snowflake_consts EPOCH_MS_def)
  note pos = mint_all_positions [OF _ this]
  have "False" if "i \<in> set (mint_all envs new_generator lease)" "i \<in> set (mint_all envs' new_generator lease')" for i
    using pos [OF assms(1,3)] pos [OF assms(2,4)] that assms(5)
    by (fastforce simp: emitted_position_def list_all_iff dest: snowflake_id_inject)
  then show ?thesis by blast
qed

theorem mint_workers_disjoint_witness:
  "set (mint_all [simple_env EPOCH_MS (Reply 1)] new_generator simple_lease) \<inter>
   set (mint_all [simple_env EPOCH_MS (Reply 1)] new_generator (simple_lease\<lparr>worker_id := 4\<rparr>)) = {}"
  by (rule mint_workers_disjoint)
     (simp_all add: env_ok_def clock_ok_def worker_ok_def simple_env_def simple_lease_def snowflake_consts)

text \<open>A sequence rollover waits at most until its five-second deadline: as soon as one poll reads a
  monotonic time at or past the deadline, the call has returned, whatever the clock does.\<close>

theorem mint_rollover_returns:
  assumes "\<exists>(tv, td, c) \<in> set (me_polls env). me_rollover_start env + 5 \<le> td"
  shows "\<exists>out. mint env gen lease = Some out"
proof (cases "mint env gen lease")
  case None
  then obtain t n l where "rollover (me_rollover_start env + 5) t n (me_polls env) l = None"
    by (auto simp: mint_def Let_def split: prod.splits bool.splits if_splits option.splits sum.splits)
  moreover have "rollover (me_rollover_start env + 5) t n (me_polls env) l \<noteq> None"
    using assms by (rule rollover_returns)
  ultimately show ?thesis by simp
qed auto

theorem mint_rollover_returns_witness:
  "\<exists>out. mint ((simple_env EPOCH_MS (Reply 1))\<lparr>me_polls := [(1, 5, EPOCH_MS)]\<rparr>)
     \<lparr>last_ms = EPOCH_MS, sequence = MAX_SEQUENCE\<rparr> simple_lease = Some out"
  by (rule mint_rollover_returns) (simp add: simple_env_def)










text \<open>Acquisition returns a lease on the first worker whose claim and activation are confirmed before the lease
  could expire again; the lease is valid when it is returned and its worker fits ten bits. It raises
  exactly when no worker qualifies.\<close>

theorem acquire_first_usable:
  assumes "0 < ttl" "own \<noteq> []"
  shows "(\<forall>lease. acquire ttl own env = Inr lease \<longrightarrow>
      worker_ok lease \<and> usable ttl (env (worker_id lease)) \<and>
      (\<forall>w. 0 \<le> w \<longrightarrow> w < worker_id lease \<longrightarrow> \<not> usable ttl (env w)) \<and>
      fst (lease_valid (ae_checked_at (env (worker_id lease))) lease)) \<and>
    (acquire ttl own env = Inl (RuntimeError ''all snowflake worker IDs are leased'') \<longleftrightarrow>
      (\<forall>w. 0 \<le> w \<longrightarrow> w \<le> MAX_WORKER_ID \<longrightarrow> \<not> usable ttl (env w)))"
proof -
  have eq: "acquire ttl own env =
    (case find (\<lambda>w. usable ttl (env w)) [0..MAX_WORKER_ID] of
       None \<Rightarrow> Inl (RuntimeError ''all snowflake worker IDs are leased'')
     | Some w \<Rightarrow> Inr \<lparr>worker_id = w, owner = own, valid_until = Some (ae_requested_at (env w) + of_int ttl),
                      lease_ttl_seconds = ttl, lost = False\<rparr>)"
    using assms by (simp add: acquire_def acquire_loop_find)
  show ?thesis
  proof (cases "find (\<lambda>w. usable ttl (env w)) [0..MAX_WORKER_ID]")
    case None
    then have "acquire ttl own env = Inl (RuntimeError ''all snowflake worker IDs are leased'')"
      by (simp add: eq)
    with None show ?thesis by (auto simp: find_None_iff)
  next
    case (Some w)
    then obtain i where i: "i < length [0..MAX_WORKER_ID]" "usable ttl (env w)" "w = [0..MAX_WORKER_ID] ! i"
      "\<forall>j < i. \<not> usable ttl (env ([0..MAX_WORKER_ID] ! j))"
      by (auto simp: find_Some_iff)
    then have w: "w = int i" "0 \<le> w" "w \<le> MAX_WORKER_ID" by (auto simp: nth_upto)
    have "\<not> usable ttl (env v)" if "0 \<le> v" "v < w" for v
      using i(4) [rule_format, of "nat v"] that w by (auto simp: nth_upto)
    moreover from Some have "acquire ttl own env = Inr \<lparr>worker_id = w, owner = own,
        valid_until = Some (ae_requested_at (env w) + of_int ttl), lease_ttl_seconds = ttl, lost = False\<rparr>"
      by (simp add: eq)
    moreover from i(2) have "ae_checked_at (env w) < ae_requested_at (env w) + of_int ttl"
      by (simp add: usable_def)
    ultimately show ?thesis using i(2) w(2,3) by (auto simp: worker_ok_def lease_valid_def)
  qed
qed

theorem acquire_first_usable_witness:
  "\<exists>lease. acquire 60 ''a'' (\<lambda>w. \<lparr>ae_acquired = (w = 1), ae_requested_at = 60, ae_activated = 1, ae_checked_at = 61\<rparr>)
     = Inr lease \<and> worker_id lease = 1"
proof -
  let ?env = "\<lambda>w. \<lparr>ae_acquired = (w = 1), ae_requested_at = 60, ae_activated = 1, ae_checked_at = 61\<rparr>"
  have ttl: "0 < (60::int)" and own: "''a'' \<noteq> []" by simp_all
  note a = acquire_first_usable [OF ttl own, of ?env]
  have "usable 60 (?env 1)" "1 \<le> MAX_WORKER_ID" by (simp_all add: usable_def snowflake_consts)
  then have "acquire 60 ''a'' ?env \<noteq> Inl (RuntimeError ''all snowflake worker IDs are leased'')"
    using a [THEN conjunct2] zero_le_one by blast
  then obtain lease where l: "acquire 60 ''a'' ?env = Inr lease"
    by (auto simp: acquire_def acquire_loop_find split: option.splits)
  with a have "usable 60 (?env (worker_id lease))" by blast
  with l show ?thesis by (auto simp: usable_def)
qed

text \<open>C16: At no reachable state of the lease protocol do two processes hold a valid lease of the same worker,
  even when the store is flushed while an owner still trusts its local deadline.\<close>

theorem lease_exclusive:
  assumes "lease_reachable ttl s" "holds_lease s p" "holds_lease s q"
  shows "p = q"
  using lease_reachable_inv [OF assms(1)] assms(2,3)
  by (fastforce simp: lease_inv_def holds_lease_def split: option.splits)

theorem lease_exclusive_witness:
  "\<exists>s :: nat protocol. lease_reachable 60 s \<and> holds_lease s 1 \<and> (\<forall>q. holds_lease s q \<longrightarrow> q = 1)"
proof -
  let ?s0 = "initial_protocol 0 :: nat protocol"
  let ?s1 = "?s0\<lparr>entry := Some (Quarantine 1, 180), sleeping_until := [1 \<mapsto> 60]\<rparr>"
  let ?s2 = "?s1\<lparr>now := 60, entry := expire 60 (entry ?s1)\<rparr>"
  let ?s3 = "?s2\<lparr>entry := Some (Active 1, 120), sleeping_until := (sleeping_until ?s2)(1 := None),
    local_deadline := (local_deadline ?s2)(1 \<mapsto> 60 + 60)\<rparr>"
  have "lease_step 60 ?s0 ?s1"
    using lease_step.claim [of ?s0 1 60 "Some (Quarantine 1, 180)"]
    by (simp add: initial_protocol_def set_nx_def)
  moreover have "lease_step 60 ?s1 ?s2" by (rule lease_step.tick) (simp add: initial_protocol_def)
  moreover have "lease_step 60 ?s2 ?s3"
    by (rule lease_step.activate [where w = 60])
       (simp_all add: initial_protocol_def expire_def ACTIVATE_SCRIPT_def)
  ultimately have r: "lease_reachable 60 ?s3"
    by (meson lease_reachable.start lease_reachable.step)
  have h: "holds_lease ?s3 1" by (simp add: holds_lease_def)
  with r lease_exclusive [OF r _ h] show ?thesis by blast
qed

end
