(* ===== verification/Rate_Limits.thy ===== *)
theory Rate_Limits
  imports Kaede_Prelude
begin

text \<open>
  Client rate limiting (\<open>core/rate_limits.py\<close>): the limit table, the token bucket that the store runs as an
  atomic script over integer milli-tokens, and the wrapper that turns its reply into response headers
  or a 429. The bucket is characterised by the classical token-bucket bound, by the exactness of the
  advertised retry delay, and by the invisibility of key expiry.
\<close>

section \<open>Limits\<close>

record ClientRateLimit =
  bucket :: string
  limit :: int
  period_seconds :: int

definition ClientRateLimit_post_init :: "ClientRateLimit \<Rightarrow> ClientRateLimit result" where
  "ClientRateLimit_post_init l =
     (if bucket l = [] \<or> limit l < 1 \<or> period_seconds l < 1
      then Inl (ValueError ''client rate limits require a name and positive bounds'') else Inr l)"

definition rate_limit :: "string \<Rightarrow> int \<Rightarrow> int \<Rightarrow> ClientRateLimit" where
  "rate_limit b l p = \<lparr>bucket = b, limit = l, period_seconds = p\<rparr>"

definition CLIENT_RATE_LIMITS :: "(string \<times> ClientRateLimit) list" where
  "CLIENT_RATE_LIMITS =
     [(''message_send'', rate_limit ''message-send'' 5 5),
      (''typing'', rate_limit ''typing'' 2 10),
      (''dm_open'', rate_limit ''dm-open'' 5 60),
      (''dm_group_create'', rate_limit ''dm-group-create'' 5 60),
      (''dm_group_mutate'', rate_limit ''dm-group-mutate'' 20 60),
      (''friend_request'', rate_limit ''friend-request'' 10 60),
      (''reaction'', rate_limit ''reaction'' 10 10),
      (''invite_create'', rate_limit ''invite-create'' 5 60),
      (''invite_accept'', rate_limit ''invite-accept'' 10 60),
      (''invite_preview'', rate_limit ''invite-preview'' 10 60),
      (''invite_preview_destination'', rate_limit ''invite-preview-destination'' 20 60),
      (''invite_preview_global'', rate_limit ''invite-preview-global'' 120 60),
      (''guild_create'', rate_limit ''guild-create'' 2 3600),
      (''upload_ticket'', rate_limit ''upload-ticket'' 10 60),
      (''remote_media_fetch'', rate_limit ''remote-media-fetch'' 10 60),
      (''gif_search'', rate_limit ''gif-search'' 30 60),
      (''link_preview'', rate_limit ''link-preview'' 30 60),
      (''link_preview_media'', rate_limit ''link-preview-media'' 120 60),
      (''self_moderation_status'', rate_limit ''self-moderation-status'' 120 60),
      (''message_search'', rate_limit ''message-search'' 60 60)]"

section \<open>The bucket script\<close>

text \<open>The hash of one key: milli-tokens and the time of the last call, with the expiry the script sets.\<close>

record bucket_state =
  tokens :: int
  updated_ms :: int
  expires_ms :: int

definition ceil_div :: "int \<Rightarrow> int \<Rightarrow> int" where
  "ceil_div a b = - ((- a) div b)"

record bucket_reply =
  allowed :: int
  remaining :: int
  retry_ms :: int
  reset_ms :: int

text \<open>An expired key is absent when the script reads it.\<close>

definition live_bucket :: "int \<Rightarrow> bucket_state option \<Rightarrow> bucket_state option" where
  "live_bucket now_ms b = (case b of Some s \<Rightarrow> if expires_ms s \<le> now_ms then None else b | None \<Rightarrow> None)"

definition CLIENT_BUCKET_LUA ::
  "int \<Rightarrow> int \<Rightarrow> int \<Rightarrow> bucket_state option \<Rightarrow> bucket_reply \<times> bucket_state" where
  "CLIENT_BUCKET_LUA now_ms argv_limit period_ms stored =
     (let capacity = argv_limit * 1000;
          hash = live_bucket now_ms stored;
          tokens0 = (case hash of None \<Rightarrow> capacity | Some s \<Rightarrow> tokens s);
          updated = (case hash of None \<Rightarrow> now_ms | Some s \<Rightarrow> updated_ms s);
          elapsed = max 0 (now_ms - updated);
          refill = (elapsed * capacity) div period_ms;
          tokens1 = min capacity (tokens0 + refill);
          ok = (1000 \<le> tokens1);
          tokens2 = (if ok then tokens1 - 1000 else tokens1);
          missing = max 0 (1000 - tokens2)
      in (\<lparr>allowed = (if ok then 1 else 0), remaining = tokens2 div 1000,
           retry_ms = ceil_div (missing * period_ms) capacity,
           reset_ms = ceil_div ((capacity - tokens2) * period_ms) capacity\<rparr>,
          \<lparr>tokens = tokens2, updated_ms = now_ms, expires_ms = now_ms + max 1000 (period_ms * 2)\<rparr>))"

section \<open>Enforcement\<close>

type_synonym bucket_store = "string \<rightharpoonup> bucket_state"

record rate_headers =
  h_bucket :: string
  h_limit :: int
  h_remaining :: int
  h_reset_after_ms :: int

datatype rate_error =
    RateIdentityInvalid
  | RateLimited rate_headers int

definition rate_key :: "ClientRateLimit \<Rightarrow> string \<Rightarrow> string" where
  "rate_key lmt identity = ''rate:client:'' @ bucket lmt @ '':'' @ identity"

definition enforce_keyed_rate_limit ::
  "int \<Rightarrow> bucket_store \<Rightarrow> ClientRateLimit \<Rightarrow> string \<Rightarrow> (rate_error + rate_headers) \<times> bucket_store" where
  "enforce_keyed_rate_limit now_ms store lmt identity =
     (if identity = [] \<or> 320 < length identity then (Inl RateIdentityInvalid, store)
      else
        let key = rate_key lmt identity;
            (reply, state) = CLIENT_BUCKET_LUA now_ms (limit lmt) (period_seconds lmt * 1000) (store key);
            headers = \<lparr>h_bucket = bucket lmt, h_limit = limit lmt,
                       h_remaining = max 0 (remaining reply), h_reset_after_ms = max 0 (reset_ms reply)\<rparr>;
            store' = store(key \<mapsto> state)
        in if allowed reply = 0 then (Inl (RateLimited headers (max 1 (retry_ms reply))), store')
           else (Inr headers, store'))"

definition enforce_client_rate_limit ::
  "int \<Rightarrow> bucket_store \<Rightarrow> ClientRateLimit \<Rightarrow> int \<Rightarrow> string \<Rightarrow> (rate_error + rate_headers) \<times> bucket_store" where
  "enforce_client_rate_limit now_ms store lmt user_id user_domain =
     enforce_keyed_rate_limit now_ms store lmt (user_domain @ '':'' @ string_of_int user_id)"

section \<open>Bucket arithmetic\<close>

lemma ceil_div_le_iff: "0 < b \<Longrightarrow> ceil_div a b \<le> d \<longleftrightarrow> a \<le> d * b"
proof -
  assume b: "0 < b"
  have "ceil_div a b \<le> d \<longleftrightarrow> - d \<le> (- a) div b" by (auto simp: ceil_div_def)
  also have "\<dots> \<longleftrightarrow> - d * b \<le> - a" using b by (simp add: le_div_int_iff)
  finally show ?thesis by auto
qed


text \<open>A bucket the script wrote: its tokens lie between zero and the capacity, and its expiry is the
  one of its last call.\<close>

definition bucket_ok :: "int \<Rightarrow> int \<Rightarrow> bucket_state option \<Rightarrow> bool" where
  "bucket_ok lmt period b \<longleftrightarrow>
     (case b of None \<Rightarrow> True
      | Some s \<Rightarrow> 0 \<le> tokens s \<and> tokens s \<le> lmt * 1000 \<and> expires_ms s = updated_ms s + max 1000 (period * 2))"

text \<open>The tokens available to a call, before it takes its own; the reference reads no expiry.\<close>

definition available :: "int \<Rightarrow> int \<Rightarrow> int \<Rightarrow> bucket_state option \<Rightarrow> int" where
  "available now_ms lmt period b =
     (case b of None \<Rightarrow> lmt * 1000
      | Some s \<Rightarrow> min (lmt * 1000) (tokens s + (max 0 (now_ms - updated_ms s) * (lmt * 1000)) div period))"

lemma refill_full:
  fixes lmt :: int
  assumes "0 < period" "1 \<le> lmt" "period \<le> e"
  shows "lmt * 1000 \<le> (e * (lmt * 1000)) div period"
  using assms by (simp add: le_div_int_iff mult_mono mult.commute)

lemma available_live:
  assumes "0 < period" "1 \<le> lmt" "bucket_ok lmt period b"
  shows "available now_ms lmt period (live_bucket now_ms b) = available now_ms lmt period b"
proof (cases b)
  case (Some s)
  show ?thesis
  proof (cases "expires_ms s \<le> now_ms")
    case True
    with Some assms have "period \<le> max 0 (now_ms - updated_ms s)" by (auto simp: bucket_ok_def)
    from refill_full [OF assms(1,2) this] True Some assms show ?thesis
      by (simp add: live_bucket_def available_def bucket_ok_def)
  qed (simp add: Some live_bucket_def)
qed (simp add: live_bucket_def)

lemma bucket_script:
  fixes now_ms
  assumes "0 < period" "1 \<le> lmt" "bucket_ok lmt period b"
  defines "avail \<equiv> available now_ms lmt period b"
  shows "CLIENT_BUCKET_LUA now_ms lmt period b =
    (let left = (if 1000 \<le> avail then avail - 1000 else avail)
     in (\<lparr>allowed = (if 1000 \<le> avail then 1 else 0), remaining = left div 1000,
          retry_ms = ceil_div (max 0 (1000 - left) * period) (lmt * 1000),
          reset_ms = ceil_div ((lmt * 1000 - left) * period) (lmt * 1000)\<rparr>,
         \<lparr>tokens = left, updated_ms = now_ms, expires_ms = now_ms + max 1000 (period * 2)\<rparr>))"
proof -
  have "min (lmt * 1000) ((case live_bucket now_ms b of None \<Rightarrow> lmt * 1000 | Some s \<Rightarrow> tokens s) +
      (max 0 (now_ms - (case live_bucket now_ms b of None \<Rightarrow> now_ms | Some s \<Rightarrow> updated_ms s)) * (lmt * 1000)) div period)
    = avail"
    unfolding avail_def available_live [OF assms(1-3), symmetric]
    by (simp add: available_def split: option.split)
  then show ?thesis unfolding CLIENT_BUCKET_LUA_def Let_def by (simp only:)
qed

lemma available_bounds:
  "1 \<le> lmt \<Longrightarrow> 0 < period \<Longrightarrow> bucket_ok lmt period b \<Longrightarrow>
   0 \<le> available now_ms lmt period b \<and> available now_ms lmt period b \<le> lmt * 1000"
  by (auto simp: available_def bucket_ok_def pos_imp_zdiv_nonneg_iff split: option.splits)

lemma bucket_ok_step:
  assumes "0 < period" "1 \<le> lmt" "bucket_ok lmt period b"
  shows "bucket_ok lmt period (Some (snd (CLIENT_BUCKET_LUA now_ms lmt period b)))"
  using available_bounds [OF assms(2,1,3), of now_ms]
  by (auto simp: bucket_script [OF assms] bucket_ok_def Let_def)

text \<open>A run of the script at the given times: how many calls it admits.\<close>

fun admitted :: "int \<Rightarrow> int \<Rightarrow> int list \<Rightarrow> bucket_state option \<Rightarrow> int" where
  "admitted lmt period [] b = 0"
| "admitted lmt period (t # ts) b =
     (case CLIENT_BUCKET_LUA t lmt period b of
        (reply, s) \<Rightarrow> allowed reply + admitted lmt period ts (Some s))"

lemma admitted_potential:
  assumes "0 < period" "1 \<le> lmt" "bucket_ok lmt period (Some s)" "sorted ts" "\<forall>t \<in> set ts. updated_ms s \<le> t \<and> t \<le> T"
    "updated_ms s \<le> T"
  shows "period * (1000 * admitted lmt period ts (Some s)) \<le> period * tokens s + (T - updated_ms s) * (lmt * 1000)"
  using assms(3-)
proof (induction ts arbitrary: s)
  case Nil
  then show ?case using assms(1,2) by (simp add: bucket_ok_def)
next
  case (Cons t ts)
  let ?cap = "lmt * 1000"
  let ?av = "available t lmt period (Some s)"
  let ?left = "if 1000 \<le> ?av then ?av - 1000 else ?av"
  let ?s' = "\<lparr>tokens = ?left, updated_ms = t, expires_ms = t + max 1000 (period * 2)\<rparr>"
  have script: "snd (CLIENT_BUCKET_LUA t lmt period (Some s)) = ?s'"
    "allowed (fst (CLIENT_BUCKET_LUA t lmt period (Some s))) = (if 1000 \<le> ?av then 1 else 0)"
    by (simp_all add: bucket_script [OF assms(1,2) Cons.prems(1)] Let_def)
  have "bucket_ok lmt period (Some ?s')"
    using bucket_ok_step [OF assms(1,2) Cons.prems(1), of t] by (simp add: script)
  from Cons.IH [OF this] Cons.prems
  have IH: "period * (1000 * admitted lmt period ts (Some ?s')) \<le> period * ?left + (T - t) * ?cap"
    by simp
  have t: "updated_ms s \<le> t" using Cons.prems by simp
  have "?av \<le> tokens s + ((t - updated_ms s) * ?cap) div period"
    using t by (simp add: available_def)
  then have "period * ?av \<le> period * tokens s + period * (((t - updated_ms s) * ?cap) div period)"
    using assms(1) by (simp add: distrib_left [symmetric])
  also have "period * (((t - updated_ms s) * ?cap) div period) \<le> (t - updated_ms s) * ?cap"
    using le_div_int_iff [OF assms(1), of "((t - updated_ms s) * ?cap) div period" "(t - updated_ms s) * ?cap"]
    by (simp add: mult.commute)
  finally have av: "period * ?av \<le> period * tokens s + (t - updated_ms s) * ?cap" by simp
  have "admitted lmt period (t # ts) (Some s) = (if 1000 \<le> ?av then 1 else 0) + admitted lmt period ts (Some ?s')"
    using script by (simp add: case_prod_beta)
  then have "period * (1000 * admitted lmt period (t # ts) (Some s)) =
      period * (?av - ?left) + period * (1000 * admitted lmt period ts (Some ?s'))"
    by (simp add: algebra_simps)
  also have "\<dots> \<le> period * ?av + (T - t) * ?cap" using IH by (simp add: algebra_simps)
  also have "\<dots> \<le> period * tokens s + (T - updated_ms s) * ?cap" using av by (simp add: algebra_simps)
  finally show ?case .
qed


lemma rate_key_inject:
  assumes "CHR '':'' \<notin> set (bucket a)" "CHR '':'' \<notin> set (bucket b)"
  shows "rate_key a i = rate_key b j \<longleftrightarrow> bucket a = bucket b \<and> i = j"
proof
  have cut: "takeWhile (\<lambda>c. c \<noteq> CHR '':'') (x @ '':'' @ k) = x" if "CHR '':'' \<notin> set x" for x k :: string
    using that by (subst takeWhile_append2) auto
  assume "rate_key a i = rate_key b j"
  then have eq: "bucket a @ '':'' @ i = bucket b @ '':'' @ j" by (simp add: rate_key_def)
  from cut [OF assms(1), of i] cut [OF assms(2), of j] eq have "bucket a = bucket b" by simp
  with eq show "bucket a = bucket b \<and> i = j" by simp
qed (simp add: rate_key_def)

lemma limits_table_ok:
  "list_all (\<lambda>(_, l). ClientRateLimit_post_init l = Inr l \<and> CHR '':'' \<notin> set (bucket l)) CLIENT_RATE_LIMITS"
  by (simp add: CLIENT_RATE_LIMITS_def rate_limit_def ClientRateLimit_post_init_def)

section \<open>Properties\<close>

text \<open>C18: The token-bucket bound: over the window from a first call at \<open>t\<close> to \<open>T\<close>, whatever the bucket held before and
  however the calls fall, the script admits at most \<open>limit\<close> calls plus one further \<open>limit\<close> per elapsed
  period.\<close>

theorem bucket_admission_bound:
  assumes "0 < period" "1 \<le> lmt" "bucket_ok lmt period b" "sorted (t # ts)" "\<forall>x \<in> set (t # ts). x \<le> T"
  shows "admitted lmt period (t # ts) b * period \<le> lmt * (period + (T - t))"
proof -
  let ?cap = "lmt * 1000"
  let ?av = "available t lmt period b"
  let ?left = "if 1000 \<le> ?av then ?av - 1000 else ?av"
  let ?s' = "\<lparr>tokens = ?left, updated_ms = t, expires_ms = t + max 1000 (period * 2)\<rparr>"
  have script: "snd (CLIENT_BUCKET_LUA t lmt period b) = ?s'"
    "allowed (fst (CLIENT_BUCKET_LUA t lmt period b)) = (if 1000 \<le> ?av then 1 else 0)"
    by (simp_all add: bucket_script [OF assms(1-3)] Let_def)
  have ok: "bucket_ok lmt period (Some ?s')"
    using bucket_ok_step [OF assms(1-3), of t] by (simp add: script)
  have rest: "period * (1000 * admitted lmt period ts (Some ?s')) \<le> period * ?left + (T - t) * ?cap"
    using admitted_potential [OF assms(1,2) ok, of ts T] assms(4,5) by simp
  have "admitted lmt period (t # ts) b = (if 1000 \<le> ?av then 1 else 0) + admitted lmt period ts (Some ?s')"
    using script by (simp add: case_prod_beta)
  then have "period * (1000 * admitted lmt period (t # ts) b) =
      period * (?av - ?left) + period * (1000 * admitted lmt period ts (Some ?s'))"
    by (simp add: algebra_simps)
  also have "\<dots> \<le> period * ?av + (T - t) * ?cap" using rest by (simp add: algebra_simps)
  also have "\<dots> \<le> period * ?cap + (T - t) * ?cap"
    using available_bounds [OF assms(2,1,3), of t] assms(1) by simp
  finally show ?thesis by (simp add: algebra_simps)
qed

theorem bucket_admission_bound_witness:
  "admitted 2 10000 [0, 1, 2, 5000] None * 10000 \<le> 2 * (10000 + (5000 - 0))"
  by (rule bucket_admission_bound) (simp_all add: bucket_ok_def)

text \<open>The advertised retry delay is exact: after a refused call, a next call is admitted if and only if it
  comes no earlier than the delay the refusal announced, whether or not the key expires meanwhile.\<close>

theorem bucket_retry_exact:
  assumes "0 < period" "1 \<le> lmt" "bucket_ok lmt period b"
    and refused: "CLIENT_BUCKET_LUA t lmt period b = (reply, s)" "allowed reply = 0" and "0 \<le> d"
  shows "(allowed (fst (CLIENT_BUCKET_LUA (t + d) lmt period (Some s))) = 1 \<longleftrightarrow> retry_ms reply \<le> d) \<and>
    0 < retry_ms reply"
proof -
  let ?av = "available t lmt period b" and ?cap = "lmt * 1000"
  have av: "\<not> 1000 \<le> ?av" and reply: "retry_ms reply = ceil_div ((1000 - ?av) * period) ?cap"
    and s: "tokens s = ?av" "updated_ms s = t"
    using refused by (auto simp: bucket_script [OF assms(1-3)] Let_def split: if_splits)
  have ok: "bucket_ok lmt period (Some s)"
    using bucket_ok_step [OF assms(1-3), of t] refused(1) by simp
  have "allowed (fst (CLIENT_BUCKET_LUA (t + d) lmt period (Some s))) = 1 \<longleftrightarrow>
      1000 \<le> available (t + d) lmt period (Some s)"
    by (simp add: bucket_script [OF assms(1,2) ok] Let_def)
  also have "\<dots> \<longleftrightarrow> 1000 - ?av \<le> (d * ?cap) div period"
    using assms(2,6) s by (auto simp: available_def)
  also have "\<dots> \<longleftrightarrow> retry_ms reply \<le> d"
    unfolding reply using assms(1,2) by (simp add: le_div_int_iff ceil_div_le_iff mult.commute)
  finally have exact: "allowed (fst (CLIENT_BUCKET_LUA (t + d) lmt period (Some s))) = 1 \<longleftrightarrow> retry_ms reply \<le> d" .
  have "\<not> ceil_div ((1000 - ?av) * period) ?cap \<le> 0"
    using av assms(1,2) by (simp add: ceil_div_le_iff mult_le_0_iff)
  with exact show ?thesis by (simp add: reply)
qed

theorem bucket_retry_exact_witness:
  "let s = \<lparr>tokens = 400, updated_ms = 0, expires_ms = 20000\<rparr>;
       (reply, s') = CLIENT_BUCKET_LUA 0 2 10000 (Some s)
   in allowed reply = 0 \<and> retry_ms reply = 3000 \<and>
      allowed (fst (CLIENT_BUCKET_LUA (0 + 3000) 2 10000 (Some s'))) = 1"
proof -
  let ?s = "\<lparr>tokens = 400, updated_ms = 0, expires_ms = 20000\<rparr>"
  let ?reply = "\<lparr>allowed = 0, remaining = 0, retry_ms = 3000, reset_ms = 8000\<rparr>"
  have ok: "bucket_ok 2 10000 (Some ?s)" by (simp add: bucket_ok_def)
  have "available 0 2 10000 (Some ?s) = 400" by (simp add: available_def)
  then have run: "CLIENT_BUCKET_LUA 0 2 10000 (Some ?s) = (?reply, ?s)"
    by (simp add: bucket_script [OF _ _ ok] ceil_div_def Let_def)
  show ?thesis
    using bucket_retry_exact [OF _ _ ok run, of 3000] by (simp add: run Let_def)
qed

text \<open>Every configured limit is well formed, and a call charges only its own bucket: it leaves all other keys of
  the store unchanged, and calls of a configured limit share a key exactly when limit name and
  identity agree. A refused call is reported as rate limited with a positive delay.\<close>

theorem enforcement_isolated:
  assumes "(n, lmt) \<in> set CLIENT_RATE_LIMITS" "(n', lmt') \<in> set CLIENT_RATE_LIMITS"
    and "enforce_keyed_rate_limit now_ms store lmt identity = (res, store')"
  shows "ClientRateLimit_post_init lmt = Inr lmt \<and>
    (\<forall>identity'. rate_key lmt identity = rate_key lmt' identity' \<longleftrightarrow> bucket lmt = bucket lmt' \<and> identity = identity') \<and>
    (\<forall>key. key \<noteq> rate_key lmt identity \<longrightarrow> store' key = store key) \<and>
    (\<forall>h r. res = Inl (RateLimited h r) \<longrightarrow> 1 \<le> r)"
proof (intro conjI allI impI)
  have ok: "ClientRateLimit_post_init lmt = Inr lmt" "CHR '':'' \<notin> set (bucket lmt)" "CHR '':'' \<notin> set (bucket lmt')"
    using limits_table_ok assms(1,2) by (auto simp: list_all_iff)
  then show "ClientRateLimit_post_init lmt = Inr lmt" by simp
  show "rate_key lmt identity = rate_key lmt' identity' \<longleftrightarrow> bucket lmt = bucket lmt' \<and> identity = identity'" for identity'
    using ok(2,3) by (rule rate_key_inject)
  show "store' key = store key" if "key \<noteq> rate_key lmt identity" for key
    using assms(3) that by (auto simp: enforce_keyed_rate_limit_def Let_def case_prod_beta split: if_splits)
  show "1 \<le> r" if "res = Inl (RateLimited h r)" for h r
    using assms(3) that by (auto simp: enforce_keyed_rate_limit_def Let_def case_prod_beta split: if_splits)
qed

theorem enforcement_isolated_witness:
  "fst (enforce_keyed_rate_limit 7 Map.empty (rate_limit ''typing'' 2 10) ''a.example:5'') =
     Inr \<lparr>h_bucket = ''typing'', h_limit = 2, h_remaining = 1, h_reset_after_ms = 5000\<rparr> \<and>
   rate_key (rate_limit ''typing'' 2 10) ''a.example:5'' \<noteq> rate_key (rate_limit ''reaction'' 10 10) ''a.example:5''"
proof -
  have m: "(''typing'', rate_limit ''typing'' 2 10) \<in> set CLIENT_RATE_LIMITS"
    "(''reaction'', rate_limit ''reaction'' 10 10) \<in> set CLIENT_RATE_LIMITS"
    by (simp_all add: CLIENT_RATE_LIMITS_def)
  obtain res store' where run: "enforce_keyed_rate_limit 7 Map.empty (rate_limit ''typing'' 2 10) ''a.example:5'' = (res, store')"
    by fastforce
  from enforcement_isolated [OF m run, THEN conjunct2, THEN conjunct1, rule_format, of "''a.example:5''"]
  have "rate_key (rate_limit ''typing'' 2 10) ''a.example:5'' \<noteq> rate_key (rate_limit ''reaction'' 10 10) ''a.example:5''"
    by (simp add: rate_limit_def)
  moreover have "fst (CLIENT_BUCKET_LUA 7 2 10000 None) = \<lparr>allowed = 1, remaining = 1, retry_ms = 0, reset_ms = 5000\<rparr>"
    by (simp add: bucket_script bucket_ok_def available_def ceil_div_def Let_def)
  ultimately show ?thesis
    by (simp add: enforce_keyed_rate_limit_def rate_limit_def Let_def case_prod_beta)
qed

end
