(* ===== verification/Recurrence.thy ===== *)
theory Recurrence
  imports Kaede_Prelude "HOL-Library.Product_Lexorder"
begin

text \<open>
  Recurring scheduled events (\<open>scheduled_events/recurrence.py\<close>): the validated subset of recurrence rules and the
  search for the next occurrence over the proleptic Gregorian calendar of Python's \<open>datetime\<close>. All
  times are UTC. The unbounded \<open>while True\<close> searches are partial functions into \<open>option\<close>: \<open>None\<close> is a search
  that never returns.
\<close>

section \<open>Calendar\<close>

text \<open>A UTC date-time: year, month, day and the microsecond of the day, ordered lexicographically.\<close>

type_synonym datetime = "int \<times> int \<times> int \<times> int"

definition is_leap :: "int \<Rightarrow> bool" where
  "is_leap y \<longleftrightarrow> 4 dvd y \<and> (\<not> 100 dvd y \<or> 400 dvd y)"

definition days_in_month :: "int \<Rightarrow> int \<Rightarrow> int" where
  "days_in_month y m =
     (if m = 2 then (if is_leap y then 29 else 28) else if m \<in> {4, 6, 9, 11} then 30 else 31)"

definition valid_date :: "int \<Rightarrow> int \<Rightarrow> int \<Rightarrow> bool" where
  "valid_date y m d \<longleftrightarrow> 1 \<le> y \<and> y \<le> 9999 \<and> 1 \<le> m \<and> m \<le> 12 \<and> 1 \<le> d \<and> d \<le> days_in_month y m"

definition valid_datetime :: "datetime \<Rightarrow> bool" where
  "valid_datetime = (\<lambda>(y, m, d, t). valid_date y m d \<and> 0 \<le> t \<and> t < 86400000000)"

definition days_before_year :: "int \<Rightarrow> int" where
  "days_before_year y = (y - 1) * 365 + (y - 1) div 4 - (y - 1) div 100 + (y - 1) div 400"

fun days_before_month :: "int \<Rightarrow> nat \<Rightarrow> int" where
  "days_before_month y 0 = 0"
| "days_before_month y (Suc k) = days_before_month y k + days_in_month y (int k + 1)"

definition toordinal :: "datetime \<Rightarrow> int" where
  "toordinal = (\<lambda>(y, m, d, t). days_before_year y + days_before_month y (nat (m - 1)) + d)"

definition weekday :: "datetime \<Rightarrow> int" where
  "weekday dt = (toordinal dt + 6) mod 7"

text \<open>\<open>dt + timedelta(days=k)\<close>; the calendar ends with the year 9999.\<close>

definition next_day :: "datetime \<Rightarrow> datetime result" where
  "next_day = (\<lambda>(y, m, d, t).
     if d < days_in_month y m then Inr (y, m, d + 1, t)
     else if m < 12 then Inr (y, m + 1, 1, t)
     else if y < 9999 then Inr (y + 1, 1, 1, t)
     else Inl (OverflowError ''date value out of range''))"

fun add_days :: "nat \<Rightarrow> datetime \<Rightarrow> datetime result" where
  "add_days 0 dt = Inr dt"
| "add_days (Suc k) dt = rbind (next_day dt) (add_days k)"

section \<open>Rules\<close>

definition RECURRENCE_YEARLY :: int where "RECURRENCE_YEARLY = 0"
definition RECURRENCE_MONTHLY :: int where "RECURRENCE_MONTHLY = 1"
definition RECURRENCE_WEEKLY :: int where "RECURRENCE_WEEKLY = 2"
definition RECURRENCE_DAILY :: int where "RECURRENCE_DAILY = 3"

definition DAILY_WEEKDAY_SETS :: "int list set" where
  "DAILY_WEEKDAY_SETS = {[0, 1, 2, 3, 4], [1, 2, 3, 4, 5], [6, 0, 1, 2, 3], [4, 5], [5, 6], [6, 0]}"

record ScheduledEventNWeekday =
  nw_n :: int
  nw_day :: int

record ScheduledEventRecurrenceRule =
  rr_start :: datetime
  rr_frequency :: int
  rr_interval :: int
  rr_by_weekday :: "int list option"
  rr_by_n_weekday :: "ScheduledEventNWeekday list option"
  rr_by_month :: "int list option"
  rr_by_month_day :: "int list option"

text \<open>The bounds of the fields and the field validators.\<close>

definition opt_all :: "('a \<Rightarrow> bool) \<Rightarrow> 'a option \<Rightarrow> bool" where
  "opt_all p x = (case x of None \<Rightarrow> True | Some v \<Rightarrow> p v)"

definition rule_fields_ok :: "ScheduledEventRecurrenceRule \<Rightarrow> bool" where
  "rule_fields_ok r \<longleftrightarrow>
     rr_frequency r \<in> {0, 1, 2, 3} \<and> 1 \<le> rr_interval r \<and> rr_interval r \<le> 2 \<and>
     opt_all (\<lambda>ds. 1 \<le> length ds \<and> length ds \<le> 7 \<and> list_all (\<lambda>d. 0 \<le> d \<and> d \<le> 6) ds \<and> distinct ds) (rr_by_weekday r) \<and>
     opt_all (\<lambda>ns. length ns = 1 \<and> list_all (\<lambda>n. 1 \<le> nw_n n \<and> nw_n n \<le> 5 \<and> 0 \<le> nw_day n \<and> nw_day n \<le> 6) ns) (rr_by_n_weekday r) \<and>
     opt_all (\<lambda>ms. length ms = 1 \<and> list_all (\<lambda>m. 1 \<le> m \<and> m \<le> 12) ms) (rr_by_month r) \<and>
     opt_all (\<lambda>ds. length ds = 1 \<and> list_all (\<lambda>d. 1 \<le> d \<and> d \<le> 31) ds) (rr_by_month_day r)"

definition discord_writable_subset ::
  "ScheduledEventRecurrenceRule \<Rightarrow> ScheduledEventRecurrenceRule result" where
  "discord_writable_subset r =
     (let groups = (if rr_by_weekday r \<noteq> None then 1 else 0) + (if rr_by_n_weekday r \<noteq> None then 1 else 0)
                   + (if rr_by_month r \<noteq> None \<or> rr_by_month_day r \<noteq> None then 1 else (0::nat))
      in if 1 < groups then Inl (ValueError ''recurrence selectors are mutually exclusive'')
         else if rr_interval r \<noteq> 1 \<and> \<not> (rr_frequency r = RECURRENCE_WEEKLY \<and> rr_interval r = 2)
         then Inl (ValueError ''only weekly recurrence supports an interval of 2'')
         else if (case rr_by_weekday r of None \<Rightarrow> False
                  | Some ds \<Rightarrow> rr_frequency r = RECURRENCE_DAILY \<and> ds \<notin> DAILY_WEEKDAY_SETS)
         then Inl (ValueError ''daily recurrence uses one of Discord's weekday sets'')
         else if (case rr_by_weekday r of None \<Rightarrow> False
                  | Some ds \<Rightarrow> rr_frequency r \<noteq> RECURRENCE_DAILY \<and> rr_frequency r = RECURRENCE_WEEKLY \<and> length ds \<noteq> 1)
         then Inl (ValueError ''weekly recurrence accepts exactly one weekday'')
         else if rr_by_weekday r \<noteq> None \<and> rr_frequency r \<notin> {RECURRENCE_DAILY, RECURRENCE_WEEKLY}
         then Inl (ValueError ''weekdays are valid only for daily or weekly recurrence'')
         else if rr_by_n_weekday r \<noteq> None \<and> rr_frequency r \<noteq> RECURRENCE_MONTHLY
         then Inl (ValueError ''n-weekday recurrence is valid only for monthly events'')
         else if (rr_by_month r = None) \<noteq> (rr_by_month_day r = None)
         then Inl (ValueError ''yearly recurrence requires both month and month day'')
         else if rr_by_month r \<noteq> None \<and> rr_frequency r \<noteq> RECURRENCE_YEARLY
         then Inl (ValueError ''month and month-day recurrence is valid only for yearly events'')
         else Inr r)"

text \<open>\<open>ScheduledEventRecurrenceRule.model_validate\<close> of a decoded rule.\<close>

definition model_validate :: "ScheduledEventRecurrenceRule \<Rightarrow> ScheduledEventRecurrenceRule result" where
  "model_validate r =
     (if rule_fields_ok r then discord_writable_subset r else Inl (ValueError ''recurrence field is invalid''))"

definition validate_recurrence_projection ::
  "ScheduledEventRecurrenceRule option \<Rightarrow> datetime \<Rightarrow> ScheduledEventRecurrenceRule option result" where
  "validate_recurrence_projection raw scheduled_start_time =
     (case raw of
        None \<Rightarrow> Inr None
      | Some r \<Rightarrow>
          (case model_validate r of
             Inl _ \<Rightarrow> Inl (ValueError ''scheduled event recurrence is invalid'')
           | Inr rule \<Rightarrow>
               if rr_start rule \<noteq> scheduled_start_time
               then Inl (ValueError ''scheduled event recurrence start does not match its event'')
               else Inr (Some rule)))"

section \<open>The next occurrence\<close>

definition replace_date :: "datetime \<Rightarrow> int \<Rightarrow> int \<Rightarrow> int \<Rightarrow> datetime option" where
  "replace_date = (\<lambda>(y0, m0, d0, t) y m d. if valid_date y m d then Some (y, m, d, t) else None)"

definition next_month :: "int \<Rightarrow> int \<Rightarrow> int \<times> int" where
  "next_month y m = (if m = 12 then (y + 1, 1) else (y, m + 1))"

partial_function (option) daily_search :: "int set \<Rightarrow> nat \<Rightarrow> datetime \<Rightarrow> datetime result option" where
  "daily_search weekdays interval candidate =
     (case add_days interval candidate of
        Inl e \<Rightarrow> Some (Inl e)
      | Inr c \<Rightarrow> if weekdays = {} \<or> weekday c \<in> weekdays then Some (Inr c) else daily_search weekdays interval c)"

text \<open>The start of the week of a date, as an ordinal.\<close>

definition week_start :: "datetime \<Rightarrow> int" where
  "week_start dt = toordinal dt - weekday dt"

partial_function (option) weekly_search :: "int \<Rightarrow> int \<Rightarrow> int \<Rightarrow> datetime \<Rightarrow> datetime result option" where
  "weekly_search target_weekday anchor_week interval candidate =
     (case next_day candidate of
        Inl e \<Rightarrow> Some (Inl e)
      | Inr c \<Rightarrow>
          let week_offset = (week_start c - anchor_week) div 7
          in if weekday c = target_weekday \<and> 0 \<le> week_offset \<and> week_offset mod interval = 0
             then Some (Inr c) else weekly_search target_weekday anchor_week interval c)"

text \<open>The candidate of one month; constructing the first of a month past the year 9999 raises.\<close>

definition monthly_candidate ::
  "ScheduledEventRecurrenceRule \<Rightarrow> datetime \<Rightarrow> int \<Rightarrow> int \<Rightarrow> datetime option result" where
  "monthly_candidate rule current y m =
     (case rr_by_n_weekday rule of
        Some (selector # _) \<Rightarrow>
          if \<not> valid_date y m 1 then Inl (ValueError ''year is out of range'')
          else
            let first = (y, m, 1, snd (snd (snd current)));
                d = 1 + (nw_day selector - weekday first) mod 7 + 7 * (nw_n selector - 1)
            in Inr (if d \<le> days_in_month y m then Some (y, m, d, snd (snd (snd current))) else None)
      | _ \<Rightarrow> Inr (replace_date current y m (fst (snd (snd (rr_start rule))))))"

partial_function (option) monthly_search ::
  "ScheduledEventRecurrenceRule \<Rightarrow> datetime \<Rightarrow> int \<Rightarrow> int \<Rightarrow> datetime result option" where
  "monthly_search rule current y m =
     (case monthly_candidate rule current y m of
        Inl e \<Rightarrow> Some (Inl e)
      | Inr None \<Rightarrow> monthly_search rule current (fst (next_month y m)) (snd (next_month y m))
      | Inr (Some c) \<Rightarrow>
          if current < c then Some (Inr c)
          else monthly_search rule current (fst (next_month y m)) (snd (next_month y m)))"

partial_function (option) yearly_search :: "datetime \<Rightarrow> int \<Rightarrow> int \<Rightarrow> int \<Rightarrow> datetime result option" where
  "yearly_search current month day year =
     (case replace_date current year month day of
        None \<Rightarrow> yearly_search current month day (year + 1)
      | Some c \<Rightarrow> if current < c then Some (Inr c) else yearly_search current month day (year + 1))"

definition next_rule_occurrence :: "ScheduledEventRecurrenceRule \<Rightarrow> datetime \<Rightarrow> datetime result option" where
  "next_rule_occurrence rule current =
     (let (year, month, _, _) = current; (_, start_month, start_day, _) = rr_start rule
      in if rr_frequency rule = RECURRENCE_DAILY
         then daily_search (case rr_by_weekday rule of None \<Rightarrow> {} | Some ds \<Rightarrow> set ds) (nat (rr_interval rule)) current
         else if rr_frequency rule = RECURRENCE_WEEKLY
         then (case rr_by_weekday rule of
                 None \<Rightarrow> Some (add_days (nat (7 * rr_interval rule)) current)
               | Some ds \<Rightarrow> weekly_search (hd ds) (week_start (rr_start rule)) (rr_interval rule) current)
         else if rr_frequency rule = RECURRENCE_MONTHLY
         then monthly_search rule current (fst (next_month year month)) (snd (next_month year month))
         else yearly_search current
                (case rr_by_month rule of None \<Rightarrow> start_month | Some ms \<Rightarrow> hd ms)
                (case rr_by_month_day rule of None \<Rightarrow> start_day | Some ds \<Rightarrow> hd ds) (year + 1))"

fun recurrence_search :: "nat \<Rightarrow> ScheduledEventRecurrenceRule \<Rightarrow> datetime \<Rightarrow> datetime \<Rightarrow> datetime result option" where
  "recurrence_search 0 rule watermark current =
     Some (Inl (ValueError ''scheduled event recurrence exceeded its bounded search window''))"
| "recurrence_search (Suc k) rule watermark current =
     (case next_rule_occurrence rule current of
        None \<Rightarrow> None
      | Some (Inl e) \<Rightarrow> Some (Inl e)
      | Some (Inr c) \<Rightarrow> if watermark < c then Some (Inr c) else recurrence_search k rule watermark c)"

definition next_recurrence_start ::
  "ScheduledEventRecurrenceRule \<Rightarrow> datetime \<Rightarrow> datetime option \<Rightarrow> datetime result option" where
  "next_recurrence_start raw current_start after =
     (case model_validate raw of
        Inl e \<Rightarrow> Some (Inl e)
      | Inr rule \<Rightarrow>
          recurrence_search 10000 rule (case after of None \<Rightarrow> current_start | Some a \<Rightarrow> a) current_start)"

section \<open>The calendar advances by one day\<close>

lemma days_before_month_12: "days_before_month y 12 = (if is_leap y then 366 else 365)"
  by (simp add: numeral_eq_Suc days_in_month_def)

lemma days_before_year_Suc: "days_before_year (y + 1) = days_before_year y + (if is_leap y then 366 else 365)"
proof -
  have step: "y div k = (y - 1) div k + (if k dvd y then 1 else 0)" if "0 < k" for k :: int
  proof -
    have "(y - 1) div k = y div k - (if k dvd y then 1 else 0)"
    proof (cases "k dvd y")
      case True
      then obtain q where y: "y = k * q" ..
      have "(k * q - 1) div k = q - 1"
        using that by (intro int_div_pos_eq [of _ _ _ "k - 1"]) (auto simp: algebra_simps)
      then show ?thesis using y that by simp
    next
      case False
      then have "y mod k \<noteq> 0" by (simp add: dvd_eq_mod_eq_0)
      then have "0 < y mod k" "y mod k < k" using that pos_mod_sign [of k y] pos_mod_bound [of k y] by linarith+
      then have "(y - 1) div k = y div k"
        by (intro int_div_pos_eq [of _ _ _ "y mod k - 1"]) (auto simp: algebra_simps)
      then show ?thesis using False by simp
    qed
    then show ?thesis by simp
  qed
  have "(4::int) dvd y" if "100 dvd y" by (rule dvd_trans [OF _ that]) simp
  moreover have "(100::int) dvd y" if "400 dvd y" by (rule dvd_trans [OF _ that]) simp
  moreover define a b c where "a = (y - 1) div 4" and "b = (y - 1) div 100" and "c = (y - 1) div 400"
  moreover have "y div 4 = a + (if 4 dvd y then 1 else 0)" "y div 100 = b + (if 100 dvd y then 1 else 0)"
    "y div 400 = c + (if 400 dvd y then 1 else 0)"
    unfolding a_def b_def c_def by (rule step, simp)+
  ultimately show ?thesis
    unfolding days_before_year_def is_leap_def add_diff_cancel_right' a_def [symmetric] b_def [symmetric] c_def [symmetric]
    by (cases "4 dvd y"; cases "100 dvd y"; cases "400 dvd y") simp_all
qed

lemma days_in_month_ge: "28 \<le> days_in_month y m"
  by (simp add: days_in_month_def)

definition time_of :: "datetime \<Rightarrow> int" where
  "time_of dt = snd (snd (snd dt))"

lemma next_day_valid:
  assumes "valid_datetime dt" and "next_day dt = Inr c"
  shows "valid_datetime c" "toordinal c = toordinal dt + 1" "time_of c = time_of dt" "dt < c"
proof -
  obtain y m d t where dt: "dt = (y, m, d, t)" by (cases dt)
  have m: "1 \<le> m" "m \<le> 12" and d: "1 \<le> d" "d \<le> days_in_month y m"
    using assms(1) by (auto simp: dt valid_datetime_def valid_date_def)
  have bm: "days_before_month y (nat m) = days_before_month y (nat (m - 1)) + days_in_month y m"
  proof -
    have "nat m = Suc (nat (m - 1))" using m by simp
    then show ?thesis using m by simp
  qed
  have "valid_datetime c \<and> toordinal c = toordinal dt + 1 \<and> time_of c = time_of dt \<and> dt < c"
  proof (cases "d < days_in_month y m")
    case True
    then show ?thesis using assms by (auto simp: dt next_day_def valid_datetime_def valid_date_def toordinal_def time_of_def)
  next
    case False
    with d have dd: "d = days_in_month y m" by simp
    show ?thesis
    proof (cases "m < 12")
      case True
      then show ?thesis
        using assms False dd bm days_in_month_ge [of y "m + 1"]
        by (auto simp: dt next_day_def valid_datetime_def valid_date_def toordinal_def time_of_def)
    next
      case False
      with m have "m = 12" by simp
      then show ?thesis
        using assms dd bm days_before_year_Suc [of y] days_before_month_12 [of y] days_in_month_ge [of "y+1" 1]
        by (auto simp: dt next_day_def valid_datetime_def valid_date_def toordinal_def time_of_def split: if_splits)
    qed
  qed
  then show "valid_datetime c" "toordinal c = toordinal dt + 1" "time_of c = time_of dt" "dt < c" by auto
qed

lemma add_days_valid:
  assumes "valid_datetime dt" and "add_days k dt = Inr c"
  shows "valid_datetime c \<and> toordinal c = toordinal dt + int k \<and> time_of c = time_of dt \<and> (0 < k \<longrightarrow> dt < c)"
  using assms
proof (induction k arbitrary: dt)
  case 0
  then show ?case by simp
next
  case (Suc k)
  then obtain d where d: "next_day dt = Inr d" and c: "add_days k d = Inr c"
    by (cases "next_day dt") (auto simp: rbind_def)
  note nd = next_day_valid [OF Suc.prems(1) d]
  from Suc.IH [OF nd(1) c] nd show ?case by (cases "k = 0") (use c in auto)
qed

definition weekday_of :: "int \<Rightarrow> int" where
  "weekday_of o1 = (o1 + 6) mod 7"

locale day_search =
  fixes matches :: "int \<Rightarrow> bool" and search :: "datetime \<Rightarrow> datetime result option"
  assumes unfold: "search c = (case next_day c of Inl e \<Rightarrow> Some (Inl e)
                               | Inr c' \<Rightarrow> if matches (toordinal c') then Some (Inr c') else search c')"
begin

lemma first_match:
  assumes "valid_datetime c" and "0 < j" and "matches (toordinal c + int j)"
    and "\<And>i. 0 < i \<Longrightarrow> i < j \<Longrightarrow> \<not> matches (toordinal c + int i)"
  shows "search c = Some (add_days j c)"
  using assms
proof (induction j arbitrary: c)
  case 0
  then show ?case by simp
next
  case (Suc j)
  show ?case
  proof (cases "next_day c")
    case (Inl e)
    then show ?thesis by (simp add: unfold [of c] rbind_def)
  next
    case (Inr c')
    note nd = next_day_valid [OF Suc.prems(1) Inr]
    show ?thesis
    proof (cases "j = 0")
      case True
      then show ?thesis using Inr Suc.prems(3) nd by (simp add: unfold [of c] rbind_def)
    next
      case False
      then have "\<not> matches (toordinal c')" using Suc.prems(4) [of 1] nd by simp
      moreover have "search c' = Some (add_days j c')"
      proof (rule Suc.IH)
        show "\<not> matches (toordinal c' + int i)" if "0 < i" "i < j" for i
          using Suc.prems(4) [of "Suc i"] that nd by (simp add: algebra_simps)
      qed (use False Suc.prems nd in \<open>auto simp: algebra_simps\<close>)
      ultimately show ?thesis using Inr by (simp add: unfold [of c] rbind_def)
    qed
  qed
qed

lemma search_least:
  assumes "valid_datetime c" and "0 < k" and "matches (toordinal c + int k)"
  obtains j where "0 < j" "j \<le> k" "search c = Some (add_days j c)" "matches (toordinal c + int j)"
    "\<And>i. 0 < i \<Longrightarrow> i < j \<Longrightarrow> \<not> matches (toordinal c + int i)"
proof -
  define j where "j = (LEAST i. 0 < i \<and> matches (toordinal c + int i))"
  have j: "0 < j \<and> matches (toordinal c + int j)"
    unfolding j_def by (rule LeastI [of _ k]) (use assms in simp)
  moreover have "j \<le> k" unfolding j_def by (rule Least_le) (use assms in simp)
  moreover have not: "\<not> matches (toordinal c + int i)" if "0 < i" "i < j" for i
    using not_less_Least [of i] that unfolding j_def by blast
  ultimately show thesis using first_match [OF assms(1), of j] by (intro that [of j]) auto
qed

end

text \<open>The days on which a daily or weekly rule occurs, seen from the current occurrence.\<close>

definition day_rule :: "ScheduledEventRecurrenceRule \<Rightarrow> int \<Rightarrow> int \<Rightarrow> bool" where
  "day_rule rule current day =
     (if rr_frequency rule = RECURRENCE_DAILY
      then (case rr_by_weekday rule of None \<Rightarrow> True | Some ds \<Rightarrow> weekday_of day \<in> set ds)
      else (case rr_by_weekday rule of
              None \<Rightarrow> (day - current) mod (7 * rr_interval rule) = 0
            | Some ds \<Rightarrow>
                let offset = (day - weekday_of day - week_start (rr_start rule)) div 7
                in weekday_of day = hd ds \<and> 0 \<le> offset \<and> offset mod rr_interval rule = 0))"

lemma weekday_of_toordinal: "weekday dt = weekday_of (toordinal dt)"
  by (simp add: weekday_def weekday_of_def)

interpretation daily: day_search "\<lambda>day. W = {} \<or> weekday_of day \<in> W" "daily_search W 1" for W
proof unfold_locales
  show "daily_search W 1 c = (case next_day c of Inl e \<Rightarrow> Some (Inl e)
         | Inr c' \<Rightarrow> if W = {} \<or> weekday_of (toordinal c') \<in> W then Some (Inr c') else daily_search W 1 c')" for c
    by (subst daily_search.simps) (simp add: rbind_def weekday_of_toordinal split: sum.split)
qed

interpretation weekly: day_search
  "\<lambda>day. let offset = (day - weekday_of day - anchor) div 7
         in weekday_of day = w \<and> 0 \<le> offset \<and> offset mod k = 0" "weekly_search w anchor k" for w anchor k
proof unfold_locales
  show "weekly_search w anchor k c = (case next_day c of Inl e \<Rightarrow> Some (Inl e)
         | Inr c' \<Rightarrow> if (let offset = (toordinal c' - weekday_of (toordinal c') - anchor) div 7
                        in weekday_of (toordinal c') = w \<and> 0 \<le> offset \<and> offset mod k = 0)
                   then Some (Inr c') else weekly_search w anchor k c')" for c
    by (subst weekly_search.simps) (simp add: Let_def week_start_def weekday_of_toordinal split: sum.split)
qed

lemma model_validate_day:
  assumes "model_validate rule = Inr rule" and "rr_frequency rule \<in> {RECURRENCE_DAILY, RECURRENCE_WEEKLY}"
  shows "rr_by_weekday rule = Some ds \<Longrightarrow> ds \<noteq> [] \<and> set ds \<subseteq> {0..6}"
    and "rr_frequency rule = RECURRENCE_DAILY \<Longrightarrow> rr_interval rule = 1"
    and "rr_interval rule \<in> {1, 2}"
  using assms
  by (auto simp: model_validate_def rule_fields_ok_def opt_all_def discord_writable_subset_def Let_def
      RECURRENCE_DAILY_def RECURRENCE_WEEKLY_def list_all_iff split: if_splits option.splits)

lemma weekday_reached:
  assumes "0 \<le> w" "w \<le> 6"
  obtains k :: nat where "0 < k" "weekday_of (x + int k) = w" "k \<le> 7"
proof -
  define k where "k = nat ((w - x) mod 7 + 1)"
  have "weekday_of (x + int k) = (x + ((w - x) mod 7 + 1) + 6) mod 7"
    unfolding k_def weekday_of_def by simp
  also have "\<dots> = ((w - x) mod 7 + (x + 7)) mod 7" by (simp add: algebra_simps)
  also have "\<dots> = (w + 7) mod 7" unfolding mod_add_left_eq by (simp add: algebra_simps)
  also have "\<dots> = w" using assms by simp
  finally show thesis
    by (intro that [of k]) (auto simp: k_def)
qed

lemma weekly_reached:
  assumes "0 \<le> w" "w \<le> 6" "0 < n" "weekday_of anchor = 0"
  obtains k :: nat where "0 < k"
    "let offset = (x + int k - weekday_of (x + int k) - anchor) div 7
     in weekday_of (x + int k) = w \<and> 0 \<le> offset \<and> offset mod n = 0"
proof -
  define q where "q = \<bar>x - anchor\<bar> + 1"
  define day where "day = anchor + 7 * (n * q) + w"
  have "q \<le> n * q" using assms(3) by (simp add: q_def)
  moreover have "x - anchor < q" by (simp add: q_def)
  moreover have "0 \<le> n * q" using assms(3) by (simp add: q_def)
  ultimately have "x < day" using assms(1) unfolding day_def by linarith
  have "weekday_of day = ((anchor + 6) + (w + 7 * (n * q))) mod 7"
    by (simp add: weekday_of_def day_def algebra_simps)
  also have "\<dots> = ((anchor + 6) mod 7 + (w + 7 * (n * q))) mod 7" by (rule mod_add_left_eq [symmetric])
  also have "(anchor + 6) mod 7 = 0" using assms(4) by (simp add: weekday_of_def)
  finally have wd: "weekday_of day = w" using assms by simp
  have "(day - w - anchor) div 7 = n * q" by (simp add: day_def)
  moreover have "0 \<le> n * q" using assms(3) by (simp add: q_def)
  ultimately show thesis
    using wd \<open>x < day\<close> by (intro that [of "nat (day - x)"]) (auto simp: Let_def)
qed

lemma weekday_of_week_start: "weekday_of (week_start dt) = 0"
  by (simp add: weekday_of_def week_start_def weekday_def mod_diff_right_eq algebra_simps)

section \<open>Occurrences on sample rules\<close>

definition friday_rule :: ScheduledEventRecurrenceRule where
  "friday_rule = \<lparr>rr_start = (2026, 1, 2, 0), rr_frequency = RECURRENCE_WEEKLY, rr_interval = 2, rr_by_weekday = Some [4],
     rr_by_n_weekday = None, rr_by_month = None, rr_by_month_day = None\<rparr>"

definition weekly_rule :: ScheduledEventRecurrenceRule where
  "weekly_rule = \<lparr>rr_start = (2026, 2, 26, 5), rr_frequency = RECURRENCE_WEEKLY, rr_interval = 1, rr_by_weekday = None,
     rr_by_n_weekday = None, rr_by_month = None, rr_by_month_day = None\<rparr>"

definition fifth_saturday_rule :: ScheduledEventRecurrenceRule where
  "fifth_saturday_rule = \<lparr>rr_start = (2026, 1, 31, 0), rr_frequency = RECURRENCE_MONTHLY, rr_interval = 1, rr_by_weekday = None,
     rr_by_n_weekday = Some [\<lparr>nw_n = 5, nw_day = 5\<rparr>], rr_by_month = None, rr_by_month_day = None\<rparr>"

definition leap_day_rule :: ScheduledEventRecurrenceRule where
  "leap_day_rule = \<lparr>rr_start = (2096, 2, 29, 0), rr_frequency = RECURRENCE_YEARLY, rr_interval = 1, rr_by_weekday = None,
     rr_by_n_weekday = None, rr_by_month = Some [2], rr_by_month_day = Some [29]\<rparr>"

lemmas rule_eval = model_validate_def rule_fields_ok_def opt_all_def discord_writable_subset_def RECURRENCE_YEARLY_def
  RECURRENCE_MONTHLY_def RECURRENCE_WEEKLY_def RECURRENCE_DAILY_def valid_datetime_def valid_date_def days_in_month_def is_leap_def

section \<open>The next occurrence is the first selected one\<close>

text \<open>
  C19: For a validated daily or weekly rule the search always returns, and its occurrence is the first day after
  the current one that the rule selects: a day of its weekday set (daily), the selected weekday of every
  (second) week counted from the week of the rule's start (weekly with a weekday), or exactly one interval later
  (weekly without). The time of day is kept, and the only failure is running past the year 9999.
\<close>

theorem day_rules_least:
  assumes "model_validate rule = Inr rule" and "rr_frequency rule \<in> {RECURRENCE_DAILY, RECURRENCE_WEEKLY}"
    and "valid_datetime current"
  shows "\<exists>j>0. next_rule_occurrence rule current = Some (add_days j current) \<and>
           day_rule rule (toordinal current) (toordinal current + int j) \<and>
           (\<forall>i. 0 < i \<and> i < j \<longrightarrow> \<not> day_rule rule (toordinal current) (toordinal current + int i))"
proof (cases "rr_frequency rule = RECURRENCE_DAILY")
  case True
  define W where "W = (case rr_by_weekday rule of None \<Rightarrow> {} | Some ds \<Rightarrow> set ds)"
  have W: "W \<subseteq> {0..6}" "W = {} \<longleftrightarrow> rr_by_weekday rule = None"
    using model_validate_day(1) [OF assms(1,2)] by (auto simp: W_def split: option.splits)
  have dr: "day_rule rule cur = (\<lambda>day. W = {} \<or> weekday_of day \<in> W)" for cur
    using True W(2) by (auto simp: day_rule_def W_def fun_eq_iff split: option.splits)
  have nx: "next_rule_occurrence rule current = daily_search W 1 current"
    using True model_validate_day(2) [OF assms(1,2) True]
    by (simp add: next_rule_occurrence_def W_def split: prod.split)
  obtain k where "0 < k" "W = {} \<or> weekday_of (toordinal current + int k) \<in> W"
  proof (cases "W = {}")
    case False
    then obtain w where "w \<in> W" by blast
    then show thesis using weekday_reached [of w "toordinal current"] W(1) that by (metis atLeastAtMost_iff subsetD)
  qed (use that [of 1] in simp)
  then show ?thesis
    using daily.search_least [OF assms(3), of k W] unfolding dr nx by metis
next
  case False
  then have wk: "rr_frequency rule = RECURRENCE_WEEKLY" using assms(2) by simp
  note iv = model_validate_day(3) [OF assms(1,2)]
  show ?thesis
  proof (cases "rr_by_weekday rule")
    case None
    then show ?thesis
      using False wk iv
      by (intro exI [of _ "nat (7 * rr_interval rule)"])
         (auto simp: next_rule_occurrence_def day_rule_def dest!: zdvd_imp_le split: prod.split)
  next
    case (Some ds)
    then have ds: "0 \<le> hd ds" "hd ds \<le> 6"
      using model_validate_day(1) [OF assms(1,2) Some] by (cases ds; auto)+
    have dr: "day_rule rule cur = (\<lambda>day. let offset = (day - weekday_of day - week_start (rr_start rule)) div 7
         in weekday_of day = hd ds \<and> 0 \<le> offset \<and> offset mod rr_interval rule = 0)" for cur
      using False Some by (simp add: day_rule_def fun_eq_iff)
    have nx: "next_rule_occurrence rule current =
        weekly_search (hd ds) (week_start (rr_start rule)) (rr_interval rule) current"
      using False wk Some by (simp add: next_rule_occurrence_def split: prod.split)
    have "0 < rr_interval rule" using iv by auto
    from weekly_reached [OF ds this weekday_of_week_start, of "toordinal current" "rr_start rule"]
    obtain k where k: "0 < k" "day_rule rule (toordinal current) (toordinal current + int k)"
      unfolding dr by blast
    show ?thesis
      by (rule weekly.search_least [OF assms(3) k(1) k(2) [unfolded dr]], unfold dr nx) blast
  qed
qed

theorem day_rules_least_witness:
  "\<exists>j>0. next_rule_occurrence friday_rule (2026, 1, 2, 0) = Some (add_days j (2026, 1, 2, 0)) \<and>
     day_rule friday_rule (toordinal (2026, 1, 2, 0)) (toordinal (2026, 1, 2, 0) + int j) \<and>
     (\<forall>i. 0 < i \<and> i < j \<longrightarrow> \<not> day_rule friday_rule (toordinal (2026, 1, 2, 0)) (toordinal (2026, 1, 2, 0) + int i))"
  by (rule day_rules_least) (simp_all add: friday_rule_def rule_eval)

fun months_later :: "nat \<Rightarrow> int \<times> int \<Rightarrow> int \<times> int" where
  "months_later 0 ym = ym"
| "months_later (Suc k) ym = months_later k (next_month (fst ym) (snd ym))"

definition month_index :: "int \<times> int \<Rightarrow> int" where
  "month_index ym = 12 * fst ym + snd ym"

lemma months_later_index:
  "1 \<le> snd ym \<Longrightarrow> snd ym \<le> 12 \<Longrightarrow>
   month_index (months_later k ym) = month_index ym + int k \<and> 1 \<le> snd (months_later k ym) \<and> snd (months_later k ym) \<le> 12"
  by (induction k arbitrary: ym) (auto simp: next_month_def month_index_def)

lemma month_index_inj:
  assumes "month_index ym = month_index ym'" "1 \<le> snd ym" "snd ym \<le> 12" "1 \<le> snd ym'" "snd ym' \<le> 12"
  shows "ym = ym'"
proof -
  have "12 * fst ym + snd ym = 12 * fst ym' + snd ym'" using assms(1) by (simp add: month_index_def)
  moreover from this have "fst ym = fst ym'" using assms(2-) by linarith
  ultimately show ?thesis by (simp add: prod_eq_iff)
qed

lemma monthly_search_first:
  assumes "\<And>i. i < j \<Longrightarrow> case_prod (monthly_candidate rule current) (months_later i (y, m)) = Inr None"
    and "case_prod (monthly_candidate rule current) (months_later j (y, m)) = Inr (Some c)" and "current < c"
  shows "monthly_search rule current y m = Some (Inr c)"
  using assms
proof (induction j arbitrary: y m)
  case 0
  then show ?case by (subst monthly_search.simps) simp
next
  case (Suc j)
  obtain y' m' where nm: "next_month y m = (y', m')" by (cases "next_month y m")
  have "monthly_candidate rule current y m = Inr None" using Suc.prems(1) [of 0] by simp
  moreover have "monthly_search rule current y' m' = Some (Inr c)"
  proof (rule Suc.IH)
    show "case_prod (monthly_candidate rule current) (months_later i (y', m')) = Inr None" if "i < j" for i
      using Suc.prems(1) [of "Suc i"] that nm by simp
  qed (use Suc.prems nm in auto)
  ultimately show ?case using nm by (subst monthly_search.simps) simp
qed

text \<open>The days of a month on which a monthly rule occurs.\<close>

definition month_rule :: "ScheduledEventRecurrenceRule \<Rightarrow> int \<Rightarrow> int \<Rightarrow> int \<Rightarrow> bool" where
  "month_rule rule y m d \<longleftrightarrow> valid_date y m d \<and>
     (case rr_by_n_weekday rule of
        Some (selector # _) \<Rightarrow> weekday (y, m, d, 0) = nw_day selector \<and> (d - 1) div 7 + 1 = nw_n selector
      | _ \<Rightarrow> d = fst (snd (snd (rr_start rule))))"

lemma weekday_in_month: "weekday (y, m, d, t) = (weekday (y, m, 1, t') + (d - 1)) mod 7"
proof -
  have "(toordinal (y, m, 1, t') + 6) mod 7 = weekday (y, m, 1, t')" by (simp add: weekday_def)
  moreover have "toordinal (y, m, d, t) + 6 = toordinal (y, m, 1, t') + 6 + (d - 1)" by (simp add: toordinal_def)
  ultimately show ?thesis unfolding weekday_def by (simp only: mod_add_left_eq)
qed

lemma weekday_bounds: "0 \<le> weekday dt" "weekday dt \<le> 6"
  using pos_mod_bound [of 7 "toordinal dt + 6"] by (auto simp: weekday_def)

lemma nth_weekday:
  assumes "0 \<le> f" "f \<le> 6" "0 \<le> w" "w \<le> 6"
  shows "(f + (d - 1)) mod 7 = (w::int) \<and> (d - 1) div 7 + 1 = n \<longleftrightarrow> d = 1 + (w - f) mod 7 + 7 * (n - 1)" (is "?l \<longleftrightarrow> ?r")
proof
  assume ?l
  have "(d - 1) mod 7 = ((f + (d - 1)) - f) mod 7" by simp
  also have "\<dots> = ((f + (d - 1)) mod 7 - f) mod 7" by (rule mod_diff_left_eq [symmetric])
  also have "\<dots> = (w - f) mod 7" using \<open>?l\<close> by simp
  finally have "(d - 1) mod 7 = (w - f) mod 7" .
  moreover have "(d - 1) div 7 = n - 1" using \<open>?l\<close> by simp
  ultimately show ?r using mult_div_mod_eq [of 7 "d - 1"] by simp
next
  assume r: ?r
  then have "f + (d - 1) = (w - f) mod 7 + (f + 7 * (n - 1))" by simp
  then have "(f + (d - 1)) mod 7 = ((w - f) + (f + 7 * (n - 1))) mod 7" by (simp only: mod_add_left_eq)
  also have "w - f + (f + 7 * (n - 1)) = w + 7 * (n - 1)" by simp
  finally have "(f + (d - 1)) mod 7 = w"
    unfolding mod_mult_self2 using assms mod_pos_pos_trivial [of w 7] by simp
  moreover have "(d - 1) div 7 = n - 1"
    using r by (intro int_div_pos_eq [of _ _ _ "(w - f) mod 7"]) auto
  ultimately show ?l by simp
qed

lemma monthly_candidate_Some:
  assumes "rule_fields_ok rule" and "valid_date y m 1"
  shows "monthly_candidate rule current y m = Inr (Some c) \<longleftrightarrow> (\<exists>d. month_rule rule y m d \<and> c = (y, m, d, time_of current))"
    and "monthly_candidate rule current y m = Inr None \<longleftrightarrow> (\<nexists>d. month_rule rule y m d)"
proof -
  have "\<exists>r. monthly_candidate rule current y m = Inr r \<and>
          (case r of None \<Rightarrow> \<nexists>d. month_rule rule y m d
           | Some c \<Rightarrow> \<exists>d. (\<forall>d'. month_rule rule y m d' \<longleftrightarrow> d' = d) \<and> c = (y, m, d, time_of current))"
  proof (cases "\<exists>selector ns. rr_by_n_weekday rule = Some (selector # ns)")
    case True
    then obtain selector ns where sel: "rr_by_n_weekday rule = Some (selector # ns)" by blast
    then have b: "1 \<le> nw_n selector" "0 \<le> nw_day selector" "nw_day selector \<le> 6"
      using assms(1) by (auto simp: rule_fields_ok_def opt_all_def)
    define d where "d = 1 + (nw_day selector - weekday (y, m, 1, 0)) mod 7 + 7 * (nw_n selector - 1)"
    have wk: "weekday (y, m, 1, t) = weekday (y, m, 1, 0)" for t
      by (simp add: weekday_def toordinal_def)
    have mr: "month_rule rule y m d' \<longleftrightarrow> valid_date y m d' \<and> d' = d" for d'
      using nth_weekday [OF weekday_bounds b(2,3), of "(y, m, 1, 0)" d' "nw_n selector"]
      by (simp add: month_rule_def sel weekday_in_month [of y m d' 0 0] d_def)
    have "valid_date y m d \<longleftrightarrow> d \<le> days_in_month y m"
      using assms(2) b(1) pos_mod_sign [of 7 "nw_day selector - weekday (y, m, 1, 0)"]
      by (auto simp: valid_date_def d_def)
    moreover have "monthly_candidate rule current y m =
        Inr (if d \<le> days_in_month y m then Some (y, m, d, time_of current) else None)"
      using assms(2) by (simp add: monthly_candidate_def sel wk [of "snd (snd (snd current))"] Let_def time_of_def d_def)
    ultimately show ?thesis using mr by (intro exI [of _ "if d \<le> days_in_month y m then Some (y, m, d, time_of current) else None"]) auto
  next
    case False
    define d where "d = fst (snd (snd (rr_start rule)))"
    from False have "month_rule rule y m d' \<longleftrightarrow> valid_date y m d' \<and> d' = d" for d'
      by (auto simp: month_rule_def d_def split: option.splits list.splits)
    moreover from False have "monthly_candidate rule current y m =
        Inr (if valid_date y m d then Some (y, m, d, time_of current) else None)"
      by (cases current) (auto simp: monthly_candidate_def replace_date_def time_of_def d_def split: option.splits list.splits)
    ultimately show ?thesis
      by (intro exI [of _ "if valid_date y m d then Some (y, m, d, time_of current) else None"]) auto
  qed
  then obtain r where r: "monthly_candidate rule current y m = Inr r"
    "case r of None \<Rightarrow> \<nexists>d. month_rule rule y m d
           | Some c \<Rightarrow> \<exists>d. (\<forall>d'. month_rule rule y m d' \<longleftrightarrow> d' = d) \<and> c = (y, m, d, time_of current)" by blast
  show "monthly_candidate rule current y m = Inr (Some c) \<longleftrightarrow> (\<exists>d. month_rule rule y m d \<and> c = (y, m, d, time_of current))"
    "monthly_candidate rule current y m = Inr None \<longleftrightarrow> (\<nexists>d. month_rule rule y m d)"
    using r by (cases r; auto)+
qed

lemma month_rule_nth_weekday:
  assumes "rr_by_n_weekday rule = Some (selector # ns)" "rule_fields_ok rule" "1 \<le> y" "y \<le> 9999" "1 \<le> m" "m \<le> 12"
    and "(nw_day selector - weekday (y, m, 1, 0)) mod 7 + 29 \<le> days_in_month y m"
  shows "month_rule rule y m (1 + (nw_day selector - weekday (y, m, 1, 0)) mod 7 + 7 * (nw_n selector - 1))"
proof -
  define w n where "w = nw_day selector" and "n = nw_n selector"
  define d where "d = 1 + (w - weekday (y, m, 1, 0)) mod 7 + 7 * (n - 1)"
  have b: "1 \<le> n" "n \<le> 5" "0 \<le> w" "w \<le> 6"
    using assms(1,2) by (auto simp: rule_fields_ok_def opt_all_def w_def n_def)
  have "weekday (y, m, d, 0) = w \<and> (d - 1) div 7 + 1 = n"
    unfolding weekday_in_month [of y m d 0 0]
    using nth_weekday [OF weekday_bounds b(3,4), of "(y, m, 1, 0)" d n] d_def by blast
  moreover have "valid_date y m d"
    using assms(3-) b pos_mod_sign [of 7 "w - weekday (y, m, 1, 0)"] by (auto simp: valid_date_def d_def w_def)
  ultimately show ?thesis by (simp add: month_rule_def assms(1) w_def n_def d_def)
qed

text \<open>January, March, July and August together start on enough weekdays for every weekday to fall five times in one of them.\<close>

lemma five_of_each_weekday: "\<exists>m\<in>{1, 3, 7, 8}. (w - weekday (y, m, 1, 0)) mod 7 \<le> 2"
proof -
  define f r where "f = (\<lambda>m. weekday (y, m, 1, 0))" and "r = (w - f 1) mod 7"
  have f: "f m = (f 1 + days_before_month y (nat (m - 1))) mod 7" for m
  proof -
    have "toordinal (y, m, 1, 0) + 6 = (toordinal (y, 1, 1, 0) + 6) + days_before_month y (nat (m - 1))"
      by (simp add: toordinal_def)
    then show ?thesis unfolding f_def weekday_def by (simp only: mod_add_left_eq)
  qed
  have shift: "(w - f m) mod 7 = (r - days_before_month y (nat (m - 1))) mod 7" for m
    unfolding f [of m] r_def by (simp add: mod_diff_left_eq mod_diff_right_eq algebra_simps)
  have "r \<in> {0..6}" using pos_mod_bound [of 7 "w - f 1"] by (simp add: r_def)
  then have "r \<in> {0, 1, 2, 3, 4, 5, 6}" by auto
  then have "\<exists>m\<in>{1, 3, 7, 8}. (w - f m) mod 7 \<le> 2"
    unfolding shift by (cases "is_leap y") (auto simp: numeral_eq_Suc days_in_month_def)
  then show ?thesis by (simp add: f_def)
qed

lemma month_rule_exists:
  assumes "rule_fields_ok rule" "valid_datetime (rr_start rule)" "1 \<le> y" "y \<le> 9999"
  obtains m d where "1 \<le> m" "m \<le> 12" "month_rule rule y m d"
proof (cases "\<exists>selector ns. rr_by_n_weekday rule = Some (selector # ns)")
  case False
  then have "month_rule rule y 1 (fst (snd (snd (rr_start rule))))"
    using assms by (auto simp: month_rule_def valid_datetime_def valid_date_def days_in_month_def split: option.splits list.splits if_splits)
  then show thesis by (intro that [of 1]) auto
next
  case True
  then obtain selector ns where sel: "rr_by_n_weekday rule = Some (selector # ns)" by blast
  from five_of_each_weekday [of "nw_day selector" y]
  obtain m where m: "m \<in> {1, 3, 7, 8}" "(nw_day selector - weekday (y, m, 1, 0)) mod 7 \<le> 2" ..
  then have "(nw_day selector - weekday (y, m, 1, 0)) mod 7 + 29 \<le> days_in_month y m" by (auto simp: days_in_month_def)
  from month_rule_nth_weekday [OF sel assms(1,3,4) _ _ this] m(1) show thesis using that [of m] by auto
qed

text \<open>The months after a month, in order.\<close>

definition following_month :: "int \<times> int \<Rightarrow> nat \<Rightarrow> int \<times> int" where
  "following_month ym k = months_later k (next_month (fst ym) (snd ym))"

lemma following_month_index:
  assumes "1 \<le> snd ym" "snd ym \<le> 12"
  shows "month_index (following_month ym k) = month_index ym + 1 + int k"
    "1 \<le> snd (following_month ym k)" "snd (following_month ym k) \<le> 12"
  using months_later_index [of "next_month (fst ym) (snd ym)" k] assms
  by (auto simp: following_month_def next_month_def month_index_def)

lemma month_index_less:
  assumes "1 \<le> snd a" "snd a \<le> 12" "1 \<le> snd b" "snd b \<le> 12"
  shows "a < b \<longleftrightarrow> month_index a < month_index b"
  using assms by (cases a; cases b) (auto simp: month_index_def)

lemma following_month_reach:
  assumes "1 \<le> snd ym" "snd ym \<le> 12" "1 \<le> snd ab" "snd ab \<le> 12" "ym < ab"
  obtains k where "following_month ym k = ab"
proof
  show "following_month ym (nat (month_index ab - month_index ym - 1)) = ab"
    using assms month_index_less [OF assms(1-4)] following_month_index [OF assms(1,2)]
    by (intro month_index_inj) auto
qed

lemma monthly_search_least:
  assumes ok: "rule_fields_ok rule" and m: "1 \<le> m" "m \<le> 12" "1 \<le> y"
    and hit: "month_rule rule y1 m1 d1" "(y, m) < (y1, m1)"
  obtains y' m' d' where
    "monthly_search rule (y, m, d, t) (fst (next_month y m)) (snd (next_month y m)) = Some (Inr (y', m', d', t))"
    "(y, m) < (y', m')" "month_rule rule y' m' d'"
    "\<And>a b c. (y, m) < (a, b) \<Longrightarrow> (a, b) < (y', m') \<Longrightarrow> \<not> month_rule rule a b c"
proof -
  define later where "later = following_month (y, m)"
  define hits where "hits k = (\<exists>d'. case_prod (month_rule rule) (later k) d')" for k
  note idx = following_month_index [of "(y, m)", folded later_def, simplified, OF m(1,2)]
  have m1: "1 \<le> m1" "m1 \<le> 12" "y1 \<le> 9999" using hit(1) by (auto simp: month_rule_def valid_date_def)
  obtain k1 where k1: "later k1 = (y1, m1)"
    using following_month_reach [of "(y, m)" "(y1, m1)"] m m1 hit(2) unfolding later_def by auto
  define k where "k = (LEAST k. hits k)"
  have "hits k1" using hit(1) k1 by (auto simp: hits_def)
  then have "hits k" and le: "k \<le> k1" unfolding k_def by (auto intro: LeastI Least_le)
  then obtain y' m' d' where k: "later k = (y', m')" and d': "month_rule rule y' m' d'"
    by (cases "later k") (auto simp: hits_def)
  have nohit: "\<not> hits i" if "i < k" for i using that not_less_Least unfolding k_def by blast
  have later: "(y, m) < later i" for i
    using month_index_less [of "(y, m)" "later i"] idx [of i] m by simp
  have valid: "valid_date (fst (later i)) (snd (later i)) 1" if "i \<le> k" for i
    using idx [of i] idx(1) [of k1] later [of i] k1 that le m m1 days_in_month_ge [of "fst (later i)" "snd (later i)"]
    by (cases "later i") (auto simp: valid_date_def month_index_def)
  have cand: "case_prod (monthly_candidate rule (y, m, d, t)) (later i) = Inr None" if "i < k" for i
    using monthly_candidate_Some(2) [OF ok valid [of i], of "(y, m, d, t)"] that nohit [of i]
    by (simp add: hits_def case_prod_beta)
  have hit_k: "case_prod (monthly_candidate rule (y, m, d, t)) (later k) = Inr (Some (y', m', d', t))"
    using monthly_candidate_Some(1) [OF ok valid [of k], of "(y, m, d, t)"] d' k by (simp add: time_of_def)
  have "monthly_search rule (y, m, d, t) (fst (next_month y m)) (snd (next_month y m)) = Some (Inr (y', m', d', t))"
    by (rule monthly_search_first [where j = k])
       (use cand hit_k later [of k] k in \<open>auto simp: later_def following_month_def\<close>)
  moreover have "\<not> month_rule rule a b c" if lt: "(y, m) < (a, b)" "(a, b) < (y', m')" for a b c
  proof
    assume mr: "month_rule rule a b c"
    then have b: "1 \<le> b" "b \<le> 12" by (auto simp: month_rule_def valid_date_def)
    obtain i where i: "later i = (a, b)"
      using following_month_reach [of "(y, m)" "(a, b)"] m b lt(1) unfolding later_def by auto
    have "i < k" using month_index_less [of "later i" "later k"] idx [of i] idx [of k] lt(2) k i by simp
    then show False using nohit [of i] mr i by (auto simp: hits_def)
  qed
  ultimately show thesis using d' later [of k] k by (intro that) auto
qed

text \<open>
  C20: For a validated monthly rule and a current occurrence before the year 9999 the search returns: its
  occurrence lies in the first later month that has the selected day (the n-th given weekday, or the
  rule's day of month), on that day, at the same time of day. Months without it, such as those with no fifth
  Saturday or no 31st, are skipped.
\<close>

theorem monthly_rule_next_month:
  assumes "model_validate rule = Inr rule" and "rr_frequency rule = RECURRENCE_MONTHLY"
    and "valid_datetime (rr_start rule)" and "valid_datetime (y, m, d, t)" and "y < 9999"
  shows "\<exists>y' m' d'. next_rule_occurrence rule (y, m, d, t) = Some (Inr (y', m', d', t)) \<and>
           (y, m) < (y', m') \<and> month_rule rule y' m' d' \<and>
           (\<forall>y'' m'' d''. (y, m) < (y'', m'') \<and> (y'', m'') < (y', m') \<longrightarrow> \<not> month_rule rule y'' m'' d'')"
proof -
  have ok: "rule_fields_ok rule" using assms(1) by (auto simp: model_validate_def split: if_splits)
  have m: "1 \<le> m" "m \<le> 12" "1 \<le> y" using assms(4) by (auto simp: valid_datetime_def valid_date_def)
  obtain m1 d1 where "month_rule rule (y + 1) m1 d1"
    by (rule month_rule_exists [OF ok assms(3), of "y + 1"]) (use m assms(5) in auto)
  from monthly_search_least [OF ok m this, of d t]
  obtain y' m' d' where
    *: "monthly_search rule (y, m, d, t) (fst (next_month y m)) (snd (next_month y m)) = Some (Inr (y', m', d', t))"
    "(y, m) < (y', m')" "month_rule rule y' m' d'"
    "\<And>a b c. (y, m) < (a, b) \<Longrightarrow> (a, b) < (y', m') \<Longrightarrow> \<not> month_rule rule a b c"
    by (metis less_prod_def prod.sel(1) zless_add1_eq)
  have "next_rule_occurrence rule (y, m, d, t) = Some (Inr (y', m', d', t))"
    using *(1) assms(2)
    by (simp add: next_rule_occurrence_def RECURRENCE_MONTHLY_def RECURRENCE_DAILY_def RECURRENCE_WEEKLY_def split: prod.split)
  then show ?thesis using *(2-) by blast
qed

theorem monthly_rule_next_month_witness:
  "\<exists>y' m' d'. next_rule_occurrence fifth_saturday_rule (2026, 1, 31, 0) = Some (Inr (y', m', d', 0)) \<and>
     (2026, 1) < (y', m') \<and> month_rule fifth_saturday_rule y' m' d' \<and>
     (\<forall>y'' m'' d''. (2026, 1) < (y'', m'') \<and> (y'', m'') < (y', m') \<longrightarrow> \<not> month_rule fifth_saturday_rule y'' m'' d'')"
  by (rule monthly_rule_next_month) (simp_all add: fifth_saturday_rule_def rule_eval)

lemma yearly_search_sound:
  assumes "yearly_search (y, m, d, t) month day year = Some r"
  shows "\<exists>y'\<ge>year. valid_date y' month day \<and> r = Inr (y', month, day, t) \<and> (y, m, d, t) < (y', month, day, t)"
proof -
  have "\<exists>y'\<ge>year. valid_date y' month day \<and> r = Inr (y', month, day, time_of (y, m, d, t)) \<and> (y, m, d, t) < (y', month, day, time_of (y, m, d, t))"
    by (rule yearly_search.raw_induct [where P = "\<lambda>current month day year r. \<exists>y'\<ge>year. valid_date y' month day \<and>
          r = Inr (y', month, day, time_of current) \<and> current < (y', month, day, time_of current)", OF _ assms])
       (fastforce simp: replace_date_def time_of_def split: if_splits prod.splits option.splits)
  then show ?thesis by (simp add: time_of_def)
qed

lemma yearly_search_first:
  assumes "\<And>i. year \<le> i \<Longrightarrow> i < year + int k \<Longrightarrow> \<not> valid_date i month day" and "valid_date (year + int k) month day" and "y < year"
  shows "yearly_search (y, m, d, t) month day year = Some (Inr (year + int k, month, day, t))"
  using assms
proof (induction k arbitrary: year)
  case 0
  then show ?case by (subst yearly_search.simps) (simp add: replace_date_def)
next
  case (Suc k)
  have "\<not> valid_date year month day" using Suc.prems(1) [of year] by simp
  moreover have "yearly_search (y, m, d, t) month day (year + 1) = Some (Inr (year + 1 + int k, month, day, t))"
    by (rule Suc.IH) (use Suc.prems in \<open>auto simp: algebra_simps\<close>)
  ultimately show ?case by (subst yearly_search.simps) (simp add: replace_date_def algebra_simps)
qed

definition year_selector :: "ScheduledEventRecurrenceRule \<Rightarrow> int \<times> int" where
  "year_selector rule =
     (case (rr_by_month rule, rr_by_month_day rule) of
        (Some (month # _), Some (day # _)) \<Rightarrow> (month, day)
      | _ \<Rightarrow> (fst (snd (rr_start rule)), fst (snd (snd (rr_start rule)))))"

lemma yearly_rule_search:
  assumes "model_validate rule = Inr rule" and "rr_frequency rule = RECURRENCE_YEARLY"
  shows "next_rule_occurrence rule (y, m, d, t) =
     yearly_search (y, m, d, t) (fst (year_selector rule)) (snd (year_selector rule)) (y + 1)"
proof -
  obtain sy sm sd st where st: "rr_start rule = (sy, sm, sd, st)" by (cases "rr_start rule")
  show ?thesis
    using assms
    by (auto simp: next_rule_occurrence_def year_selector_def st RECURRENCE_YEARLY_def RECURRENCE_DAILY_def
        RECURRENCE_WEEKLY_def RECURRENCE_MONTHLY_def model_validate_def rule_fields_ok_def opt_all_def
        discord_writable_subset_def Let_def length_Suc_conv split: option.splits if_splits)
qed


lemma least_year:
  assumes "y < i" "p i"
  obtains y' where "y < y'" "p y'" "\<And>i. y < i \<Longrightarrow> i < y' \<Longrightarrow> \<not> p (i :: int)"
proof -
  define k where "k = (LEAST k. p (y + 1 + int k))"
  have "p (y + 1 + int (nat (i - (y + 1))))" using assms by simp
  then have "p (y + 1 + int k)" unfolding k_def by (rule LeastI)
  moreover have "\<not> p i" if "y < i" "i < y + 1 + int k" for i
    using not_less_Least [of "nat (i - (y + 1))" "\<lambda>k. p (y + 1 + int k)"] that
    unfolding k_def [symmetric] by (simp add: nat_less_iff)
  ultimately show thesis by (intro that [of "y + 1 + int k"]) auto
qed

text \<open>
  C21: For a yearly rule the search returns exactly the first later year in which the selected month and
  day exist (29 February skips to the next leap year), and it never returns precisely when no later year up to 9999 has
  that date.
\<close>

theorem yearly_rule_exact:
  assumes "model_validate rule = Inr rule" and "rr_frequency rule = RECURRENCE_YEARLY"
    and "year_selector rule = (month, day)"
  shows "(next_rule_occurrence rule (y, m, d, t) = Some (Inr (y', month, day, t)) \<longleftrightarrow>
            y < y' \<and> valid_date y' month day \<and> (\<forall>i. y < i \<and> i < y' \<longrightarrow> \<not> valid_date i month day)) \<and>
         (next_rule_occurrence rule (y, m, d, t) = None \<longleftrightarrow> (\<forall>i>y. \<not> valid_date i month day))"
    (is "(?l \<longleftrightarrow> ?r) \<and> (?n \<longleftrightarrow> ?a)")
proof -
  note search = yearly_rule_search [OF assms(1,2), of y m d t, unfolded assms(3) prod.sel]
  note sound = yearly_search_sound [of y m d t month day "y + 1"]
  have found: "yearly_search (y, m, d, t) month day (y + 1) = Some (Inr (y', month, day, t))"
    if "y < y'" "valid_date y' month day" "\<And>i. y < i \<Longrightarrow> i < y' \<Longrightarrow> \<not> valid_date i month day" for y'
    using yearly_search_first [of "y + 1" "nat (y' - (y + 1))" month day y m d t] that by auto
  have "?l \<longleftrightarrow> ?r"
  proof
    assume l: ?l
    then have "y < y'" "valid_date y' month day" unfolding search using sound by fastforce+
    then obtain z where z: "y < z" "valid_date z month day" "\<And>i. y < i \<Longrightarrow> i < z \<Longrightarrow> \<not> valid_date i month day"
      using least_year [of y y' "\<lambda>i. valid_date i month day"] by blast
    with found [OF z] l show ?r unfolding search by auto
  qed (use found in \<open>auto simp: search\<close>)
  moreover have "?n" if ?a
    unfolding search using sound that by (metis add1_zle_eq not_Some_eq)
  moreover have "?a" if ?n
    using least_year [of y _ "\<lambda>i. valid_date i month day"] found that unfolding search by (metis option.distinct(1))
  ultimately show ?thesis by blast
qed

theorem yearly_rule_exact_witness:
  "next_rule_occurrence leap_day_rule (2096, 2, 29, 0) = Some (Inr (2104, 2, 29, 0))"
proof -
  have "\<not> valid_date i 2 29" if "2096 < i" "i < 2104" for i
  proof -
    have "i \<in> {2097, 2098, 2099, 2100, 2101, 2102, 2103}" using that by auto
    then show ?thesis by (auto simp: rule_eval)
  qed
  then show ?thesis
    using yearly_rule_exact [of leap_day_rule 2 29 2096 2 29 0 2104]
    by (simp add: leap_day_rule_def rule_eval year_selector_def)
qed

lemma yearly_rule_diverges_search:
  assumes "next_rule_occurrence rule current = None"
  shows "recurrence_search (Suc k) rule watermark current = None"
  by (simp add: assms)


text \<open>What every occurrence keeps: it is a later moment, at the same time of day.\<close>

definition later_same_time :: "datetime \<Rightarrow> datetime \<Rightarrow> bool" where
  "later_same_time current c \<longleftrightarrow> valid_datetime c \<and> current < c \<and> time_of c = time_of current"

definition later_result :: "datetime \<Rightarrow> datetime result \<Rightarrow> bool" where
  "later_result current r = (case r of Inl _ \<Rightarrow> True | Inr c \<Rightarrow> later_same_time current c)"

lemma later_result_simps [simp]:
  "later_result current (Inl e)" "later_result current (Inr c) = later_same_time current c"
  by (auto simp: later_result_def)

lemma later_same_time_valid: "later_same_time a b \<Longrightarrow> valid_datetime b"
  by (simp add: later_same_time_def)

lemma later_result_trans: "later_same_time a b \<Longrightarrow> later_result b r \<Longrightarrow> later_result a r"
  by (cases r) (auto simp: later_same_time_def)

lemma add_days_later: "valid_datetime a \<Longrightarrow> add_days k a = Inr b \<Longrightarrow> 0 < k \<Longrightarrow> later_same_time a b"
  using add_days_valid [of a k b] by (simp add: later_same_time_def)

lemma next_day_later: "valid_datetime a \<Longrightarrow> next_day a = Inr b \<Longrightarrow> later_same_time a b"
  using next_day_valid [of a b] by (simp add: later_same_time_def)

lemma daily_search_later:
  assumes "daily_search W n current = Some r"
  shows "0 < n \<longrightarrow> valid_datetime current \<longrightarrow> later_result current r"
proof (rule daily_search.raw_induct [where P = "\<lambda>W n current r. 0 < n \<longrightarrow> valid_datetime current \<longrightarrow> later_result current r",
      OF _ assms], intro impI)
  fix f W n c r
  assume IH: "\<And>W n c r. f W n c = Some r \<Longrightarrow> 0 < n \<longrightarrow> valid_datetime c \<longrightarrow> later_result c r"
    and step: "(case add_days n c of Inl e \<Rightarrow> Some (Inl e)
       | Inr c \<Rightarrow> if W = {} \<or> weekday c \<in> W then Some (Inr c) else f W n c) = Some r"
    and n: "0 < n" and c: "valid_datetime c"
  show "later_result c r"
  proof (cases "add_days n c")
    case (Inl e)
    show ?thesis using step unfolding Inl by auto
  next
    case (Inr b)
    note later = add_days_later [OF c Inr n]
    have "r = Inr b \<or> f W n b = Some r" using step unfolding Inr by (auto split: if_splits)
    then show ?thesis
      using later later_result_trans [OF later, of r] IH [of W n b r] n later_same_time_valid [OF later] by auto
  qed
qed

lemma weekly_search_later:
  assumes "weekly_search w a n current = Some r"
  shows "valid_datetime current \<longrightarrow> later_result current r"
proof (rule weekly_search.raw_induct [where P = "\<lambda>w a n current r. valid_datetime current \<longrightarrow> later_result current r",
      OF _ assms], intro impI)
  fix f w a n c r
  assume IH: "\<And>w a n c r. f w a n c = Some r \<Longrightarrow> valid_datetime c \<longrightarrow> later_result c r"
    and step: "(case next_day c of Inl e \<Rightarrow> Some (Inl e)
       | Inr c \<Rightarrow> let week_offset = (week_start c - a) div 7
           in if weekday c = w \<and> 0 \<le> week_offset \<and> week_offset mod n = 0 then Some (Inr c) else f w a n c) = Some r"
    and c: "valid_datetime c"
  show "later_result c r"
  proof (cases "next_day c")
    case (Inl e)
    show ?thesis using step unfolding Inl by auto
  next
    case (Inr b)
    note later = next_day_later [OF c Inr]
    have "r = Inr b \<or> f w a n b = Some r" using step unfolding Inr by (auto simp: Let_def split: if_splits)
    then show ?thesis
      using later later_result_trans [OF later, of r] IH [of w a n b r] later_same_time_valid [OF later] by auto
  qed
qed

lemma monthly_candidate_valid:
  assumes "rule_fields_ok rule" "monthly_candidate rule current y m = Inr (Some c)" "valid_datetime current"
  shows "valid_datetime c \<and> time_of c = time_of current"
proof -
  have "valid_date y m 1"
    using assms(2) by (auto simp: monthly_candidate_def replace_date_def valid_date_def
        split: option.splits list.splits if_splits prod.splits)
  then show ?thesis
    using monthly_candidate_Some(1) [OF assms(1), of y m current c] assms
    by (cases current) (auto simp: month_rule_def valid_datetime_def time_of_def)
qed

lemma monthly_search_later:
  assumes "monthly_search rule current y m = Some r"
  shows "rule_fields_ok rule \<longrightarrow> valid_datetime current \<longrightarrow> later_result current r"
proof (rule monthly_search.raw_induct [where P = "\<lambda>rule current y m r. rule_fields_ok rule \<longrightarrow> valid_datetime current \<longrightarrow> later_result current r",
      OF _ assms], intro impI)
  fix f rule current y m r
  assume IH: "\<And>rule current y m r. f rule current y m = Some r \<Longrightarrow> rule_fields_ok rule \<longrightarrow> valid_datetime current \<longrightarrow> later_result current r"
    and step: "(case monthly_candidate rule current y m of Inl e \<Rightarrow> Some (Inl e)
        | Inr None \<Rightarrow> f rule current (fst (next_month y m)) (snd (next_month y m))
        | Inr (Some c) \<Rightarrow> if current < c then Some (Inr c) else f rule current (fst (next_month y m)) (snd (next_month y m))) = Some r"
    and ok: "rule_fields_ok rule" "valid_datetime current"
  show "later_result current r"
  proof (cases "monthly_candidate rule current y m")
    case (Inr oc)
    show ?thesis
    proof (cases oc)
      case None
      then show ?thesis using step Inr IH ok by simp
    next
      case (Some c)
      then show ?thesis
        using step Inr IH [of rule current] ok monthly_candidate_valid [of rule current y m c]
        by (auto simp: later_same_time_def split: if_splits)
    qed
  qed (use step in auto)
qed

lemma next_rule_occurrence_later:
  assumes "model_validate rule = Inr rule" "valid_datetime current" "next_rule_occurrence rule current = Some r"
  shows "later_result current r"
proof -
  have ok: "rule_fields_ok rule" "0 < nat (rr_interval rule)"
    using assms(1) by (auto simp: model_validate_def rule_fields_ok_def split: if_splits)
  obtain y m d t where cur: "current = (y, m, d, t)" by (cases current)
  obtain sy sm sd st where start: "rr_start rule = (sy, sm, sd, st)" by (cases "rr_start rule")
  have yearly: "later_result current r" if "yearly_search current a b (y + 1) = Some r" for a b
    using yearly_search_sound [OF that [unfolded cur]] assms(2)
    by (auto simp: cur later_same_time_def valid_datetime_def time_of_def)
  have add: "later_result current (add_days (nat (7 * rr_interval rule)) current)"
    using add_days_later [OF assms(2), of "nat (7 * rr_interval rule)"] ok(2)
    by (cases "add_days (nat (7 * rr_interval rule)) current") auto
  show ?thesis
    using assms(2,3) ok daily_search_later weekly_search_later monthly_search_later yearly add
    by (simp add: next_rule_occurrence_def cur start split: if_splits option.splits)
qed

lemma model_validate_id: "model_validate raw = Inr rule \<Longrightarrow> rule = raw"
  by (auto simp: model_validate_def discord_writable_subset_def Let_def split: if_splits)

text \<open>
  Whatever rule was accepted, a start returned by \<open>next_recurrence_start\<close> is a valid moment strictly after the
  current start and strictly after the watermark, at the event's time of day; a rule that does not validate
  never yields one.
\<close>

theorem next_recurrence_start_after_watermark:
  assumes "valid_datetime current_start" and "next_recurrence_start raw current_start after = Some (Inr c)"
  shows "model_validate raw = Inr raw \<and> valid_datetime c \<and> time_of c = time_of current_start \<and> current_start < c \<and>
         (case after of None \<Rightarrow> True | Some watermark \<Rightarrow> watermark < c)"
proof -
  have raw: "model_validate raw = Inr raw"
    using assms(2) model_validate_id [of raw] by (cases "model_validate raw") (auto simp: next_recurrence_start_def)
  have search: "later_same_time current c \<and> watermark < c"
    if "recurrence_search k raw watermark current = Some (Inr c)" "valid_datetime current" for k watermark current
    using that
  proof (induction k arbitrary: current)
    case (Suc k)
    then obtain r where r: "next_rule_occurrence raw current = Some r" by (auto split: option.splits)
    then obtain b where b: "r = Inr b" using Suc.prems(1) by (cases r) auto
    have later: "later_same_time current b" using next_rule_occurrence_later [OF raw Suc.prems(2) r] b by simp
    show ?case
      using Suc.prems(1) r b later Suc.IH [of b] later_same_time_valid [OF later] later_result_trans [OF later, of "Inr c"]
      by (simp split: if_splits)
  qed simp
  show ?thesis
    using search [OF _ assms(1), of 10000 "case after of None \<Rightarrow> current_start | Some a \<Rightarrow> a"] assms(2) raw
    by (cases after) (simp_all add: next_recurrence_start_def later_same_time_def)
qed

theorem next_recurrence_start_after_watermark_witness:
  "next_recurrence_start weekly_rule (2026, 2, 26, 5) (Some (2026, 3, 1, 0)) = Some (Inr (2026, 3, 5, 5)) \<and>
   time_of (2026, 3, 5, 5) = time_of (2026, 2, 26, 5) \<and> (2026, 3, 1, 0) < ((2026, 3, 5, 5) :: datetime)"
proof -
  have valid: "model_validate weekly_rule = Inr weekly_rule" by (simp add: weekly_rule_def rule_eval)
  have "add_days 7 (2026, 2, 26, 5) = Inr (2026, 3, 5, 5)"
    by (simp add: eval_nat_numeral next_day_def rbind_def days_in_month_def is_leap_def)
  then have "next_rule_occurrence weekly_rule (2026, 2, 26, 5) = Some (Inr (2026, 3, 5, 5))"
    by (simp add: next_rule_occurrence_def weekly_rule_def rule_eval)
  then have "recurrence_search (Suc 9999) weekly_rule (2026, 3, 1, 0) (2026, 2, 26, 5) = Some (Inr (2026, 3, 5, 5))"
    by (simp only: recurrence_search.simps option.case sum.case) simp
  then have "next_recurrence_start weekly_rule (2026, 2, 26, 5) (Some (2026, 3, 1, 0)) = Some (Inr (2026, 3, 5, 5))"
    using valid by (simp only: next_recurrence_start_def sum.case option.case) simp
  then show ?thesis
    using next_recurrence_start_after_watermark [of "(2026, 2, 26, 5)" weekly_rule "Some (2026, 3, 1, 0)" "(2026, 3, 5, 5)"]
    by (simp add: valid_datetime_def valid_date_def days_in_month_def is_leap_def)
qed

text \<open>
  C22: The validator accepts yearly rules on dates that no year has, such as 30 February, and for such a rule
  \<open>next_recurrence_start\<close> returns no result for any current start and watermark: \<open>_replace_date\<close> turns the
  \<open>ValueError\<close> of every year into a further iteration, also past the year 9999. (CPython leaves the loop only when
  the year exceeds a C \<open>int\<close>, after two thousand million iterations.)
\<close>

theorem yearly_february_30_never_returns:
  "\<exists>raw. model_validate raw = Inr raw \<and> validate_recurrence_projection (Some raw) (rr_start raw) = Inr (Some raw) \<and>
     (\<forall>current after. next_recurrence_start raw current after = None)"
proof -
  define raw :: ScheduledEventRecurrenceRule where
    "raw = \<lparr>rr_start = (2026, 1, 1, 0), rr_frequency = RECURRENCE_YEARLY, rr_interval = 1, rr_by_weekday = None,
            rr_by_n_weekday = None, rr_by_month = Some [2], rr_by_month_day = Some [30]\<rparr>"
  have ok: "model_validate raw = Inr raw"
    by (simp add: raw_def model_validate_def rule_fields_ok_def opt_all_def discord_writable_subset_def
        RECURRENCE_YEARLY_def RECURRENCE_WEEKLY_def RECURRENCE_DAILY_def RECURRENCE_MONTHLY_def)
  have "\<not> valid_date i 2 30" for i by (simp add: valid_date_def days_in_month_def)
  then have "next_rule_occurrence raw current = None" for current
    using yearly_rule_search [OF ok] yearly_search_sound [of _ _ _ _ 2 30]
    by (cases current) (fastforce simp: raw_def year_selector_def)
  then show ?thesis
    using ok yearly_rule_diverges_search [of raw _ 9999]
    by (intro exI [of _ raw]) (simp add: next_recurrence_start_def validate_recurrence_projection_def numeral_eq_Suc)
qed

end
