(* ===== verification/Json_Limits.thy ===== *)
theory Json_Limits
  imports Kaede_Prelude "HOL-Library.Multiset"
begin

text \<open>
  Resource limits on decoded JSON (\<open>core/json_limits.py\<close>). The validator compares object identities, so
  decoded values live in a heap: a container is an address, and two members may name the same
  address. The worklist loop is related to the tree the value unfolds to.
\<close>

section \<open>Values, heap and limits\<close>

datatype jkey = KStr ustr | KOther

datatype jval =
    JNone
  | JBool bool
  | JInt int
  | JFloat bool \<comment> \<open>finite?\<close>
  | JStr ustr
  | JRef nat
  | JOther

datatype cell = DictCell "(jkey \<times> jval) list" | ListCell "jval list"

type_synonym jheap = "nat \<Rightarrow> cell"

definition MAX_SAFE_JSON_INTEGER :: int where
  "MAX_SAFE_JSON_INTEGER = push_bit 53 1 - 1"

record JsonTreeLimits =
  max_depth :: nat
  max_nodes :: nat
  max_object_members :: nat
  max_array_members :: nat
  max_key_bytes :: nat
  max_string_bytes :: nat

definition FEDERATION_JSON_LIMITS :: JsonTreeLimits where
  "FEDERATION_JSON_LIMITS = \<lparr>max_depth = 24, max_nodes = 16384, max_object_members = 1024,
     max_array_members = 4096, max_key_bytes = 256, max_string_bytes = 1024 * 1024\<rparr>"

text \<open>\<open>str.encode("utf-8")\<close>: the number of bytes, or the encoding error of a lone surrogate.\<close>

definition utf8_width :: "nat \<Rightarrow> nat" where
  "utf8_width c = (if c < 128 then 1 else if c < 2048 then 2 else if c < 65536 then 3 else 4)"

definition surrogate :: "nat \<Rightarrow> bool" where
  "surrogate c \<longleftrightarrow> 55296 \<le> c \<and> c \<le> 57343"

definition utf8_length :: "ustr \<Rightarrow> nat option" where
  "utf8_length s = (if list_ex surrogate s then None else Some (sum_list (map utf8_width s)))"

text \<open>A validator of the source returns nothing or raises: \<open>None\<close> is acceptance, \<open>Some\<close> the error.\<close>

definition validate_string :: "ustr \<Rightarrow> nat \<Rightarrow> string \<Rightarrow> error option" where
  "validate_string s max_bytes label =
     (if 0 \<in> set s then Some (ValueError (label @ '' must not contain NUL characters''))
      else case utf8_length s of
             None \<Rightarrow> Some (ValueError (label @ '' must contain valid Unicode''))
           | Some n \<Rightarrow> if max_bytes < n then Some (ValueError (label @ '' is too large'')) else None)"

section \<open>The worklist loop\<close>

text \<open>The loop over the members of an object; the stack grows at its head.\<close>

fun push_members ::
  "JsonTreeLimits \<Rightarrow> string \<Rightarrow> nat \<Rightarrow> (jkey \<times> jval) list \<Rightarrow> (jval \<times> nat) list \<Rightarrow> (jval \<times> nat) list result" where
  "push_members limits label depth [] stack = Inr stack"
| "push_members limits label depth ((key, child) # rest) stack =
     (case key of
        KOther \<Rightarrow> Inl (ValueError (label @ '' object keys must be strings''))
      | KStr k \<Rightarrow>
          (case validate_string k (max_key_bytes limits) (label @ '' object key'') of
             Some e \<Rightarrow> Inl e
           | None \<Rightarrow> push_members limits label depth rest ((child, depth + 1) # stack)))"

definition validate_scalar :: "JsonTreeLimits \<Rightarrow> string \<Rightarrow> bool \<Rightarrow> jval \<Rightarrow> error option" where
  "validate_scalar limits label allow_floats item =
     (case item of
        JStr s \<Rightarrow> validate_string s (max_string_bytes limits) (label @ '' string'')
      | JNone \<Rightarrow> None
      | JBool _ \<Rightarrow> None
      | JInt i \<Rightarrow>
          if - MAX_SAFE_JSON_INTEGER \<le> i \<and> i \<le> MAX_SAFE_JSON_INTEGER then None
          else Some (ValueError (label @ '' integer is outside the supported range''))
      | JFloat fin \<Rightarrow>
          if allow_floats \<and> fin then None
          else Some (ValueError (label @ '' floating-point numbers are not supported''))
      | _ \<Rightarrow> Some (ValueError (label @ '' contains a value that JSON cannot encode'')))"

function validate_loop ::
  "jheap \<Rightarrow> JsonTreeLimits \<Rightarrow> string \<Rightarrow> bool \<Rightarrow> (jval \<times> nat) list \<Rightarrow> nat set \<Rightarrow> nat \<Rightarrow> error option" where
  "validate_loop heap limits label allow_floats [] seen nodes = None"
| "validate_loop heap limits label allow_floats ((item, depth) # stack) seen nodes =
     (if max_nodes limits < nodes + 1 then Some (ValueError (label @ '' contains too many values''))
      else if max_depth limits < depth then Some (ValueError (label @ '' exceeds the nesting depth limit''))
      else case item of
        JRef a \<Rightarrow>
          (case heap a of
             DictCell members \<Rightarrow>
               if a \<in> seen then Some (ValueError (label @ '' contains a cyclic or shared container''))
               else if max_object_members limits < length members
               then Some (ValueError (label @ '' object contains too many members''))
               else (case push_members limits label depth members stack of
                       Inl e \<Rightarrow> Some e
                     | Inr stack' \<Rightarrow> validate_loop heap limits label allow_floats stack' (insert a seen) (nodes + 1))
           | ListCell items \<Rightarrow>
               if a \<in> seen then Some (ValueError (label @ '' contains a cyclic or shared container''))
               else if max_array_members limits < length items
               then Some (ValueError (label @ '' array contains too many items''))
               else validate_loop heap limits label allow_floats
                      (rev (map (\<lambda>child. (child, depth + 1)) items) @ stack) (insert a seen) (nodes + 1))
      | _ \<Rightarrow>
          (case validate_scalar limits label allow_floats item of
             Some e \<Rightarrow> Some e
           | None \<Rightarrow> validate_loop heap limits label allow_floats stack seen (nodes + 1)))"
  by pat_completeness auto
termination
  by (relation "measure (\<lambda>(heap, limits, label, allow_floats, stack, seen, nodes). Suc (max_nodes limits) - nodes)") auto

definition validate_json_tree :: "jheap \<Rightarrow> jval \<Rightarrow> JsonTreeLimits \<Rightarrow> string \<Rightarrow> bool \<Rightarrow> error option" where
  "validate_json_tree heap value limits label allow_floats =
     validate_loop heap limits label allow_floats [(value, 0)] {} 0"

text \<open>The \<open>object_pairs_hook\<close> of \<open>strict_json_loads\<close>: an object with a repeated name is refused.\<close>

fun object_from_pairs :: "string \<Rightarrow> (ustr \<times> 'v) list \<Rightarrow> (ustr \<times> 'v) list \<Rightarrow> (ustr \<times> 'v) list result" where
  "object_from_pairs label acc [] = Inr acc"
| "object_from_pairs label acc ((key, item) # pairs) =
     (if key \<in> fst ` set acc then Inl (ValueError (label @ '' contains a duplicate object key''))
      else object_from_pairs label (acc @ [(key, item)]) pairs)"

section \<open>The tree a value unfolds to\<close>

datatype jtree = Leaf jval | Obj nat "(jkey \<times> jtree) list" | Arr nat "jtree list"

inductive reads :: "jheap \<Rightarrow> jval \<Rightarrow> jtree \<Rightarrow> bool" for heap where
  leaf: "(\<And>a. v \<noteq> JRef a) \<Longrightarrow> reads heap v (Leaf v)"
| obj: "heap a = DictCell members \<Longrightarrow> list_all2 (rel_prod (=) (reads heap)) members ms \<Longrightarrow> reads heap (JRef a) (Obj a ms)"
| arr: "heap a = ListCell items \<Longrightarrow> list_all2 (reads heap) items ts \<Longrightarrow> reads heap (JRef a) (Arr a ts)"

primrec containers :: "jtree \<Rightarrow> nat multiset" where
  "containers (Leaf v) = {#}"
| "containers (Obj a ms) = add_mset a (sum_list (map snd (map (map_prod id containers) ms)))"
| "containers (Arr a ts) = add_mset a (sum_list (map containers ts))"

primrec tree_nodes :: "jtree \<Rightarrow> nat" where
  "tree_nodes (Leaf v) = 1"
| "tree_nodes (Obj a ms) = Suc (sum_list (map snd (map (map_prod id tree_nodes) ms)))"
| "tree_nodes (Arr a ts) = Suc (sum_list (map tree_nodes ts))"

definition string_ok :: "nat \<Rightarrow> ustr \<Rightarrow> bool" where
  "string_ok max_bytes s \<longleftrightarrow> 0 \<notin> set s \<and> (\<forall>c\<in>set s. \<not> surrogate c) \<and> sum_list (map utf8_width s) \<le> max_bytes"

definition key_ok :: "JsonTreeLimits \<Rightarrow> jkey \<Rightarrow> bool" where
  "key_ok limits key = (case key of KStr k \<Rightarrow> string_ok (max_key_bytes limits) k | KOther \<Rightarrow> False)"

definition scalar_ok :: "JsonTreeLimits \<Rightarrow> bool \<Rightarrow> jval \<Rightarrow> bool" where
  "scalar_ok limits allow_floats v =
     (case v of
        JNone \<Rightarrow> True | JBool _ \<Rightarrow> True
      | JInt i \<Rightarrow> \<bar>i\<bar> \<le> 9007199254740991
      | JFloat fin \<Rightarrow> allow_floats \<and> fin
      | JStr s \<Rightarrow> string_ok (max_string_bytes limits) s
      | _ \<Rightarrow> False)"

primrec tree_ok :: "JsonTreeLimits \<Rightarrow> bool \<Rightarrow> jtree \<Rightarrow> nat \<Rightarrow> bool" where
  "tree_ok limits allow_floats (Leaf v) = (\<lambda>d. d \<le> max_depth limits \<and> scalar_ok limits allow_floats v)"
| "tree_ok limits allow_floats (Obj a ms) = (\<lambda>d. d \<le> max_depth limits \<and> length ms \<le> max_object_members limits \<and>
     list_all (\<lambda>(k, ok). key_ok limits k \<and> ok (d + 1)) (map (map_prod id (tree_ok limits allow_floats)) ms))"
| "tree_ok limits allow_floats (Arr a ts) = (\<lambda>d. d \<le> max_depth limits \<and> length ts \<le> max_array_members limits \<and>
     list_all (\<lambda>ok. ok (d + 1)) (map (tree_ok limits allow_floats) ts))"

section \<open>The loop accepts exactly the bounded trees\<close>

lemma validate_string_iff: "validate_string s n label = None \<longleftrightarrow> string_ok n s"
  by (auto simp: validate_string_def string_ok_def utf8_length_def list_ex_iff)

lemma validate_scalar_iff: "validate_scalar limits label allow_floats v = None \<longleftrightarrow> scalar_ok limits allow_floats v"
  by (cases v) (auto simp: validate_scalar_def scalar_ok_def validate_string_iff MAX_SAFE_JSON_INTEGER_def push_bit_eq_mult)

lemma push_members_Inr:
  "push_members limits label d members stack = Inr stack' \<longleftrightarrow>
     (\<forall>(k, c)\<in>set members. key_ok limits k) \<and> stack' = rev (map (\<lambda>(k, c). (c, d + 1)) members) @ stack"
proof (induction members arbitrary: stack)
  case (Cons m members)
  obtain key c where m: "m = (key, c)" by (cases m)
  show ?case
  proof (cases key)
    case (KStr k)
    have "key_ok limits key \<longleftrightarrow> validate_string k (max_key_bytes limits) (label @ '' object key'') = None"
      by (simp add: key_ok_def KStr validate_string_iff)
    then show ?thesis by (auto simp: m KStr Cons.IH split: option.splits)
  qed (auto simp: m key_ok_def)
qed auto

text \<open>A stack reads as a list of trees, each within its limits.\<close>

definition stack_reads :: "jheap \<Rightarrow> JsonTreeLimits \<Rightarrow> bool \<Rightarrow> (jval \<times> nat) list \<Rightarrow> jtree list \<Rightarrow> bool" where
  "stack_reads heap limits allow_floats = list_all2 (\<lambda>(v, d) t. reads heap v t \<and> tree_ok limits allow_floats t d)"

definition unshared :: "nat set \<Rightarrow> nat multiset \<Rightarrow> bool" where
  "unshared seen M \<longleftrightarrow> (\<forall>x. count M x \<le> (if x \<in> seen then 0 else 1))"

lemma unshared_add: "unshared seen (add_mset a M) \<longleftrightarrow> a \<notin> seen \<and> unshared (insert a seen) M"
proof
  assume l: "unshared seen (add_mset a M)"
  show "a \<notin> seen \<and> unshared (insert a seen) M"
    unfolding unshared_def
  proof (intro conjI allI)
    show "a \<notin> seen" using spec [OF l [unfolded unshared_def], of a] by (auto split: if_splits)
    show "count M x \<le> (if x \<in> insert a seen then 0 else 1)" for x
      using spec [OF l [unfolded unshared_def], of x] by (auto simp: not_in_iff split: if_splits)
  qed
next
  assume r: "a \<notin> seen \<and> unshared (insert a seen) M"
  show "unshared seen (add_mset a M)"
    unfolding unshared_def
  proof
    show "count (add_mset a M) x \<le> (if x \<in> seen then 0 else 1)" for x
      using spec [OF conjunct2 [OF r, unfolded unshared_def], of x] r by (auto simp: not_in_iff split: if_splits)
  qed
qed

lemma stack_reads_Cons:
  "stack_reads heap limits af ((v, d) # stack) ts \<longleftrightarrow>
     (\<exists>t ts'. ts = t # ts' \<and> reads heap v t \<and> tree_ok limits af t d \<and> stack_reads heap limits af stack ts')"
  by (auto simp: stack_reads_def list_all2_Cons1)

lemma stack_reads_append:
  "stack_reads heap limits af (xs @ ys) ts \<longleftrightarrow>
     (\<exists>us vs. ts = us @ vs \<and> stack_reads heap limits af xs us \<and> stack_reads heap limits af ys vs)" (is "?l \<longleftrightarrow> ?r")
proof
  show ?r if ?l using that unfolding stack_reads_def list_all2_append1 by blast
  show ?l if ?r using that unfolding stack_reads_def by (blast intro: list_all2_appendI)
qed

lemma stack_reads_rev:
  "stack_reads heap limits af (rev xs) ts \<longleftrightarrow> stack_reads heap limits af xs (rev ts)"
  using list_all2_rev [of _ xs "rev ts"] unfolding stack_reads_def by simp

lemma stack_reads_level:
  "stack_reads heap limits af (map (\<lambda>c. (c, d)) cs) ts \<longleftrightarrow>
     list_all2 (reads heap) cs ts \<and> (\<forall>t\<in>set ts. tree_ok limits af t d)"
  by (induction cs arbitrary: ts) (auto simp: stack_reads_def list_all2_Cons1)

inductive_cases reads_LeafE: "reads heap v (Leaf w)"
inductive_cases reads_RefE: "reads heap (JRef a) t"

lemma reads_scalar: "(\<And>a. v \<noteq> JRef a) \<Longrightarrow> reads heap v t \<longleftrightarrow> t = Leaf v"
  by (auto elim: reads.cases intro: reads.intros)

lemma reads_dict:
  "heap a = DictCell members \<Longrightarrow> reads heap (JRef a) t \<longleftrightarrow>
     (\<exists>ts. t = Obj a (zip (map fst members) ts) \<and> list_all2 (reads heap) (map snd members) ts)"
  (is "?h \<Longrightarrow> ?l \<longleftrightarrow> ?r")
proof -
  assume h: ?h
  have rel: "list_all2 (rel_prod (=) (reads heap)) members ms \<longleftrightarrow>
      ms = zip (map fst members) (map snd ms) \<and> list_all2 (reads heap) (map snd members) (map snd ms)" for ms
    by (induction members arbitrary: ms) (auto simp: list_all2_Cons1 rel_prod_sel)
  show "?l \<longleftrightarrow> ?r"
  proof
    assume ?l
    then show ?r
    proof (cases rule: reads.cases)
      case (obj members' ms)
      then show ?thesis using h rel [of ms] by auto
    qed (use h in auto)
  next
    assume ?r
    then obtain ts where ts: "t = Obj a (zip (map fst members) ts)" "list_all2 (reads heap) (map snd members) ts" by blast
    then have "length ts = length members" by (auto dest: list_all2_lengthD)
    then show ?l using ts rel [of "zip (map fst members) ts"] h by (auto intro!: reads.obj)
  qed
qed

lemma reads_list:
  "heap a = ListCell items \<Longrightarrow> reads heap (JRef a) t \<longleftrightarrow> (\<exists>ts. t = Arr a ts \<and> list_all2 (reads heap) items ts)"
  by (auto elim: reads.cases intro: reads.intros)

lemma sum_zip_snd: "length ks = length ts \<Longrightarrow> sum_list (map snd (map (map_prod id f) (zip ks ts))) = sum_list (map f ts)"
  by (induction ks ts rule: list_induct2) auto

lemma all_zip: "length ks = length ts \<Longrightarrow>
   list_all (\<lambda>(k, ok). p k \<and> ok d) (map (map_prod id f) (zip ks ts)) \<longleftrightarrow> (\<forall>k\<in>set ks. p k) \<and> (\<forall>t\<in>set ts. f t d)"
  by (induction ks ts rule: list_induct2) auto

lemma obj_zip_simps:
  assumes "length ks = length ts"
  shows "containers (Obj a (zip ks ts)) = add_mset a (sum_list (map containers ts))"
    "tree_nodes (Obj a (zip ks ts)) = Suc (sum_list (map tree_nodes ts))"
    "tree_ok limits af (Obj a (zip ks ts)) d \<longleftrightarrow> d \<le> max_depth limits \<and> length ts \<le> max_object_members limits \<and>
       (\<forall>k\<in>set ks. key_ok limits k) \<and> (\<forall>t\<in>set ts. tree_ok limits af t (d + 1))"
  using assms by (simp_all only: containers.simps tree_nodes.simps tree_ok.simps sum_zip_snd all_zip length_zip min.idem simp_thms)

text \<open>The worklist invariant: what the loop still accepts.\<close>

definition loop_accepts :: "jheap \<Rightarrow> JsonTreeLimits \<Rightarrow> bool \<Rightarrow> (jval \<times> nat) list \<Rightarrow> nat set \<Rightarrow> nat \<Rightarrow> bool" where
  "loop_accepts heap limits af stack seen nodes \<longleftrightarrow>
     (\<exists>ts. stack_reads heap limits af stack ts \<and> unshared seen (sum_list (map containers ts)) \<and>
           nodes + sum_list (map tree_nodes ts) \<le> max_nodes limits)"

lemma loop_accepts_children:
  "loop_accepts heap limits af (rev (map (\<lambda>c. (c, d)) cs) @ stack) seen nodes \<longleftrightarrow>
     (\<exists>us vs. list_all2 (reads heap) cs us \<and> (\<forall>t\<in>set us. tree_ok limits af t d) \<and> stack_reads heap limits af stack vs \<and>
        unshared seen (sum_list (map containers us) + sum_list (map containers vs)) \<and>
        nodes + (sum_list (map tree_nodes us) + sum_list (map tree_nodes vs)) \<le> max_nodes limits)" (is "?l \<longleftrightarrow> ?r")
proof
  have rev_sum: "sum_list (map f (rev us)) = sum_list (map f us)" for f :: "jtree \<Rightarrow> 'm::comm_monoid_add" and us
    by (simp add: rev_map [symmetric] sum_list.rev)
  {
    assume ?l
    then obtain us vs where "stack_reads heap limits af (map (\<lambda>c. (c, d)) cs) (rev us)" "stack_reads heap limits af stack vs"
      "unshared seen (sum_list (map containers (us @ vs)))" "nodes + sum_list (map tree_nodes (us @ vs)) \<le> max_nodes limits"
      unfolding loop_accepts_def stack_reads_append stack_reads_rev by blast
    then show ?r
      by (intro exI [of _ "rev us"] exI [of _ vs]) (simp add: stack_reads_level rev_sum)
  next
    assume ?r
    then obtain us vs where "stack_reads heap limits af (map (\<lambda>c. (c, d)) cs) us" "stack_reads heap limits af stack vs"
      "unshared seen (sum_list (map containers us) + sum_list (map containers vs))"
      "nodes + (sum_list (map tree_nodes us) + sum_list (map tree_nodes vs)) \<le> max_nodes limits"
      by (auto simp: stack_reads_level)
    moreover from this have "stack_reads heap limits af (rev (map (\<lambda>c. (c, d)) cs) @ stack) (rev us @ vs)"
      unfolding stack_reads_append stack_reads_rev by (metis rev_rev_ident)
    ultimately show ?l
      unfolding loop_accepts_def by (intro exI [of _ "rev us @ vs"]) (simp add: rev_sum)
  }
qed

lemma loop_accepts_scalar:
  assumes "\<And>a. v \<noteq> JRef a"
  shows "loop_accepts heap limits af ((v, d) # stack) seen nodes \<longleftrightarrow>
     d \<le> max_depth limits \<and> scalar_ok limits af v \<and> loop_accepts heap limits af stack seen (nodes + 1)"
  unfolding loop_accepts_def stack_reads_Cons reads_scalar [OF assms] by auto

lemma loop_accepts_dict:
  assumes h: "heap a = DictCell members"
  shows "loop_accepts heap limits af ((JRef a, d) # stack) seen nodes \<longleftrightarrow>
     d \<le> max_depth limits \<and> a \<notin> seen \<and> length members \<le> max_object_members limits \<and>
     (\<forall>(k, c)\<in>set members. key_ok limits k) \<and>
     loop_accepts heap limits af (rev (map (\<lambda>(k, c). (c, d + 1)) members) @ stack) (insert a seen) (nodes + 1)" (is "?l \<longleftrightarrow> ?r")
proof -
  have children: "map (\<lambda>(k, c). (c, d + 1)) members = map (\<lambda>c. (c, d + 1)) (map snd members)" by (induction members) auto
  have "?l \<longleftrightarrow> (\<exists>us vs. list_all2 (reads heap) (map snd members) us \<and>
      tree_ok limits af (Obj a (zip (map fst members) us)) d \<and> stack_reads heap limits af stack vs \<and>
      unshared seen (containers (Obj a (zip (map fst members) us)) + sum_list (map containers vs)) \<and>
      nodes + (tree_nodes (Obj a (zip (map fst members) us)) + sum_list (map tree_nodes vs)) \<le> max_nodes limits)"
    unfolding loop_accepts_def stack_reads_Cons reads_dict [of heap a members, OF h] by force
  also have "\<dots> \<longleftrightarrow> (\<exists>us vs. list_all2 (reads heap) (map snd members) us \<and> stack_reads heap limits af stack vs \<and>
      d \<le> max_depth limits \<and> length members \<le> max_object_members limits \<and> (\<forall>k\<in>set (map fst members). key_ok limits k) \<and>
      (\<forall>t\<in>set us. tree_ok limits af t (d + 1)) \<and> a \<notin> seen \<and>
      unshared (insert a seen) (sum_list (map containers us) + sum_list (map containers vs)) \<and>
      nodes + 1 + (sum_list (map tree_nodes us) + sum_list (map tree_nodes vs)) \<le> max_nodes limits)"
  proof (intro ex_cong1, goal_cases)
    case (1 us vs)
    show ?case
    proof (cases "list_all2 (reads heap) (map snd members) us")
      case True
      then have len: "length (map fst members) = length us" by (auto dest: list_all2_lengthD)
      show ?thesis using len unfolding obj_zip_simps [OF len] union_mset_add_mset_left unshared_add by auto
    qed simp
  qed
  also have "\<dots> \<longleftrightarrow> ?r" unfolding children loop_accepts_children by (auto simp: case_prod_beta)
  finally show ?thesis .
qed

lemma loop_accepts_list:
  assumes h: "heap a = ListCell items"
  shows "loop_accepts heap limits af ((JRef a, d) # stack) seen nodes \<longleftrightarrow>
     d \<le> max_depth limits \<and> a \<notin> seen \<and> length items \<le> max_array_members limits \<and>
     loop_accepts heap limits af (rev (map (\<lambda>c. (c, d + 1)) items) @ stack) (insert a seen) (nodes + 1)" (is "?l \<longleftrightarrow> ?r")
proof -
  have "?l \<longleftrightarrow> (\<exists>us vs. list_all2 (reads heap) items us \<and> tree_ok limits af (Arr a us) d \<and> stack_reads heap limits af stack vs \<and>
      unshared seen (containers (Arr a us) + sum_list (map containers vs)) \<and>
      nodes + (tree_nodes (Arr a us) + sum_list (map tree_nodes vs)) \<le> max_nodes limits)"
    unfolding loop_accepts_def stack_reads_Cons reads_list [of heap a items, OF h] by force
  also have "\<dots> \<longleftrightarrow> ?r"
    unfolding loop_accepts_children
    by (fastforce simp: list_all_iff unshared_add dest: list_all2_lengthD)
  finally show ?thesis .
qed

lemma loop_accepts_nodes: "loop_accepts heap limits af ((v, d) # stack) seen nodes \<Longrightarrow> nodes + 1 \<le> max_nodes limits"
proof -
  have pos: "1 \<le> tree_nodes t" for t by (cases t) auto
  assume "loop_accepts heap limits af ((v, d) # stack) seen nodes"
  then obtain t ts where "nodes + sum_list (map tree_nodes (t # ts)) \<le> max_nodes limits"
    unfolding loop_accepts_def stack_reads_Cons by blast
  then show ?thesis using pos [of t] by simp
qed

lemma loop_accepts_depth:
  assumes "loop_accepts heap limits af ((v, d) # stack) seen nodes"
  shows "d \<le> max_depth limits"
proof (cases v)
  case (JRef a)
  then show ?thesis using assms by (cases "heap a") (simp_all add: loop_accepts_dict loop_accepts_list)
qed (use assms in \<open>simp_all add: loop_accepts_scalar\<close>)

lemma validate_loop_iff:
  "nodes \<le> max_nodes limits \<Longrightarrow>
   validate_loop heap limits label af stack seen nodes = None \<longleftrightarrow> loop_accepts heap limits af stack seen nodes"
proof (induction heap limits label af stack seen nodes rule: validate_loop.induct)
  case (1 heap limits label af seen nodes)
  then show ?case by (simp add: loop_accepts_def stack_reads_def unshared_def)
next
  case (2 heap limits label af item d stack seen nodes)
  show ?case
  proof (cases "nodes + 1 \<le> max_nodes limits \<and> d \<le> max_depth limits")
    case False
    then have "\<not> loop_accepts heap limits af ((item, d) # stack) seen nodes"
      using loop_accepts_nodes loop_accepts_depth by blast
    then show ?thesis using False by auto
  next
    case bounds: True
    show ?thesis
    proof (cases item)
      case (JRef a)
      show ?thesis
      proof (cases "heap a")
        case (DictCell members)
        show ?thesis
        proof (cases "push_members limits label d members stack")
          case (Inl e)
          then have "\<not> (\<forall>(k, c)\<in>set members. key_ok limits k)"
            using push_members_Inr [of limits label d members stack] by (metis sum.distinct(1))
          then show ?thesis using bounds JRef DictCell Inl by (simp add: loop_accepts_dict)
        next
          case (Inr stack')
          then have keys: "(\<forall>(k, c)\<in>set members. key_ok limits k)"
            "stack' = rev (map (\<lambda>(k, c). (c, d + 1)) members) @ stack"
            unfolding push_members_Inr by blast+
          show ?thesis
            using bounds JRef DictCell Inr keys "2.IH"(6) [OF _ _ JRef DictCell _ _ Inr]
            by (auto simp: loop_accepts_dict)
        qed
      next
        case (ListCell items)
        show ?thesis
          using bounds JRef ListCell "2.IH"(7) [OF _ _ JRef ListCell] by (auto simp: loop_accepts_list)
      qed
    qed (use bounds "2.IH"(1-5,8) in \<open>auto simp: loop_accepts_scalar validate_scalar_iff [symmetric, of _ _ _ label] split: option.splits\<close>)
  qed
qed

lemma validate_json_tree_iff:
  "validate_json_tree heap value limits label allow_floats = None \<longleftrightarrow>
     (\<exists>t. reads heap value t \<and> tree_ok limits allow_floats t 0 \<and> (\<forall>a. count (containers t) a \<le> 1) \<and>
          tree_nodes t \<le> max_nodes limits)"
  unfolding validate_json_tree_def validate_loop_iff [of 0 limits, simplified]
  by (auto simp: loop_accepts_def stack_reads_def unshared_def list_all2_Cons1)

section \<open>Properties\<close>

text \<open>
  C24: The iterative validator always terminates, and it accepts a value exactly when the value unfolds to a finite tree
  that respects every limit: no container occurs twice on the way (so there is no cycle and no sharing), the nesting
  depth, the number of values, the members of each object and array, the encoded size of every key and string and the
  range of every number are bounded, and every string is NUL-free encodable Unicode.
\<close>

theorem validate_json_tree_exact:
  "validate_json_tree heap value limits label allow_floats = None \<longleftrightarrow>
     (\<exists>t. reads heap value t \<and> tree_ok limits allow_floats t 0 \<and> (\<forall>a. count (containers t) a \<le> 1) \<and>
          tree_nodes t \<le> max_nodes limits)"
  by (rule validate_json_tree_iff)

text \<open>
  The decoder hook for objects accepts a list of members exactly when no name repeats, and then keeps them unchanged
  and in order.
\<close>

theorem object_from_pairs_exact:
  "object_from_pairs label [] pairs =
     (if distinct (map fst pairs) then Inr pairs else Inl (ValueError (label @ '' contains a duplicate object key'')))"
proof -
  have "object_from_pairs label acc pairs =
     (if distinct (map fst pairs) \<and> fst ` set acc \<inter> fst ` set pairs = {} then Inr (acc @ pairs)
      else Inl (ValueError (label @ '' contains a duplicate object key'')))" for acc
    by (induction label acc pairs rule: object_from_pairs.induct) auto
  then show ?thesis by simp
qed

end
