(* ===== verification/Entity_Refs.thy ===== *)
theory Entity_Refs
  imports Kaede_Prelude
begin

text \<open>
  Identifiers on the wire (\<open>core/types.py\<close>): snowflakes as canonical decimals in the signed BIGINT
  range, and federated references \<open>id@domain\<close>, with the domain pattern of \<open>core/settings.py\<close>. Strings
  are lists of code points.
\<close>

section \<open>Snowflakes\<close>

definition MAX_SNOWFLAKE :: int where
  "MAX_SNOWFLAKE = push_bit 63 1 - 1"

text \<open>
  \<open>value.isascii() and value.isdecimal()\<close> leaves the ten ASCII digits; \<open>int\<close> of a decimal string refuses more
  than 4300 digits.
\<close>

definition validate_snowflake :: "pyval \<Rightarrow> int result" where
  "validate_snowflake value =
     (let in_range = (\<lambda>parsed. if 0 \<le> parsed \<and> parsed \<le> MAX_SNOWFLAKE then Inr parsed
                              else Inl (ValueError ''snowflake is outside the PostgreSQL BIGINT range''))
      in case value of
           PBool _ \<Rightarrow> Inl (ValueError ''snowflake must be an unsigned decimal integer'')
         | PStr s \<Rightarrow>
             if s = [] \<or> \<not> list_all is_digit s \<or> (1 < length s \<and> hd s = 48)
             then Inl (ValueError ''snowflake must be a canonical unsigned decimal string'')
             else if 4300 < length s then Inl (ValueError ''Exceeds the limit (4300 digits) for integer string conversion'')
             else in_range (int (nat_of_str s))
         | PInt i \<Rightarrow> in_range i
         | _ \<Rightarrow> Inl (ValueError ''snowflake must be an unsigned decimal integer or string''))"

definition validate_wire_snowflake :: "pyval \<Rightarrow> int result" where
  "validate_wire_snowflake value =
     (case value of
        PStr _ \<Rightarrow> validate_snowflake value
      | _ \<Rightarrow> Inl (ValueError ''snowflake must be a canonical unsigned decimal string''))"

section \<open>Domains\<close>

text \<open>
  \<open>DOMAIN_RE.fullmatch\<close>: at most 253 characters, at least two labels joined by dots, each of one to 63
  characters over lower-case letters, digits and inner hyphens.
\<close>

definition is_label_char :: "nat \<Rightarrow> bool" where
  "is_label_char c \<longleftrightarrow> is_digit c \<or> (97 \<le> c \<and> c \<le> 122)"

definition is_label :: "ustr \<Rightarrow> bool" where
  "is_label l \<longleftrightarrow> l \<noteq> [] \<and> length l \<le> 63 \<and> list_all (\<lambda>c. is_label_char c \<or> c = 45) l \<and>
     is_label_char (hd l) \<and> is_label_char (List.last l)"

fun split_at :: "nat \<Rightarrow> ustr \<Rightarrow> ustr list" where
  "split_at sep [] = [[]]"
| "split_at sep (c # s) =
     (if c = sep then [] # split_at sep s
      else case split_at sep s of p # ps \<Rightarrow> (c # p) # ps | [] \<Rightarrow> [[c]])"

definition DOMAIN_RE :: "ustr \<Rightarrow> bool" where
  "DOMAIN_RE s \<longleftrightarrow> 1 \<le> length s \<and> length s \<le> 253 \<and> 2 \<le> length (split_at 46 s) \<and> list_all is_label (split_at 46 s)"

section \<open>References\<close>

record EntityReference =
  er_id :: int
  er_domain :: "ustr option"

text \<open>
  The two raises for a domain, not normalised and not matching, are one error here: a domain that
  matches the pattern is lower-case and does not end in a dot.
\<close>

definition EntityReference_post_init :: "EntityReference \<Rightarrow> EntityReference result" where
  "EntityReference_post_init r =
     rbind (validate_snowflake (PInt (er_id r)))
       (\<lambda>_. case er_domain r of
              None \<Rightarrow> Inr r
            | Some d \<Rightarrow> if DOMAIN_RE d then Inr r else Inl (ValueError ''entity reference domain is invalid''))"

definition resolve :: "EntityReference \<Rightarrow> ustr \<Rightarrow> int \<times> ustr" where
  "resolve r local_domain = (er_id r, case er_domain r of Some d \<Rightarrow> (if d = [] then local_domain else d) | None \<Rightarrow> local_domain)"

definition reference_str :: "EntityReference \<Rightarrow> ustr" where
  "reference_str r =
     (case er_domain r of
        Some d \<Rightarrow> ucs (string_of_int (er_id r)) @ [64] @ d
      | None \<Rightarrow> ucs (string_of_int (er_id r)))"

text \<open>\<open>raw.partition("@")\<close>\<close>

fun partition_at :: "ustr \<Rightarrow> ustr \<times> bool \<times> ustr" where
  "partition_at [] = ([], False, [])"
| "partition_at (c # s) = (if c = 64 then ([], True, s) else let (a, sep, d) = partition_at s in (c # a, sep, d))"

definition validate_entity_reference :: "pyval \<Rightarrow> EntityReference result" where
  "validate_entity_reference value =
     (let parse = (\<lambda>raw.
        let (identifier, separator, domain) = partition_at raw
        in rbind (validate_snowflake (PStr identifier))
             (\<lambda>parsed. if \<not> separator then EntityReference_post_init \<lparr>er_id = parsed, er_domain = None\<rparr>
                       else if domain = [] \<or> 64 \<in> set domain \<or> \<not> DOMAIN_RE domain
                       then Inl (ValueError ''entity reference domain is invalid'')
                       else EntityReference_post_init \<lparr>er_id = parsed, er_domain = Some domain\<rparr>))
      in case value of
           PBool _ \<Rightarrow> Inl (ValueError ''entity reference must be a decimal ID with an optional origin domain'')
         | PStr raw \<Rightarrow> parse raw
         | PInt i \<Rightarrow> parse (ucs (string_of_int i))
         | _ \<Rightarrow> Inl (ValueError ''snowflake must be a canonical unsigned decimal string''))"

text \<open>\<open>EntityRef(value)\<close>: the canonical spelling of an accepted reference.\<close>

definition EntityRef :: "ustr \<Rightarrow> ustr result" where
  "EntityRef value = rbind (validate_entity_reference (PStr value)) (\<lambda>r. Inr (reference_str r))"

section \<open>Parsing and printing\<close>

lemma ucs_string_of_int: "0 \<le> i \<Longrightarrow> ucs (string_of_int i) = str_nat (nat i)"
  by (simp add: string_of_int_def ucs_def digits_chars)

definition snowflake_range :: "int \<Rightarrow> bool" where
  "snowflake_range n \<longleftrightarrow> 0 \<le> n \<and> n < 2 ^ 63"

lemma max_snowflake: "n \<le> MAX_SNOWFLAKE \<longleftrightarrow> n < 2 ^ 63"
  by (simp add: MAX_SNOWFLAKE_def push_bit_eq_mult) linarith

lemma str_nat_length: "length (str_nat n) \<le> Suc k \<or> 10 ^ Suc k \<le> n"
proof (induction n arbitrary: k rule: str_nat.induct)
  case (1 n)
  show ?case
  proof (cases "n < 10")
    case True
    then show ?thesis by (simp add: str_nat.simps [of n])
  next
    case False
    show ?thesis
    proof (cases k)
      case (Suc j)
      from 1 [OF False, of j] show ?thesis
      proof
        assume "10 ^ Suc j \<le> n div 10"
        then have "10 ^ Suc j * 10 \<le> n" by (simp add: less_eq_div_iff_mult_less_eq)
        then show ?thesis by (simp add: Suc)
      qed (use False Suc in \<open>simp add: str_nat.simps [of n]\<close>)
    qed (use False in simp)
  qed
qed

lemma str_nat_short: "snowflake_range n \<Longrightarrow> length (str_nat (nat n)) \<le> 19"
proof -
  assume "snowflake_range n"
  then have "nat n < 10 ^ Suc 18" by (simp add: snowflake_range_def nat_less_iff)
  then show ?thesis using str_nat_length [of "nat n" 18] by linarith
qed

lemma validate_snowflake_PStr:
  "validate_snowflake (PStr s) = Inr n \<longleftrightarrow> snowflake_range n \<and> s = str_nat (nat n)" (is "?l \<longleftrightarrow> ?r")
proof
  assume ?l
  then have c: "canonical_decimal s" and n: "n = int (nat_of_str s)" and r: "snowflake_range n"
    by (auto simp: validate_snowflake_def canonical_decimal_def snowflake_range_def max_snowflake Let_def split: if_splits)
  then show ?r using str_nat_nat_of_str [OF c] by simp
next
  assume ?r
  moreover from this have "length s \<le> 4300" using str_nat_short [of n] by simp
  moreover have "canonical_decimal s" using \<open>?r\<close> canonical_str_nat by simp
  ultimately show ?l
    by (auto simp: validate_snowflake_def canonical_decimal_def snowflake_range_def max_snowflake Let_def)
qed

lemma validate_snowflake_PInt: "validate_snowflake (PInt i) = Inr n \<longleftrightarrow> n = i \<and> snowflake_range i"
  by (auto simp: validate_snowflake_def snowflake_range_def max_snowflake Let_def)

lemma partition_at_plain: "64 \<notin> set s \<Longrightarrow> partition_at s = (s, False, [])"
  by (induction s) auto

lemma partition_at_sep: "64 \<notin> set s \<Longrightarrow> partition_at (s @ 64 # d) = (s, True, d)"
  by (induction s) auto

lemma partition_at_join: "partition_at raw = (a, sep, d) \<Longrightarrow> raw = (if sep then a @ 64 # d else a)"
  by (induction raw arbitrary: a sep d) (auto split: if_splits prod.splits)

lemma str_nat_no_at: "64 \<notin> set (str_nat n)"
  using str_nat_digits [of n] by (auto simp: list_all_iff is_digit_def)

lemma split_at_mem: "x \<in> set s \<Longrightarrow> x \<noteq> sep \<Longrightarrow> \<exists>p\<in>set (split_at sep s). x \<in> set p"
proof (induction sep s rule: split_at.induct)
  case (2 sep c s)
  then show ?case by (auto split: list.splits)
qed simp

lemma DOMAIN_RE_no_at: "DOMAIN_RE d \<Longrightarrow> d \<noteq> [] \<and> 64 \<notin> set d"
  using split_at_mem [of 64 d 46]
  by (fastforce simp: DOMAIN_RE_def is_label_def is_label_char_def is_digit_def list_all_iff)

lemma post_init_Inr:
  "EntityReference_post_init r = Inr r' \<longleftrightarrow>
     r' = r \<and> snowflake_range (er_id r) \<and> (case er_domain r of None \<Rightarrow> True | Some d \<Rightarrow> DOMAIN_RE d)"
  by (auto simp: EntityReference_post_init_def result_simps validate_snowflake_PInt split: option.splits if_splits)

section \<open>Properties\<close>

text \<open>
  C25: Parsing and printing of federated references are inverse: a string is accepted as a reference exactly when
  it is the printed form of that reference and the reference is well formed (identifier in the BIGINT range, domain,
  if any, a normalised fully-qualified domain). No second spelling is accepted, so the canonical form of an
  accepted string is the string itself.
\<close>

theorem entity_reference_roundtrip:
  "(validate_entity_reference (PStr s) = Inr r \<longleftrightarrow> EntityReference_post_init r = Inr r \<and> s = reference_str r) \<and>
   (EntityRef s = Inr t \<longleftrightarrow> t = s \<and> is_ok (validate_entity_reference (PStr s)))"
proof -
  have parse: "validate_entity_reference (PStr s) = Inr r \<longleftrightarrow> EntityReference_post_init r = Inr r \<and> s = reference_str r" for r
  proof
    assume l: "validate_entity_reference (PStr s) = Inr r"
    obtain a sep d where p: "partition_at s = (a, sep, d)" by (cases "partition_at s")
    have s: "s = (if sep then a @ 64 # d else a)" by (rule partition_at_join [OF p])
    from l obtain n where n: "snowflake_range n" "a = str_nat (nat n)"
      and r: "r = \<lparr>er_id = n, er_domain = if sep then Some d else None\<rparr>" "EntityReference_post_init r = Inr r"
      by (auto simp: validate_entity_reference_def p result_simps validate_snowflake_PStr post_init_Inr split: if_splits)
    then show "EntityReference_post_init r = Inr r \<and> s = reference_str r"
      using s by (simp add: reference_str_def ucs_string_of_int snowflake_range_def)
  next
    assume rhs: "EntityReference_post_init r = Inr r \<and> s = reference_str r"
    then have id: "snowflake_range (er_id r)" by (simp add: post_init_Inr)
    then have snow: "validate_snowflake (PStr (str_nat (nat (er_id r)))) = Inr (er_id r)"
      by (simp add: validate_snowflake_PStr)
    show "validate_entity_reference (PStr s) = Inr r"
    proof (cases "er_domain r")
      case None
      then show ?thesis
        using rhs id snow
        by (cases r) (simp add: validate_entity_reference_def reference_str_def ucs_string_of_int snowflake_range_def
            partition_at_plain str_nat_no_at)
    next
      case (Some d)
      then have "DOMAIN_RE d" using rhs by (simp add: post_init_Inr)
      then show ?thesis
        using rhs id snow Some DOMAIN_RE_no_at [of d]
        by (cases r) (simp add: validate_entity_reference_def reference_str_def ucs_string_of_int snowflake_range_def
            partition_at_sep str_nat_no_at)
    qed
  qed
  have "EntityRef s = Inr t \<longleftrightarrow> t = s \<and> is_ok (validate_entity_reference (PStr s))"
    by (auto simp: EntityRef_def result_simps is_ok_iff parse)
  with parse show ?thesis by blast
qed

text \<open>
  A wire identifier is accepted exactly when it is the canonical decimal string of a number in the non-negative
  BIGINT range, whose value is returned; JSON numbers, signs, leading zeros and other digits are refused.
\<close>

theorem wire_snowflake_exact:
  "validate_wire_snowflake v = Inr n \<longleftrightarrow> 0 \<le> n \<and> n < 2 ^ 63 \<and> v = PStr (str_nat (nat n))"
  by (cases v) (auto simp: validate_wire_snowflake_def validate_snowflake_PStr snowflake_range_def)

end
