(* ===== verification/Installations.thy ===== *)
theory Installations
  imports Guild_Store "HOL-Library.List_Lexorder"
begin

text \<open>
  Bot installations (\<open>bots/installations.py\<close>): the canonical form of channel restrictions, the
  ancestor-aware restriction check, and the query for the active installation of a bot in a guild, with the
  runtime projection of a foreign application (\<open>bots/runtime_control.py\<close>).
\<close>

section \<open>Channel restrictions\<close>

definition normalize_channel_restrictions :: "ustr list \<Rightarrow> ustr list" where
  "normalize_channel_restrictions restrictions = sort (remdups (filter (\<lambda>s. s \<noteq> []) (map strip restrictions)))"

definition restriction_matches :: "ustr set \<Rightarrow> int \<Rightarrow> string \<Rightarrow> bool" where
  "restriction_matches restrictions channel_id channel_domain \<longleftrightarrow>
     ucs (string_of_int channel_id) \<in> restrictions \<or>
     ucs (string_of_int channel_id @ ''@'' @ channel_domain) \<in> restrictions"

definition channel_restrictions_allow :: "Session \<Rightarrow> ustr list \<Rightarrow> Channel \<Rightarrow> bool" where
  "channel_restrictions_allow session restrictions channel =
     (let normalized = set (normalize_channel_restrictions restrictions); is_thread = c_type channel \<in> {10, 11, 12}
      in if normalized = {} then True
         else if restriction_matches normalized (c_id channel) (c_origin_domain channel) then True
         else if c_parent_id channel = None \<or> c_parent_domain channel = None then False
         else case get_channel session (c_parent_id channel) (c_parent_domain channel) of
                None \<Rightarrow> False
              | Some parent \<Rightarrow>
                  if c_unavailable parent \<or> c_guild parent \<noteq> c_guild channel \<or>
                     c_type parent \<notin> (if is_thread then {0, 5, 15} else {4})
                  then False
                  else if restriction_matches normalized (c_id parent) (c_origin_domain parent) then True
                  else if \<not> is_thread \<or> c_parent_id parent = None \<or> c_parent_domain parent = None then False
                  else case get_channel session (c_parent_id parent) (c_parent_domain parent) of
                         None \<Rightarrow> False
                       | Some category \<Rightarrow>
                           \<not> c_unavailable category \<and> c_type category = 4 \<and> c_guild category = c_guild channel \<and>
                           restriction_matches normalized (c_id category) (c_origin_domain category))"

definition installation_allows_channel :: "Session \<Rightarrow> BotInstallation \<Rightarrow> Channel \<Rightarrow> bool" where
  "installation_allows_channel session installation channel \<longleftrightarrow>
     \<not> c_unavailable channel \<and>
     c_guild channel = (Some (bi_guild_id installation), Some (bi_guild_domain installation)) \<and>
     channel_restrictions_allow session (bi_channel_restrictions installation) channel"

text \<open>The reference arrives resolved against the guild's domain; a reference that does not parse is \<open>None\<close>.\<close>

definition installation_accessible_channel ::
  "Session \<Rightarrow> BotInstallation \<Rightarrow> Guild \<Rightarrow> entity_ref option \<Rightarrow> Channel option" where
  "installation_accessible_channel session installation guild channel_ref =
     (if (bi_guild_id installation, bi_guild_domain installation) \<noteq> g_ref guild then None
      else case channel_ref of
             None \<Rightarrow> None
           | Some (channel_id, channel_domain) \<Rightarrow>
               (case get_channel session (Some channel_id) (Some channel_domain) of
                  None \<Rightarrow> None
                | Some channel \<Rightarrow>
                    if c_unavailable channel \<or> c_origin_domain channel \<noteq> g_origin_domain guild \<or>
                       c_guild channel \<noteq> (Some (g_id guild), Some (g_origin_domain guild)) \<or>
                       \<not> installation_allows_channel session installation channel
                    then None else Some channel))"

section \<open>Active installations\<close>

definition installation_has_membership :: "GuildMember list \<Rightarrow> BotInstallation \<Rightarrow> bool" where
  "installation_has_membership members installation =
     list_ex (\<lambda>m. (gm_guild_id m, gm_guild_domain m) = (bi_guild_id installation, bi_guild_domain installation) \<and>
                 (gm_user_id m, gm_user_domain m) = (bi_bot_user_id installation, bi_bot_user_domain installation))
       members"

definition usable_guild_installation :: "Session \<Rightarrow> BotInstallation \<Rightarrow> bool" where
  "usable_guild_installation session installation \<longleftrightarrow>
     bi_status installation = ''active'' \<and> bi_revoked_at installation = None \<and>
     installation_has_membership (s_members session) installation"

definition application_runtime_projection_exists :: "Session \<Rightarrow> BotApplication \<Rightarrow> string \<Rightarrow> bool" where
  "application_runtime_projection_exists session app target_domain =
     list_ex (\<lambda>t. bt_application_id t = ba_id app \<and> bt_application_domain t = ba_origin_domain app \<and>
                 bt_target_domain t = target_domain \<and> bt_runtime_fingerprint t \<noteq> None \<and>
                 ba_manifest_generation app \<le> bt_runtime_manifest_generation t \<and>
                 ba_revocation_generation app \<le> bt_runtime_revocation_generation t \<and>
                 bt_runtime_status t = ''active'' \<and> bt_runtime_target_allowed t)
       (s_targets session)"

definition bot_actor_active_installations :: "Session \<Rightarrow> Guild \<Rightarrow> User \<Rightarrow> BotInstallation list" where
  "bot_actor_active_installations session guild actor =
     map fst (filter (\<lambda>(i, app).
         ba_id app = bi_application_id i \<and> ba_origin_domain app = bi_application_domain i \<and>
         (bi_guild_id i, bi_guild_domain i) = g_ref guild \<and>
         (bi_bot_user_id i, bi_bot_user_domain i) = u_ref actor \<and>
         usable_guild_installation session i \<and>
         ba_status app = ''active'' \<and> (ba_bot_user_id app, ba_bot_user_domain app) = u_ref actor \<and>
         (ba_origin_domain app = g_origin_domain guild \<or>
          application_runtime_projection_exists session app (g_origin_domain guild)))
       (List.product (s_installations session) (s_applications session)))"

record BotUserInstallation =
  bu_status :: string
  bu_revoked_at :: "int option"
  bu_user_domain :: string
  bu_authority_expires_at :: "int option"

text \<open>Expiry timestamps of the rows carry their timezone.\<close>

definition user_installation_is_usable :: "BotUserInstallation \<Rightarrow> string \<Rightarrow> int \<Rightarrow> bool" where
  "user_installation_is_usable installation current_instance_domain current =
     (if bu_status installation \<noteq> ''active'' \<or> bu_revoked_at installation \<noteq> None then False
      else if bu_user_domain installation = current_instance_domain then True
      else case bu_authority_expires_at installation of None \<Rightarrow> False | Some expires_at \<Rightarrow> current < expires_at)"

text \<open>The SQL condition of the same fence.\<close>

definition usable_user_installation :: "BotUserInstallation \<Rightarrow> string \<Rightarrow> int \<Rightarrow> bool" where
  "usable_user_installation installation current_instance_domain current \<longleftrightarrow>
     bu_status installation = ''active'' \<and> bu_revoked_at installation = None \<and>
     (bu_user_domain installation = current_instance_domain \<or>
      (bu_authority_expires_at installation \<noteq> None \<and> current < the (bu_authority_expires_at installation)))"

section \<open>Facts\<close>

lemma set_normalize_channel_restrictions:
  "set (normalize_channel_restrictions rs) = {strip r |r. r \<in> set rs \<and> strip r \<noteq> []}"
  by (auto simp: normalize_channel_restrictions_def)

lemma normalize_channel_restrictions_canonical:
  "sorted (normalize_channel_restrictions rs) \<and> distinct (normalize_channel_restrictions rs)"
  by (simp add: normalize_channel_restrictions_def)

lemma normalize_channel_restrictions_idem [simp]:
  "normalize_channel_restrictions (normalize_channel_restrictions rs) = normalize_channel_restrictions rs"
proof -
  define ns where "ns = normalize_channel_restrictions rs"
  have "map strip ns = ns" and "filter (\<lambda>s. s \<noteq> []) ns = ns"
    by (auto intro!: map_idI filter_True simp: ns_def set_normalize_channel_restrictions)
  moreover have "sorted ns" "distinct ns" unfolding ns_def using normalize_channel_restrictions_canonical by blast+
  ultimately show ?thesis
    unfolding ns_def [symmetric] by (simp add: normalize_channel_restrictions_def [of ns] distinct_remdups_id sort_key_id_if_sorted)
qed

text \<open>The ancestors of a channel through which a restriction may admit it, each with its edge check.\<close>

definition restriction_ancestors :: "Session \<Rightarrow> Channel \<Rightarrow> Channel set" where
  "restriction_ancestors session channel =
     {channel} \<union>
     {p. get_channel session (c_parent_id channel) (c_parent_domain channel) = Some p \<and> \<not> c_unavailable p \<and>
         c_guild p = c_guild channel \<and> (if c_type channel \<in> {10, 11, 12} then c_type p \<in> {0, 5, 15} else c_type p = 4)} \<union>
     {k. c_type channel \<in> {10, 11, 12} \<and>
         (\<exists>p. get_channel session (c_parent_id channel) (c_parent_domain channel) = Some p \<and> \<not> c_unavailable p \<and>
              c_guild p = c_guild channel \<and> c_type p \<in> {0, 5, 15} \<and>
              get_channel session (c_parent_id p) (c_parent_domain p) = Some k \<and> \<not> c_unavailable k \<and>
              c_type k = 4 \<and> c_guild k = c_guild channel)}"

lemma get_channel_None_iff: "get_channel s i d = Some c \<Longrightarrow> i \<noteq> None \<and> d \<noteq> None"
  by (auto simp: get_channel_def split: option.splits)

lemma channel_restrictions_allow_iff:
  "channel_restrictions_allow session restrictions channel \<longleftrightarrow>
     normalize_channel_restrictions restrictions = [] \<or>
     (\<exists>a\<in>restriction_ancestors session channel.
        restriction_matches (set (normalize_channel_restrictions restrictions)) (c_id a) (c_origin_domain a))"
proof (cases "get_channel session (c_parent_id channel) (c_parent_domain channel)")
  case None
  then show ?thesis by (auto simp: channel_restrictions_allow_def restriction_ancestors_def Let_def)
next
  case parent: (Some p)
  then have ids: "c_parent_id channel \<noteq> None" "c_parent_domain channel \<noteq> None" by (auto dest: get_channel_None_iff)
  show ?thesis
  proof (cases "get_channel session (c_parent_id p) (c_parent_domain p)")
    case None
    then show ?thesis
      using ids by (auto simp: channel_restrictions_allow_def restriction_ancestors_def Let_def parent)
  next
    case (Some k)
    then have "c_parent_id p \<noteq> None" "c_parent_domain p \<noteq> None" by (auto dest: get_channel_None_iff)
    then show ?thesis
      using ids Some by (auto simp: channel_restrictions_allow_def restriction_ancestors_def Let_def parent)
  qed
qed

lemma channel_restrictions_allow_normalized [simp]:
  "channel_restrictions_allow session (normalize_channel_restrictions rs) c = channel_restrictions_allow session rs c"
  by (simp add: channel_restrictions_allow_iff)

section \<open>Properties\<close>

text \<open>
  A channel is inside an installation's restrictions exactly when there are none or one of them names the
  channel itself, its valid parent, or, for a thread, the valid category of its parent, by bare or qualified identifier:
  every ancestor must be available, of the right type and in the channel's guild. The canonical form of the
  restrictions is sorted, free of duplicates and stable, and checking it instead of the raw list changes nothing.
\<close>

theorem channel_restrictions_allow_exact:
  "(channel_restrictions_allow session restrictions channel \<longleftrightarrow>
      normalize_channel_restrictions restrictions = [] \<or>
      (\<exists>a\<in>restriction_ancestors session channel. \<exists>r\<in>set restrictions.
         strip r = ucs (string_of_int (c_id a)) \<or> strip r = ucs (string_of_int (c_id a) @ ''@'' @ c_origin_domain a))) \<and>
   channel_restrictions_allow session (normalize_channel_restrictions restrictions) channel =
     channel_restrictions_allow session restrictions channel \<and>
   sorted (normalize_channel_restrictions restrictions) \<and> distinct (normalize_channel_restrictions restrictions)"
proof (intro conjI)
  have ne: "ucs (string_of_int i) \<noteq> []" "ucs (string_of_int i @ t) \<noteq> []" for i t
    by (auto simp: string_of_int_def ucs_def)
  show "channel_restrictions_allow session restrictions channel \<longleftrightarrow>
      normalize_channel_restrictions restrictions = [] \<or>
      (\<exists>a\<in>restriction_ancestors session channel. \<exists>r\<in>set restrictions.
         strip r = ucs (string_of_int (c_id a)) \<or> strip r = ucs (string_of_int (c_id a) @ ''@'' @ c_origin_domain a))"
    unfolding channel_restrictions_allow_iff restriction_matches_def set_normalize_channel_restrictions
    using ne by (intro disj_cong bex_cong refl) (auto, metis+)
qed (simp_all add: channel_restrictions_allow_iff normalize_channel_restrictions_canonical)

end
