(* ===== verification/Permission_Access.thy ===== *)
theory Permission_Access
  imports Permission_Resolution Installations
begin

text \<open>
  Effective permissions of a guild actor (\<open>chat/permissions.py\<close>): loading the member's roles and the overwrites of the
  effective channel, the installation grant of bots, the rules gate of onboarding
  (\<open>chat/onboarding.py\<close>), the Redis cache around the calculation and the guard the routes call. Timestamps are
  microseconds; Redis replies are arguments, one per read.
\<close>

section \<open>Guards and grants\<close>

definition require_permission_channel_guild :: "Guild \<Rightarrow> Channel option \<Rightarrow> error option" where
  "require_permission_channel_guild guild channel =
     (case channel of
        None \<Rightarrow> None
      | Some c \<Rightarrow> if c_guild c \<noteq> (Some (g_id guild), Some (g_origin_domain guild))
                 then Some (HTTPException 409 ''CHANNEL_GUILD_INVALID'') else None)"

record BotGuildPermissionGrant =
  bg_installation_id :: "int option"
  bg_grant_revision :: int
  bg_granted_permissions :: int
  bg_channel_restrictions :: "ustr list"

definition no_grant :: BotGuildPermissionGrant where
  "no_grant = \<lparr>bg_installation_id = None, bg_grant_revision = 0, bg_granted_permissions = 0, bg_channel_restrictions = []\<rparr>"

definition grant_allows_channel :: "Session \<Rightarrow> BotGuildPermissionGrant \<Rightarrow> Channel \<Rightarrow> bool" where
  "grant_allows_channel session grant channel =
     channel_restrictions_allow session (bg_channel_restrictions grant) channel"

definition grant_apply :: "Session \<Rightarrow> BotGuildPermissionGrant \<Rightarrow> int \<Rightarrow> Channel option \<Rightarrow> int" where
  "grant_apply session grant live_permissions channel =
     (if bg_installation_id grant = None then 0
      else case channel of
             None \<Rightarrow> live_permissions
           | Some c \<Rightarrow>
               if \<not> grant_allows_channel session grant c then 0
               else normalize_permission_dependencies live_permissions (Some (c_type c)) False)"

definition bot_guild_permission_grant_from_installation :: "BotInstallation \<Rightarrow> BotGuildPermissionGrant" where
  "bot_guild_permission_grant_from_installation installation =
     \<lparr>bg_installation_id = Some (bi_id installation), bg_grant_revision = bi_grant_revision installation,
      bg_granted_permissions = bi_granted_permissions installation,
      bg_channel_restrictions = normalize_channel_restrictions (bi_channel_restrictions installation)\<rparr>"

definition bot_guild_permission_grant :: "Session \<Rightarrow> Guild \<Rightarrow> User \<Rightarrow> BotGuildPermissionGrant option" where
  "bot_guild_permission_grant session guild actor =
     (if u_account_type actor \<noteq> ''bot'' then None
      else if u_disabled_at actor \<noteq> None then Some no_grant
      else case take 2 (bot_actor_active_installations session guild actor) of
             [installation] \<Rightarrow> Some (bot_guild_permission_grant_from_installation installation)
           | _ \<Rightarrow> Some no_grant)"

fun require_grant_channels :: "Session \<Rightarrow> Guild \<Rightarrow> BotGuildPermissionGrant \<Rightarrow> Channel list \<Rightarrow> error option" where
  "require_grant_channels session guild grant [] = None"
| "require_grant_channels session guild grant (channel # channels) =
     (if c_unavailable channel \<or> c_origin_domain channel \<noteq> g_origin_domain guild \<or>
         c_guild channel \<noteq> (Some (g_id guild), Some (g_origin_domain guild)) \<or>
         \<not> grant_allows_channel session grant channel
      then Some (HTTPException 403 ''BOT_CHANNEL_RESTRICTED'')
      else require_grant_channels session guild grant channels)"

definition require_bot_channel_grant :: "Session \<Rightarrow> Guild \<Rightarrow> User \<Rightarrow> Channel list \<Rightarrow> error option" where
  "require_bot_channel_grant session guild actor channels =
     (if u_account_type actor \<noteq> ''bot'' then None
      else case bot_guild_permission_grant session guild actor of
             None \<Rightarrow> Some (HTTPException 403 ''BOT_NOT_INSTALLED'')
           | Some grant \<Rightarrow>
               if bg_installation_id grant = None then Some (HTTPException 403 ''BOT_NOT_INSTALLED'')
               else require_grant_channels session guild grant channels)"

definition needs_rules :: "(pyval \<times> pyval) list option \<Rightarrow> (pyval \<times> pyval) list option \<Rightarrow> bool" where
  "needs_rules config state =
     (let c = (case config of Some d \<Rightarrow> d | None \<Rightarrow> []); s = (case state of Some d \<Rightarrow> d | None \<Rightarrow> [])
      in truthy (dict_get c ''enabled'') \<and> truthy (dict_get c ''rules'') \<and>
         \<not> py_eq (dict_get s ''rules_revision'') (dict_get c ''rules_revision''))"

section \<open>The calculation\<close>

definition permission_roles :: "Session \<Rightarrow> Guild \<Rightarrow> User \<Rightarrow> Role list" where
  "permission_roles session guild actor =
     filter (\<lambda>role. (r_guild_id role, r_guild_domain role) = g_ref guild \<and>
        (r_id role = g_id guild \<or>
         list_ex (\<lambda>mr. (mr_role_id mr, mr_role_domain mr) = (r_id role, r_origin_domain role) \<and>
                      (mr_guild_id mr, mr_guild_domain mr) = g_ref guild \<and>
                      (mr_user_id mr, mr_user_domain mr) = u_ref actor) (s_member_roles session)))
       (s_roles session)"

text \<open>The channel whose overwrites apply: a thread's parent, and the category of a synchronised channel.\<close>

definition thread_overwrite_channel :: "Session \<Rightarrow> Guild \<Rightarrow> Channel \<Rightarrow> Channel result" where
  "thread_overwrite_channel session guild channel =
     (if c_type channel \<in> {10, 11, 12}
      then (case get_channel session (c_parent_id channel) (c_parent_domain channel) of
              Some parent \<Rightarrow>
                if c_type parent \<notin> {0, 5, 15} \<or> c_guild parent \<noteq> (Some (g_id guild), Some (g_origin_domain guild))
                then Inl (HTTPException 409 ''CHANNEL_PARENT_INVALID'') else Inr parent
            | None \<Rightarrow> Inl (HTTPException 409 ''CHANNEL_PARENT_INVALID''))
      else Inr channel)"

definition synced_overwrite_channel :: "Session \<Rightarrow> Guild \<Rightarrow> Channel \<Rightarrow> Channel result" where
  "synced_overwrite_channel session guild channel =
     (if c_parent_id channel \<noteq> None \<and> c_permissions_synced channel
      then (case get_channel session (c_parent_id channel) (c_parent_domain channel) of
              Some parent \<Rightarrow>
                if c_type parent \<noteq> 4 \<or> c_guild parent \<noteq> (Some (g_id guild), Some (g_origin_domain guild))
                then Inl (HTTPException 409 ''CHANNEL_PARENT_INVALID'') else Inr parent
            | None \<Rightarrow> Inl (HTTPException 409 ''CHANNEL_PARENT_INVALID''))
      else Inr channel)"

definition channel_overwrites :: "Session \<Rightarrow> Channel \<Rightarrow> PermissionOverwrite list" where
  "channel_overwrites session channel =
     map (\<lambda>o1. \<lparr>po_target_id = co_target_id o1, po_target_domain = co_target_domain o1, po_target_type = co_target_type o1,
               po_allow = co_allow o1, po_deny = co_deny o1\<rparr>)
       (filter (\<lambda>o1. (co_channel_id o1, co_channel_domain o1) = c_ref channel) (s_overwrites session))"

definition effective_overwrites :: "Session \<Rightarrow> Guild \<Rightarrow> Channel option \<Rightarrow> PermissionOverwrite list result" where
  "effective_overwrites session guild channel =
     (case channel of
        None \<Rightarrow> Inr []
      | Some c \<Rightarrow>
          rbind (thread_overwrite_channel session guild c)
            (\<lambda>d. rbind (synced_overwrite_channel session guild d) (\<lambda>e. Inr (channel_overwrites session e))))"

definition member_timed_out :: "GuildMember \<Rightarrow> int \<Rightarrow> bool" where
  "member_timed_out member current \<longleftrightarrow>
     gm_timeout_indefinite member \<or> (case gm_timeout_until member of None \<Rightarrow> False | Some until \<Rightarrow> current < until)"

text \<open>The steps after overwrite resolution: private threads, the bot grant and the rules gate.\<close>

definition private_thread_gate :: "Session \<Rightarrow> User \<Rightarrow> Channel option \<Rightarrow> int \<Rightarrow> int" where
  "private_thread_gate session actor channel permissions =
     (case channel of
        None \<Rightarrow> permissions
      | Some c \<Rightarrow>
          if c_type c = 12 \<and> \<not> has permissions MANAGE_THREADS \<and> (c_ref c, u_ref actor) \<notin> set (s_thread_members session)
          then 0 else permissions)"

definition rules_gate :: "Guild \<Rightarrow> User \<Rightarrow> GuildMember \<Rightarrow> int \<Rightarrow> int" where
  "rules_gate guild actor member permissions =
     (if u_account_type actor \<noteq> ''bot'' \<and> \<not> has permissions ADMINISTRATOR \<and>
         needs_rules (g_onboarding guild) (gm_onboarding_state member)
      then permissions AND TIMEOUT_ALLOWED else permissions)"

text \<open>What the roles and overwrites of the member give, before the gates.\<close>

definition live_permissions ::
  "Session \<Rightarrow> Guild \<Rightarrow> User \<Rightarrow> Channel option \<Rightarrow> PermissionOverwrite list \<Rightarrow> GuildMember \<Rightarrow> int \<Rightarrow> int" where
  "live_permissions session guild actor channel overwrites member current =
     (let roles = permission_roles session guild actor
      in resolve_permissions (g_owner guild = u_ref actor) (u_ref actor) (g_ref guild)
           ((\<lambda>role. (r_id role, r_origin_domain role)) ` set roles) (or_list (map r_permissions roles)) overwrites
           (map_option c_type channel) (member_timed_out member current))"

definition calculate_permissions ::
  "Session \<Rightarrow> Guild \<Rightarrow> User \<Rightarrow> Channel option \<Rightarrow> BotGuildPermissionGrant option \<Rightarrow> int \<Rightarrow> (int \<times> GuildMember) result" where
  "calculate_permissions session guild actor channel bot_grant current =
     (case require_permission_channel_guild guild channel of
        Some e \<Rightarrow> Inl e
      | None \<Rightarrow>
          (case find_member session guild (u_ref actor) of
             None \<Rightarrow> Inl (HTTPException 404 ''GUILD_NOT_FOUND'')
           | Some member \<Rightarrow>
               rbind (effective_overwrites session guild channel)
                 (\<lambda>overwrites.
                    let permissions = private_thread_gate session actor channel
                          (live_permissions session guild actor channel overwrites member current);
                        grant = (case bot_grant of Some g \<Rightarrow> Some g | None \<Rightarrow> bot_guild_permission_grant session guild actor);
                        permissions = (case grant of None \<Rightarrow> permissions | Some g \<Rightarrow> grant_apply session g permissions channel)
                    in Inr (rules_gate guild actor member permissions, member))))"

section \<open>The cache\<close>

text \<open>Seconds; \<open>math.ceil\<close> of the remaining time.\<close>

definition permission_cache_ttl :: "GuildMember \<Rightarrow> int \<Rightarrow> int" where
  "permission_cache_ttl member evaluated_at =
     (case gm_timeout_until member of
        None \<Rightarrow> 300
      | Some until \<Rightarrow>
          if gm_timeout_indefinite member then 300
          else let remaining = until - evaluated_at
               in if remaining \<le> 0 then 300 else max 1 (min 300 (- (- remaining div 1000000))))"

text \<open>The formatted keys as their colon-separated parts; \<open>sha256\<close> is the hexadecimal digest.\<close>

definition cache_identity :: "(ustr \<Rightarrow> string) \<Rightarrow> BotGuildPermissionGrant \<Rightarrow> string list" where
  "cache_identity sha256 grant =
     [''bot'', case bg_installation_id grant of
                 Some i \<Rightarrow> if i = 0 then ''missing'' else string_of_int i | None \<Rightarrow> ''missing'',
      string_of_int (bg_grant_revision grant), string_of_int (bg_granted_permissions grant),
      sha256 (join_with 10 (bg_channel_restrictions grant))]"

definition scope_parts :: "Channel option \<Rightarrow> string list" where
  "scope_parts channel =
     (case channel of Some c \<Rightarrow> [c_origin_domain c, string_of_int (c_id c)] | None \<Rightarrow> [''guild''])"

definition cache_scope ::
  "(ustr \<Rightarrow> string) \<Rightarrow> Guild \<Rightarrow> User \<Rightarrow> GuildMember \<Rightarrow> Channel option \<Rightarrow> BotGuildPermissionGrant option \<Rightarrow> string list" where
  "cache_scope sha256 guild actor member channel bot_grant =
     [g_origin_domain guild, string_of_int (g_id guild), string_of_int (g_permission_generation guild),
      u_origin_domain actor, string_of_int (u_id actor), string_of_int (gm_member_version member)] @
     scope_parts channel @ (case bot_grant of None \<Rightarrow> [] | Some g \<Rightarrow> cache_identity sha256 g)"

definition cache_key ::
  "(ustr \<Rightarrow> string) \<Rightarrow> Guild \<Rightarrow> User \<Rightarrow> GuildMember \<Rightarrow> Channel option \<Rightarrow> BotGuildPermissionGrant option \<Rightarrow> string" where
  "cache_key sha256 guild actor member channel bot_grant =
     join_with (CHR '':'') ([''perm'', ''v2''] @ cache_scope sha256 guild actor member channel bot_grant)"

definition stale_key :: "Guild \<Rightarrow> User \<Rightarrow> Channel option \<Rightarrow> string" where
  "stale_key guild actor channel =
     join_with (CHR '':'') ([''perm'', ''v2'', ''stale'', g_origin_domain guild, string_of_int (g_id guild),
       u_origin_domain actor, string_of_int (u_id actor)] @ scope_parts channel)"

text \<open>
  What Redis answers during one call: \<open>cr_get i k\<close> is the reply to the \<open>i\<close>-th read of the call when it asks for
  the key \<open>k\<close> (other callers write between the reads), \<open>cr_set_nx\<close> whether a lock key was free. A reply is
  missing, an integer, or text that \<open>int\<close> refuses.
\<close>

datatype cached = Missing | is_cached: Cached int | Garbage

record cache_replies =
  cr_get :: "nat \<Rightarrow> string \<Rightarrow> cached"
  cr_set_nx :: "string \<Rightarrow> bool"

text \<open>
  The commands a call sends to the store, in order: a read, a value with its time to live, a deletion, the request for the
  lock, and its release, which deletes the lock only while it still holds the caller's token.
\<close>

datatype redis_command = Get string | SetEx string int int | Delete string | SetNx string int | ReleaseLock string

definition lock_key ::
  "(ustr \<Rightarrow> string) \<Rightarrow> Guild \<Rightarrow> User \<Rightarrow> GuildMember \<Rightarrow> Channel option \<Rightarrow> BotGuildPermissionGrant option \<Rightarrow> string" where
  "lock_key sha256 guild actor member channel bot_grant =
     join_with (CHR '':'') ([''perm'', ''v2'', ''lock''] @ cache_scope sha256 guild actor member channel bot_grant)"

definition drop_garbage :: "string \<Rightarrow> cached \<Rightarrow> redis_command list" where
  "drop_garbage key reply = (if reply = Garbage then [Delete key] else [])"

text \<open>The polling loop over the remaining reads: the first integer under the key ends it.\<close>

fun poll_cache :: "cache_replies \<Rightarrow> string \<Rightarrow> nat list \<Rightarrow> int option \<times> redis_command list" where
  "poll_cache redis key [] = (None, [])"
| "poll_cache redis key (i # reads) =
     (case cr_get redis i key of
        Cached v \<Rightarrow> (Some v, [Get key])
      | reply \<Rightarrow> (case poll_cache redis key reads of
          (found, sent) \<Rightarrow> (found, Get key # drop_garbage key reply @ sent)))"

text \<open>
  After a miss, which was read number 0: without the lock a cached denial under the stale key (read number 1) or a value that
  another caller publishes under the key (the twenty polls) is served, else the mask is calculated.
\<close>

definition permissions_after_miss ::
  "(ustr \<Rightarrow> string) \<Rightarrow> Session \<Rightarrow> cache_replies \<Rightarrow> Guild \<Rightarrow> User \<Rightarrow> GuildMember \<Rightarrow> Channel option \<Rightarrow> BotGuildPermissionGrant option \<Rightarrow> int
   \<Rightarrow> int result \<times> redis_command list" where
  "permissions_after_miss sha256 session redis guild actor member channel grant current =
     (let calculated = calculate_permissions session guild actor channel grant current;
          key = cache_key sha256 guild actor member channel grant;
          stale = stale_key guild actor channel;
          lock = lock_key sha256 guild actor member channel grant
      in if \<not> cr_set_nx redis lock
         then let denial = cr_get redis 1 stale
              in if denial = Cached 0 then (Inr 0, [SetNx lock 5, Get stale])
                 else (case poll_cache redis key [2..<22] of
                    (found, polled) \<Rightarrow>
                      (case found of
                         Some v \<Rightarrow> Inr v
                       | None \<Rightarrow> rbind calculated (\<lambda>(permissions, _). Inr permissions),
                       [SetNx lock 5, Get stale] @ drop_garbage stale denial @ polled))
         else (case calculated of
            Inl e \<Rightarrow> (Inl e, [SetNx lock 5, ReleaseLock lock])
          | Inr (permissions, calculated_member) \<Rightarrow>
              let ttl = permission_cache_ttl calculated_member current
              in (Inr permissions, [SetNx lock 5, SetEx key permissions ttl, SetEx stale permissions (ttl + 5), ReleaseLock lock])))"

definition effective_grant ::
  "Session \<Rightarrow> Guild \<Rightarrow> User \<Rightarrow> BotGuildPermissionGrant option \<Rightarrow> BotGuildPermissionGrant option" where
  "effective_grant session guild actor bot_grant =
     (case bot_grant of Some g \<Rightarrow> Some g | None \<Rightarrow> bot_guild_permission_grant session guild actor)"

definition get_permissions ::
  "(ustr \<Rightarrow> string) \<Rightarrow> Session \<Rightarrow> cache_replies \<Rightarrow> Guild \<Rightarrow> User \<Rightarrow> Channel option \<Rightarrow> BotGuildPermissionGrant option \<Rightarrow> int
   \<Rightarrow> int result \<times> redis_command list" where
  "get_permissions sha256 session redis guild actor channel bot_grant current =
     (case require_permission_channel_guild guild channel of
        Some e \<Rightarrow> (Inl e, [])
      | None \<Rightarrow>
          (case find_member session guild (u_ref actor) of
             None \<Rightarrow> (Inl (HTTPException 404 ''GUILD_NOT_FOUND''), [])
           | Some member \<Rightarrow>
               let grant = effective_grant session guild actor bot_grant
               in if (case (grant, channel) of (Some g, Some c) \<Rightarrow> \<not> grant_allows_channel session g c | _ \<Rightarrow> False)
                  then (Inr 0, [])
                  else let key = cache_key sha256 guild actor member channel grant
                       in (case cr_get redis 0 key of
                             Cached v \<Rightarrow> (Inr v, [Get key])
                           | reply \<Rightarrow>
                               (case permissions_after_miss sha256 session redis guild actor member channel grant current of
                                  (outcome, sent) \<Rightarrow> (outcome, Get key # drop_garbage key reply @ sent)))))"

section \<open>The guard\<close>

text \<open>
  The route guard. \<open>interactions\<close> is the outcome of the AutoMod quarantine check that follows a sufficient
  mask.
\<close>

definition require_permissions ::
  "(ustr \<Rightarrow> string) \<Rightarrow> Session \<Rightarrow> cache_replies \<Rightarrow> error option \<Rightarrow> Guild \<Rightarrow> User \<Rightarrow> int \<Rightarrow> Channel option \<Rightarrow> int
   \<Rightarrow> int result \<times> redis_command list" where
  "require_permissions sha256 session redis interactions guild actor needed channel current =
     map_prod (\<lambda>outcome. rbind outcome
       (\<lambda>permissions.
          if permissions AND needed \<noteq> needed
          then (case find_member session guild (u_ref actor) of
             None \<Rightarrow> Inl (HTTPException 403 ''MISSING_PERMISSIONS'')
           | Some member \<Rightarrow>
               if needs_rules (g_onboarding guild) (gm_onboarding_state member) \<and> needed AND NOT TIMEOUT_ALLOWED \<noteq> 0
               then Inl (HTTPException 403 ''RULES_ACCEPTANCE_REQUIRED'')
               else if member_timed_out member current \<and> needed AND NOT TIMEOUT_ALLOWED \<noteq> 0
               then Inl (HTTPException 403 ''MEMBER_TIMED_OUT'')
               else Inl (HTTPException 403 ''MISSING_PERMISSIONS''))
          else (case interactions of Some e \<Rightarrow> Inl e | None \<Rightarrow> Inr permissions))) (\<lambda>sent. sent)
       (get_permissions sha256 session redis guild actor channel None current)"

definition require_can_manage_expression ::
  "(ustr \<Rightarrow> string) \<Rightarrow> Session \<Rightarrow> cache_replies \<Rightarrow> error option \<Rightarrow> Guild \<Rightarrow> User \<Rightarrow> entity_ref \<Rightarrow> int
   \<Rightarrow> int result \<times> redis_command list" where
  "require_can_manage_expression sha256 session redis interactions guild actor creator current =
     require_permissions sha256 session redis interactions guild actor
       (if creator = u_ref actor then perm_value CREATE_GUILD_EXPRESSIONS else perm_value MANAGE_EMOJIS) None current"

section \<open>Facts\<close>

lemma grant_apply_submask: "submask (grant_apply session grant p channel) p"
  by (auto simp: grant_apply_def normalize_submask split: option.splits)

lemma private_thread_gate_submask: "submask (private_thread_gate session actor channel p) p"
  by (auto simp: private_thread_gate_def split: option.splits)

lemma rules_gate_submask: "submask (rules_gate guild actor member p) p"
  by (simp add: rules_gate_def)

text \<open>An accepted calculation, step by step.\<close>

lemma calculate_permissionsE:
  assumes "calculate_permissions session guild actor channel bot_grant current = Inr (p, member)"
  obtains overwrites q where "require_permission_channel_guild guild channel = None"
    and "find_member session guild (u_ref actor) = Some member"
    and "effective_overwrites session guild channel = Inr overwrites"
    and "q = private_thread_gate session actor channel (live_permissions session guild actor channel overwrites member current)"
    and "p = rules_gate guild actor member
          (case (case bot_grant of Some g \<Rightarrow> Some g | None \<Rightarrow> bot_guild_permission_grant session guild actor) of
             None \<Rightarrow> q | Some g \<Rightarrow> grant_apply session g q channel)"
  using assms
  by (auto simp: calculate_permissions_def result_simps Let_def split: option.splits)

lemma calculate_permissions_submask:
  assumes "calculate_permissions session guild actor channel bot_grant current = Inr (p, member)"
  obtains overwrites where "effective_overwrites session guild channel = Inr overwrites"
    and "submask p (live_permissions session guild actor channel overwrites member current)"
    and "submask p (private_thread_gate session actor channel (live_permissions session guild actor channel overwrites member current))"
  using assms
proof (rule calculate_permissionsE)
  fix overwrites q
  assume *: "effective_overwrites session guild channel = Inr overwrites"
    "q = private_thread_gate session actor channel (live_permissions session guild actor channel overwrites member current)"
    "p = rules_gate guild actor member
          (case (case bot_grant of Some g \<Rightarrow> Some g | None \<Rightarrow> bot_guild_permission_grant session guild actor) of
             None \<Rightarrow> q | Some g \<Rightarrow> grant_apply session g q channel)"
  have "submask (case (case bot_grant of Some g \<Rightarrow> Some g | None \<Rightarrow> bot_guild_permission_grant session guild actor) of
             None \<Rightarrow> q | Some g \<Rightarrow> grant_apply session g q channel) q"
    by (simp add: grant_apply_submask split: option.split)
  then have "submask p q" unfolding *(3) by (rule submask_trans [OF rules_gate_submask])
  then show ?thesis using that *(1,2) submask_trans [OF _ private_thread_gate_submask] by metis
qed

lemma take2_singleton: "take 2 xs = [x] \<longleftrightarrow> xs = [x]"
  by (cases xs; cases "tl xs") auto

lemma bot_grant_active:
  assumes "u_account_type actor = ''bot''"
  obtains g where "bot_guild_permission_grant session guild actor = Some g"
    and "bg_installation_id g = None \<or> (u_disabled_at actor = None \<and>
       (\<exists>i. bot_actor_active_installations session guild actor = [i] \<and> bg_channel_restrictions g = normalize_channel_restrictions (bi_channel_restrictions i)))"
proof (cases "\<exists>i. bot_actor_active_installations session guild actor = [i] \<and> u_disabled_at actor = None")
  case True
  then obtain i where i: "bot_actor_active_installations session guild actor = [i]" "u_disabled_at actor = None" by blast
  then show thesis
    using assms that [of "bot_guild_permission_grant_from_installation i"]
    by (auto simp: bot_guild_permission_grant_def bot_guild_permission_grant_from_installation_def)
next
  case False
  then have "bot_guild_permission_grant session guild actor = Some no_grant"
    using assms take2_singleton [of "bot_actor_active_installations session guild actor"]
    by (auto simp: bot_guild_permission_grant_def split: list.splits)
  then show thesis by (intro that [of no_grant]) (auto simp: no_grant_def)
qed


lemma live_permissions_timed_out:
  assumes "g_owner guild \<noteq> u_ref actor" "member_timed_out member current" "channel = Some c"
  shows "submask (live_permissions session guild actor channel overwrites member current) TIMEOUT_ALLOWED"
  using assms by (auto simp: live_permissions_def Let_def resolve_permissions_def normalize_timed_out)


lemma poll_cache_found:
  "poll_cache redis key reads = (Some v, sent) \<Longrightarrow> \<exists>i \<in> set reads. cr_get redis i key = Cached v"
  by (induction reads arbitrary: sent) (auto split: cached.splits prod.splits)

lemma poll_cache_sent: "poll_cache redis key reads = (found, sent) \<Longrightarrow> set sent \<subseteq> {Get key, Delete key}"
  by (induction reads arbitrary: sent) (fastforce simp: drop_garbage_def split: cached.splits prod.splits if_splits)+

lemma ceil_seconds: "0 < r \<Longrightarrow> 1 \<le> - (- r div 1000000) \<and> r \<le> - (- r div 1000000) * 1000000 \<and> - (- r div 1000000) * 1000000 < r + 1000000"
  for r :: int
proof -
  assume r: "0 < r"
  define q m where "q = - r div 1000000" and "m = - r mod 1000000"
  have "- r = q * 1000000 + m" "0 \<le> m" "m < 1000000" by (simp_all add: q_def m_def div_mult_mod_eq)
  then show ?thesis using r unfolding q_def [symmetric] by linarith
qed

lemma permission_cache_ttl_range: "1 \<le> permission_cache_ttl member t \<and> permission_cache_ttl member t \<le> 300"
  by (auto simp: permission_cache_ttl_def Let_def split: option.splits)


text \<open>Where a served mask comes from.\<close>

definition calculated_mask :: "Session \<Rightarrow> Guild \<Rightarrow> User \<Rightarrow> Channel option \<Rightarrow> BotGuildPermissionGrant option \<Rightarrow> int \<Rightarrow> int \<Rightarrow> bool" where
  "calculated_mask session guild actor channel grant current p \<longleftrightarrow>
     (\<exists>member. calculate_permissions session guild actor channel grant current = Inr (p, member))"

lemma drop_garbage_sent: "set (drop_garbage key reply) \<subseteq> {Delete key}"
  by (auto simp: drop_garbage_def)

text \<open>
  The ways a call can go on after a miss: the calculation under the lock, a denial read from the stale key, a polled value, and the
  calculation without the lock.
\<close>

lemma permissions_after_miss_cases:
  fixes sha256 guild actor member channel grant
  defines "key \<equiv> cache_key sha256 guild actor member channel grant"
    and "stale \<equiv> stale_key guild actor channel"
    and "lock \<equiv> lock_key sha256 guild actor member channel grant"
  assumes "permissions_after_miss sha256 session redis guild actor member channel grant current = (Inr p, sent)"
  obtains (locked) mem where "calculate_permissions session guild actor channel grant current = Inr (p, mem)"
      "sent = [SetNx lock 5, SetEx key p (permission_cache_ttl mem current),
         SetEx stale p (permission_cache_ttl mem current + 5), ReleaseLock lock]"
  | (denied) "p = 0" "\<not> cr_set_nx redis lock" "set sent \<subseteq> {SetNx lock 5, Get stale}"
  | (polled) i where "2 \<le> i" "i < 22" "cr_get redis i key = Cached p" "\<not> cr_set_nx redis lock"
      "set sent \<subseteq> {SetNx lock 5, Get stale, Delete stale, Get key, Delete key}"
  | (alone) mem where "calculate_permissions session guild actor channel grant current = Inr (p, mem)"
      "\<not> cr_set_nx redis lock" "set sent \<subseteq> {SetNx lock 5, Get stale, Delete stale, Get key, Delete key}"
proof (cases "cr_set_nx redis lock")
  case True
  with assms(4) locked show thesis
    by (auto simp: permissions_after_miss_def Let_def key_def stale_def lock_def split: sum.splits)
next
  case contended: False
  define reads :: "nat list" where "reads = [2..<22]"
  obtain found polls where poll: "poll_cache redis key reads = (found, polls)" by (rule prod.exhaust)
  note opened = assms(4) [unfolded permissions_after_miss_def Let_def, folded key_def stale_def lock_def reads_def]
  show thesis
  proof (cases "cr_get redis 1 stale = Cached 0")
    case True
    with opened contended show thesis by (intro denied) auto
  next
    case False
    have sent: "set sent \<subseteq> {SetNx lock 5, Get stale, Delete stale, Get key, Delete key}"
      using opened contended False poll poll_cache_sent [OF poll] drop_garbage_sent [of stale "cr_get redis 1 stale"]
      by (auto split: option.splits)
    show thesis
    proof (cases found)
      case None
      with opened contended False poll
      obtain mem where "calculate_permissions session guild actor channel grant current = Inr (p, mem)"
        by (auto simp: result_simps)
      then show thesis using contended sent by (rule alone)
    next
      case (Some v)
      with poll obtain i where "i \<in> set reads" "cr_get redis i key = Cached v"
        using poll_cache_found [of redis key reads v polls] by blast
      then have "2 \<le> i" "i < 22" "cr_get redis i key = Cached v" by (simp_all only: reads_def set_upt atLeastLessThan_iff)
      moreover have "p = v" using opened contended False poll Some by simp
      ultimately show thesis using contended sent by (intro polled [of i]) auto
    qed
  qed
qed

text \<open>The ways a lookup can end. It reads nothing before the membership and the bot's channel restrictions have been checked.\<close>

lemma get_permissions_cases:
  fixes bot_grant guild actor session
  defines "grant \<equiv> effective_grant session guild actor bot_grant"
  assumes "get_permissions sha256 session redis guild actor channel bot_grant current = (outcome, sent)"
  obtains (refused) e where "outcome = Inl e" "sent = []"
  | (restricted) member where "find_member session guild (u_ref actor) = Some member" "outcome = Inr 0" "sent = []"
  | (hit) p member where "find_member session guild (u_ref actor) = Some member" "outcome = Inr p"
      "cr_get redis 0 (cache_key sha256 guild actor member channel grant) = Cached p"
      "sent = [Get (cache_key sha256 guild actor member channel grant)]"
  | (miss) member key rest where "find_member session guild (u_ref actor) = Some member"
      "key = cache_key sha256 guild actor member channel grant"
      "sent = Get key # drop_garbage key (cr_get redis 0 key) @ rest"
      "permissions_after_miss sha256 session redis guild actor member channel grant current = (outcome, rest)"
proof (cases "require_permission_channel_guild guild channel = None \<and> find_member session guild (u_ref actor) \<noteq> None")
  case True
  then obtain member where member: "require_permission_channel_guild guild channel = None"
      "find_member session guild (u_ref actor) = Some member"
    by blast
  define key where "key = cache_key sha256 guild actor member channel grant"
  note open1 = assms(2) [unfolded get_permissions_def member option.case Let_def, folded grant_def, folded key_def]
  show thesis
  proof (cases "case (grant, channel) of (Some g, Some c) \<Rightarrow> \<not> grant_allows_channel session g c | _ \<Rightarrow> False")
    case True
    then show thesis using open1 restricted member by simp
  next
    case allowed: False
    obtain out rest where after: "permissions_after_miss sha256 session redis guild actor member channel grant current = (out, rest)"
      by (rule prod.exhaust)
    show thesis
    proof (cases "is_cached (cr_get redis 0 key)")
      case True
      then show thesis using open1 allowed hit [OF member(2)] by (cases "cr_get redis 0 key") (auto simp: key_def)
    next
      case False
      then have "(outcome, sent) = (out, Get key # drop_garbage key (cr_get redis 0 key) @ rest)"
        using open1 allowed after by (cases "cr_get redis 0 key") simp_all
      then show thesis using miss [OF member(2) key_def] after by blast
    qed
  qed
qed (use assms(2) refused in \<open>auto simp: get_permissions_def split: option.splits\<close>)

text \<open>Every lock that a call obtains is released by it, as its last command.\<close>

lemma permissions_after_miss_releases:
  fixes sha256 guild actor member channel grant
  defines "lock' \<equiv> lock_key sha256 guild actor member channel grant"
  assumes "permissions_after_miss sha256 session redis guild actor member channel grant current = (outcome, sent)"
    and "SetNx lock ttl \<in> set sent" and "cr_set_nx redis lock"
  shows "sent \<noteq> [] \<and> last sent = ReleaseLock lock"
proof (cases "cr_set_nx redis lock'")
  case True
  then show ?thesis using assms(2,3)
    by (auto simp: permissions_after_miss_def Let_def lock'_def split: sum.splits)
next
  case False
  define key where "key = cache_key sha256 guild actor member channel grant"
  define reads :: "nat list" where "reads = [2..<22]"
  obtain found polls where poll: "poll_cache redis key reads = (found, polls)" by (rule prod.exhaust)
  note opened = assms(2) [unfolded permissions_after_miss_def Let_def, folded lock'_def key_def reads_def]
  have "set sent \<subseteq> {SetNx lock' 5, Get (stale_key guild actor channel), Delete (stale_key guild actor channel), Get key, Delete key}"
    using opened False poll poll_cache_sent [OF poll]
      drop_garbage_sent [of "stale_key guild actor channel" "cr_get redis 1 (stale_key guild actor channel)"]
    by (auto split: if_splits)
  then show ?thesis using assms(3,4) False by auto
qed

lemma get_permissions_releases:
  assumes "get_permissions sha256 session redis guild actor channel grant current = (outcome, sent)"
    and "SetNx lock ttl \<in> set sent" and "cr_set_nx redis lock"
  shows "last sent = ReleaseLock lock"
  using assms(1)
proof (cases rule: get_permissions_cases)
  case (miss member key rest)
  then have "SetNx lock ttl \<in> set rest" using assms(2) by (auto simp: drop_garbage_def split: if_splits)
  from permissions_after_miss_releases [OF miss(4) this assms(3)] show ?thesis unfolding miss(3) by simp
qed (use assms(2) in simp_all)

lemma colon_free_int [simp]: "CHR '':'' \<notin> set (string_of_int i)"
  by (rule string_of_int_chars) (simp_all add: is_digit_def)

lemma cache_scope_parts:
  assumes "cache_scope sha256 guild actor member channel grant = cache_scope sha256 guild' actor' member' channel' grant'"
  shows "g_ref guild = g_ref guild' \<and> g_permission_generation guild = g_permission_generation guild' \<and>
     u_ref actor = u_ref actor' \<and> gm_member_version member = gm_member_version member' \<and>
     map_option c_ref channel = map_option c_ref channel' \<and>
     map_option (cache_identity sha256) grant = map_option (cache_identity sha256) grant'"
proof -
  have "length (cache_identity sha256 g) = 5" for g by (simp add: cache_identity_def)
  then show ?thesis
    using assms
    by (auto simp: cache_scope_def scope_parts_def split: option.splits dest: arg_cong [where f = length])
qed


text \<open>
  Two permission lookups share a cache entry only when guild, permission generation, actor, member version, channel and bot grant
  identity agree, so a change of generation, member version or grant revision can never be answered from an entry written before it.
\<close>

definition colon_free_keys :: "(ustr \<Rightarrow> string) \<Rightarrow> Guild \<Rightarrow> User \<Rightarrow> Channel option \<Rightarrow> bool" where
  "colon_free_keys sha256 guild actor channel \<longleftrightarrow>
     CHR '':'' \<notin> set (g_origin_domain guild) \<and> CHR '':'' \<notin> set (u_origin_domain actor) \<and>
     (\<forall>c \<in> set_option channel. CHR '':'' \<notin> set (c_origin_domain c)) \<and> (\<forall>s. CHR '':'' \<notin> set (sha256 s))"

definition same_cache_inputs ::
  "(ustr \<Rightarrow> string) \<Rightarrow> Guild \<Rightarrow> User \<Rightarrow> GuildMember \<Rightarrow> Channel option \<Rightarrow> BotGuildPermissionGrant option \<Rightarrow>
   Guild \<Rightarrow> User \<Rightarrow> GuildMember \<Rightarrow> Channel option \<Rightarrow> BotGuildPermissionGrant option \<Rightarrow> bool" where
  "same_cache_inputs sha256 guild actor member channel grant guild' actor' member' channel' grant' \<longleftrightarrow>
     g_ref guild = g_ref guild' \<and> g_permission_generation guild = g_permission_generation guild' \<and>
     u_ref actor = u_ref actor' \<and> gm_member_version member = gm_member_version member' \<and>
     map_option c_ref channel = map_option c_ref channel' \<and>
     map_option (cache_identity sha256) grant = map_option (cache_identity sha256) grant'"

lemma cache_scope_colon_free:
  "colon_free_keys sha256 guild actor channel \<Longrightarrow>
   \<forall>p \<in> set (cache_scope sha256 guild actor member channel grant). CHR '':'' \<notin> set p"
  by (auto simp: colon_free_keys_def cache_scope_def scope_parts_def cache_identity_def split: option.splits)

lemma stale_parts_colon_free:
  "colon_free_keys sha256 guild actor channel \<Longrightarrow> \<forall>p \<in> set (scope_parts channel). CHR '':'' \<notin> set p"
  by (auto simp: colon_free_keys_def scope_parts_def split: option.splits)

theorem cache_key_determines_inputs:
  assumes "cache_key sha256 guild actor member channel grant = cache_key sha256 guild' actor' member' channel' grant'"
    and "colon_free_keys sha256 guild actor channel" "colon_free_keys sha256 guild' actor' channel'"
  shows "same_cache_inputs sha256 guild actor member channel grant guild' actor' member' channel' grant'"
proof -
  have "[''perm'', ''v2''] @ cache_scope sha256 guild actor member channel grant =
      [''perm'', ''v2''] @ cache_scope sha256 guild' actor' member' channel' grant'"
    by (rule iffD1 [OF join_with_inject assms(1) [unfolded cache_key_def]])
       (use assms(2,3) [THEN cache_scope_colon_free] in simp_all)
  then show ?thesis unfolding same_cache_inputs_def by (intro cache_scope_parts) simp
qed

text \<open>No stale key is a cache key: the two differ in length, or one ends in a number and the other in the word \<open>guild\<close>.\<close>

lemma stale_key_not_cache_key:
  assumes "colon_free_keys sha256 guild actor channel" "colon_free_keys sha256 guild' actor' channel'"
  shows "stale_key guild actor channel \<noteq> cache_key sha256 guild' actor' member' channel' grant'"
proof
  assume "stale_key guild actor channel = cache_key sha256 guild' actor' member' channel' grant'"
  then have "[''perm'', ''v2'', ''stale'', g_origin_domain guild, string_of_int (g_id guild),
       u_origin_domain actor, string_of_int (u_id actor)] @ scope_parts channel =
      [''perm'', ''v2''] @ cache_scope sha256 guild' actor' member' channel' grant'" (is "?stale = ?cached")
    unfolding stale_key_def cache_key_def
    by (rule iffD1 [OF join_with_inject, rotated -1])
       (use assms(1) stale_parts_colon_free [OF assms(1)] cache_scope_colon_free [OF assms(2)]
        in \<open>simp_all add: colon_free_keys_def\<close>)
  then have "length ?stale = length ?cached" "last ?stale = last ?cached" by simp_all
  moreover have "string_of_int i \<noteq> ''guild''" for i
    using string_of_int_chars [of "CHR ''g''" i] by (auto simp: is_digit_def)
  ultimately show False
    by (auto simp: scope_parts_def cache_scope_def cache_identity_def split: option.splits)
qed

text \<open>
  A history of lookups: each is a call with what it found in the database and in the store, and the entries of a later call's
  replies are what such lookups stored.
\<close>

record permission_lookup =
  pl_session :: Session
  pl_redis :: cache_replies
  pl_guild :: Guild
  pl_actor :: User
  pl_channel :: "Channel option"
  pl_bot_grant :: "BotGuildPermissionGrant option"
  pl_current :: int

definition lookup_outcome :: "(ustr \<Rightarrow> string) \<Rightarrow> permission_lookup \<Rightarrow> int result \<times> redis_command list" where
  "lookup_outcome sha256 l =
     get_permissions sha256 (pl_session l) (pl_redis l) (pl_guild l) (pl_actor l) (pl_channel l) (pl_bot_grant l) (pl_current l)"

definition stored_by_lookups :: "(ustr \<Rightarrow> string) \<Rightarrow> permission_lookup set \<Rightarrow> cache_replies \<Rightarrow> bool" where
  "stored_by_lookups sha256 earlier redis \<longleftrightarrow>
     (\<forall>i k v. cr_get redis i k = Cached v \<longrightarrow>
        (\<exists>l \<in> earlier. \<exists>p sent ttl. lookup_outcome sha256 l = (Inr p, sent) \<and> SetEx k v ttl \<in> set sent))"

text \<open>An earlier lookup that calculated the mask for the same state of guild, member and grant.\<close>

definition lookup_for ::
  "(ustr \<Rightarrow> string) \<Rightarrow> Guild \<Rightarrow> User \<Rightarrow> GuildMember \<Rightarrow> Channel option \<Rightarrow> BotGuildPermissionGrant option \<Rightarrow> int \<Rightarrow> permission_lookup \<Rightarrow> bool" where
  "lookup_for sha256 guild actor member channel grant p l \<longleftrightarrow>
     (let grant' = effective_grant (pl_session l) (pl_guild l) (pl_actor l) (pl_bot_grant l)
      in calculated_mask (pl_session l) (pl_guild l) (pl_actor l) (pl_channel l) grant' (pl_current l) p \<and>
         (\<exists>member'. find_member (pl_session l) (pl_guild l) (u_ref (pl_actor l)) = Some member' \<and>
            same_cache_inputs sha256 guild actor member channel grant (pl_guild l) (pl_actor l) member' (pl_channel l) grant'))"

text \<open>What one lookup serves and stores.\<close>

lemma get_permissions_served:
  assumes "get_permissions sha256 session redis guild actor channel bot_grant current = (Inr permissions, sent)"
  shows "\<exists>member. find_member session guild (u_ref actor) = Some member \<and>
    (let grant = effective_grant session guild actor bot_grant;
         key = cache_key sha256 guild actor member channel grant
     in (permissions = 0 \<or> calculated_mask session guild actor channel grant current permissions \<or>
           (\<exists>i. cr_get redis i key = Cached permissions)) \<and>
        (\<forall>k. Get k \<in> set sent \<longrightarrow> k = key \<or> k = stale_key guild actor channel) \<and>
        (\<forall>k v ttl. SetEx k v ttl \<in> set sent \<longrightarrow> k \<in> {key, stale_key guild actor channel} \<and> v = permissions \<and>
           1 \<le> ttl \<and> ttl \<le> 305 \<and> calculated_mask session guild actor channel grant current permissions))"
  using assms
proof (cases rule: get_permissions_cases)
  case (miss member key rest)
  have garbage: "set (drop_garbage key (cr_get redis 0 key)) \<subseteq> {Delete key}" by (rule drop_garbage_sent)
  from miss(4) show ?thesis
  proof (cases rule: permissions_after_miss_cases)
    case (locked mem)
    then show ?thesis
      using miss garbage permission_cache_ttl_range [of mem current]
      by (intro exI [of _ member]) (auto simp: Let_def calculated_mask_def)
  next
    case denied
    then show ?thesis using miss garbage by (intro exI [of _ member]) (auto simp: Let_def)
  next
    case (polled i)
    then show ?thesis using miss garbage by (intro exI [of _ member]) (auto simp: Let_def)
  next
    case (alone mem)
    then show ?thesis
      using miss garbage by (intro exI [of _ member]) (auto simp: Let_def calculated_mask_def)
  qed
qed (auto simp: Let_def)

lemma stored_by_lookups_source:
  assumes "stored_by_lookups sha256 earlier redis"
    and "colon_free_keys sha256 guild actor channel"
    and "\<forall>l \<in> earlier. colon_free_keys sha256 (pl_guild l) (pl_actor l) (pl_channel l)"
    and "cr_get redis i (cache_key sha256 guild actor member channel grant) = Cached v"
  shows "\<exists>l \<in> earlier. lookup_for sha256 guild actor member channel grant v l"
proof -
  obtain l p sent ttl where l: "l \<in> earlier" "lookup_outcome sha256 l = (Inr p, sent)"
      "SetEx (cache_key sha256 guild actor member channel grant) v ttl \<in> set sent"
    using assms(1,4) unfolding stored_by_lookups_def by blast
  obtain member' where member': "find_member (pl_session l) (pl_guild l) (u_ref (pl_actor l)) = Some member'"
    and stored: "cache_key sha256 guild actor member channel grant \<in>
        {cache_key sha256 (pl_guild l) (pl_actor l) member' (pl_channel l)
           (effective_grant (pl_session l) (pl_guild l) (pl_actor l) (pl_bot_grant l)),
         stale_key (pl_guild l) (pl_actor l) (pl_channel l)}"
      "calculated_mask (pl_session l) (pl_guild l) (pl_actor l) (pl_channel l)
         (effective_grant (pl_session l) (pl_guild l) (pl_actor l) (pl_bot_grant l)) (pl_current l) v"
    using get_permissions_served [OF l(2) [unfolded lookup_outcome_def]] l(3) unfolding Let_def by blast
  have clean: "colon_free_keys sha256 (pl_guild l) (pl_actor l) (pl_channel l)" using assms(3) l(1) by blast
  from stored(1) have "cache_key sha256 guild actor member channel grant =
      cache_key sha256 (pl_guild l) (pl_actor l) member' (pl_channel l)
        (effective_grant (pl_session l) (pl_guild l) (pl_actor l) (pl_bot_grant l))"
    using stale_key_not_cache_key [OF clean assms(2), of member grant] by auto
  from cache_key_determines_inputs [OF this assms(2) clean] show ?thesis
    using l(1) member' stored(2) unfolding lookup_for_def Let_def by blast
qed

section \<open>A sample guild\<close>

definition sample_guild :: Guild where
  "sample_guild = \<lparr>g_id = 1, g_origin_domain = ''a.example'', g_owner_id = 9, g_owner_domain = ''a.example'',
     g_permission_generation = 4, g_onboarding = None\<rparr>"

definition sample_bot :: User where
  "sample_bot = \<lparr>u_id = 7, u_origin_domain = ''a.example'', u_account_type = ''bot'', u_disabled_at = None\<rparr>"

definition sample_member :: GuildMember where
  "sample_member = \<lparr>gm_guild_id = 1, gm_guild_domain = ''a.example'', gm_user_id = 7, gm_user_domain = ''a.example'',
     gm_timeout_until = None, gm_timeout_indefinite = False, gm_member_version = 2, gm_onboarding_state = None\<rparr>"

definition sample_session :: Session where
  "sample_session = \<lparr>s_members = [sample_member],
     s_roles = [\<lparr>r_id = 1, r_origin_domain = ''a.example'', r_guild_id = 1, r_guild_domain = ''a.example'',
                 r_permissions = mask_of [VIEW_CHANNEL], r_position = 0, r_managed = False\<rparr>],
     s_member_roles = [], s_channels = [], s_overwrites = [], s_thread_members = [],
     s_installations = [\<lparr>bi_id = 5, bi_application_id = 3, bi_application_domain = ''a.example'', bi_guild_id = 1,
        bi_guild_domain = ''a.example'', bi_bot_user_id = 7, bi_bot_user_domain = ''a.example'', bi_status = ''active'',
        bi_revoked_at = None, bi_grant_revision = 1, bi_granted_permissions = 0, bi_channel_restrictions = []\<rparr>],
     s_applications = [\<lparr>ba_id = 3, ba_origin_domain = ''a.example'', ba_bot_user_id = 7, ba_bot_user_domain = ''a.example'',
        ba_status = ''active'', ba_manifest_generation = 1, ba_revocation_generation = 0\<rparr>],
     s_targets = []\<rparr>"

definition no_cache :: cache_replies where
  "no_cache = \<lparr>cr_get = (\<lambda>_ _. Missing), cr_set_nx = (\<lambda>_. True)\<rparr>"

lemma sample_live: "live_permissions sample_session sample_guild sample_bot None [] sample_member 0 = mask_of [VIEW_CHANNEL]"
proof -
  have "or_list [mask_of [VIEW_CHANNEL]] = mask_of [VIEW_CHANNEL]" by (simp add: or_list_def)
  then show ?thesis
    by (simp add: live_permissions_def permission_roles_def sample_session_def sample_guild_def sample_bot_def
        resolve_permissions_def has_mask_of apply_overwrites_def apply_overwrite_def
        normalize_permission_dependencies_def Let_def)
qed

lemma sample_grant:
  "bot_guild_permission_grant sample_session sample_guild sample_bot =
     Some \<lparr>bg_installation_id = Some 5, bg_grant_revision = 1, bg_granted_permissions = 0, bg_channel_restrictions = []\<rparr>"
  by (simp add: bot_guild_permission_grant_def bot_actor_active_installations_def usable_guild_installation_def
      installation_has_membership_def sample_session_def sample_guild_def sample_bot_def sample_member_def
      bot_guild_permission_grant_from_installation_def normalize_channel_restrictions_def)

lemma sample_found: "find_member sample_session sample_guild (u_ref sample_bot) = Some sample_member"
  by (simp add: find_member_def sample_session_def sample_guild_def sample_bot_def sample_member_def)

lemma sample_calculation:
  "grant \<in> {None, bot_guild_permission_grant sample_session sample_guild sample_bot} \<Longrightarrow>
   calculate_permissions sample_session sample_guild sample_bot None grant 0 = Inr (mask_of [VIEW_CHANNEL], sample_member)"
  by (auto simp: calculate_permissions_def require_permission_channel_guild_def effective_overwrites_def sample_live
      sample_grant sample_found private_thread_gate_def grant_apply_def rules_gate_def Let_def)
     (simp_all add: sample_bot_def)

lemma sample_mask_nonzero: "mask_of [VIEW_CHANNEL] \<noteq> 0"
  using has_mask_of [of "[VIEW_CHANNEL]" VIEW_CHANNEL] by (auto simp: has_def)

definition sample_key :: string where
  "sample_key = cache_key (\<lambda>_. ''00'') sample_guild sample_bot sample_member None
     (effective_grant sample_session sample_guild sample_bot None)"

definition full_cache :: cache_replies where
  "full_cache = \<lparr>cr_get = (\<lambda>_ k. if k = sample_key then Cached (mask_of [VIEW_CHANNEL]) else Missing), cr_set_nx = (\<lambda>_. True)\<rparr>"

lemma sample_get:
  "\<exists>sent. get_permissions (\<lambda>_. ''00'') sample_session no_cache sample_guild sample_bot None None 0 = (Inr (mask_of [VIEW_CHANNEL]), sent) \<and>
     SetEx sample_key (mask_of [VIEW_CHANNEL]) 300 \<in> set sent"
  using sample_calculation [of "bot_guild_permission_grant sample_session sample_guild sample_bot"]
  by (simp add: get_permissions_def require_permission_channel_guild_def permissions_after_miss_def no_cache_def Let_def
      sample_found effective_grant_def sample_grant sample_key_def permission_cache_ttl_def)
     (simp add: sample_member_def)

text \<open>The same guild after its roles are gone: the cached entry is still served, a new calculation would deny.\<close>

definition sample_later :: Session where
  "sample_later = sample_session\<lparr>s_roles := []\<rparr>"

lemma sample_later:
  "find_member sample_later sample_guild (u_ref sample_bot) = Some sample_member"
  "effective_grant sample_later sample_guild sample_bot None = effective_grant sample_session sample_guild sample_bot None"
  "p \<noteq> 0 \<Longrightarrow> \<not> calculated_mask sample_later sample_guild sample_bot None grant 0 p"
proof -
  show found: "find_member sample_later sample_guild (u_ref sample_bot) = Some sample_member"
    by (simp add: find_member_def sample_later_def sample_session_def sample_guild_def sample_bot_def sample_member_def)
  show "effective_grant sample_later sample_guild sample_bot None = effective_grant sample_session sample_guild sample_bot None"
    unfolding effective_grant_def sample_grant
    by (simp add: bot_guild_permission_grant_def bot_actor_active_installations_def usable_guild_installation_def
      installation_has_membership_def sample_later_def sample_session_def sample_guild_def sample_bot_def sample_member_def
      bot_guild_permission_grant_from_installation_def normalize_channel_restrictions_def)
  have no_overwrites: "effective_overwrites sample_later sample_guild None = Inr []" by (simp add: effective_overwrites_def)
  have "live_permissions sample_later sample_guild sample_bot None [] sample_member 0 = 0"
    by (simp add: live_permissions_def permission_roles_def sample_later_def sample_session_def sample_guild_def sample_bot_def
        resolve_permissions_def has_def perm_value_def apply_overwrites_def apply_overwrite_def or_list_def
        normalize_permission_dependencies_def Let_def)
  moreover have "submask p 0 \<Longrightarrow> p = 0" by (simp add: submask_def)
  ultimately show "p \<noteq> 0 \<Longrightarrow> \<not> calculated_mask sample_later sample_guild sample_bot None grant 0 p"
    unfolding calculated_mask_def
    by (metis calculate_permissionsE calculate_permissions_submask found no_overwrites option.inject sum.inject(2))
qed

lemma sample_hit:
  "get_permissions (\<lambda>_. ''00'') sample_later full_cache sample_guild sample_bot None None 0 =
     (Inr (mask_of [VIEW_CHANNEL]), [Get sample_key])"
  by (simp add: get_permissions_def require_permission_channel_guild_def full_cache_def Let_def
      sample_later(1,2) sample_key_def split: option.split)

section \<open>Properties\<close>

text \<open>
  C4: A bot has any permission in a guild only while its account is enabled, exactly one active installation with a
  current membership and a ready runtime projection exists for it, and, for a channel, the installation's
  restrictions admit that channel. Whatever it has never exceeds what its roles and the channel's overwrites give.
\<close>

theorem calculate_permissions_bot_limits:
  assumes "u_account_type actor = ''bot''"
    and "calculate_permissions session guild actor channel None current = Inr (permissions, member)" and "permissions \<noteq> 0"
  shows "u_disabled_at actor = None \<and>
     (\<exists>installation. bot_actor_active_installations session guild actor = [installation] \<and>
        (case channel of None \<Rightarrow> True
         | Some c \<Rightarrow> channel_restrictions_allow session (bi_channel_restrictions installation) c)) \<and>
     (\<exists>overwrites. effective_overwrites session guild channel = Inr overwrites \<and>
        submask permissions (live_permissions session guild actor channel overwrites member current))"
proof -
  obtain g where g: "bot_guild_permission_grant session guild actor = Some g"
    "bg_installation_id g = None \<or> (u_disabled_at actor = None \<and>
       (\<exists>i. bot_actor_active_installations session guild actor = [i] \<and> bg_channel_restrictions g = normalize_channel_restrictions (bi_channel_restrictions i)))"
    by (rule bot_grant_active [OF assms(1)])
  have "bg_installation_id g \<noteq> None \<and> (case channel of None \<Rightarrow> True | Some c \<Rightarrow> grant_allows_channel session g c)"
    using assms(2,3) assms(1)
    by (rule_tac calculate_permissionsE [OF assms(2)]) (auto simp: g(1) grant_apply_def rules_gate_def split: option.splits if_splits)
  then obtain i where i: "u_disabled_at actor = None" "bot_actor_active_installations session guild actor = [i]"
      "case channel of None \<Rightarrow> True | Some c \<Rightarrow> channel_restrictions_allow session (bi_channel_restrictions i) c"
    using g(2) by (auto simp: grant_allows_channel_def split: option.splits)
  obtain ows where "effective_overwrites session guild channel = Inr ows"
    "submask permissions (live_permissions session guild actor channel ows member current)"
    by (rule calculate_permissions_submask [OF assms(2)])
  with i show ?thesis by blast
qed

theorem calculate_permissions_bot_limits_witness:
  "\<exists>installation. bot_actor_active_installations sample_session sample_guild sample_bot = [installation]"
  using calculate_permissions_bot_limits [OF _ sample_calculation [of None] sample_mask_nonzero] by (simp add: sample_bot_def)

text \<open>
  C5: The gates around overwrite resolution hold for every calculated mask: the actor is a member and the channel belongs to
  the guild; a timed-out member other than the owner keeps at most viewing and history in a channel; a human who has not
  accepted the current rules keeps at most those unless an administrator; and a private thread is invisible to whoever is
  neither in it nor allowed to manage threads.
\<close>

theorem calculate_permissions_gates:
  assumes "calculate_permissions session guild actor channel bot_grant current = Inr (permissions, member)"
  shows "find_member session guild (u_ref actor) = Some member \<and>
     (\<forall>c. channel = Some c \<longrightarrow> c_guild c = (Some (g_id guild), Some (g_origin_domain guild))) \<and>
     (\<forall>c. channel = Some c \<longrightarrow> member_timed_out member current \<longrightarrow> g_owner guild \<noteq> u_ref actor \<longrightarrow>
        submask permissions TIMEOUT_ALLOWED) \<and>
     (u_account_type actor \<noteq> ''bot'' \<longrightarrow> needs_rules (g_onboarding guild) (gm_onboarding_state member) \<longrightarrow>
        has permissions ADMINISTRATOR \<or> submask permissions TIMEOUT_ALLOWED) \<and>
     (\<forall>c. channel = Some c \<longrightarrow> c_type c = 12 \<longrightarrow> permissions \<noteq> 0 \<longrightarrow>
        (c_ref c, u_ref actor) \<in> set (s_thread_members session) \<or>
        (\<exists>overwrites. effective_overwrites session guild channel = Inr overwrites \<and>
           has (live_permissions session guild actor channel overwrites member current) MANAGE_THREADS))"
proof (rule calculate_permissionsE [OF assms], intro conjI allI impI)
  fix overwrites q
  assume guild: "require_permission_channel_guild guild channel = None"
    and member: "find_member session guild (u_ref actor) = Some member"
    and p: "permissions = rules_gate guild actor member
          (case (case bot_grant of Some g \<Rightarrow> Some g | None \<Rightarrow> bot_guild_permission_grant session guild actor) of
             None \<Rightarrow> q | Some g \<Rightarrow> grant_apply session g q channel)"
  obtain ows where ows: "effective_overwrites session guild channel = Inr ows"
    and live: "submask permissions (live_permissions session guild actor channel ows member current)"
    and thread: "submask permissions (private_thread_gate session actor channel (live_permissions session guild actor channel ows member current))"
    by (rule calculate_permissions_submask [OF assms])
  show "find_member session guild (u_ref actor) = Some member" by (rule member)
  show "c_guild c = (Some (g_id guild), Some (g_origin_domain guild))" if "channel = Some c" for c
    using guild that by (simp add: require_permission_channel_guild_def split: if_splits)
  show "submask permissions TIMEOUT_ALLOWED"
    if "channel = Some c" "member_timed_out member current" "g_owner guild \<noteq> u_ref actor" for c
    using submask_trans [OF live live_permissions_timed_out [OF that(3,2,1)]] .
  show "has permissions ADMINISTRATOR \<or> submask permissions TIMEOUT_ALLOWED"
    if "u_account_type actor \<noteq> ''bot''" "needs_rules (g_onboarding guild) (gm_onboarding_state member)"
    using that p by (auto simp: rules_gate_def)
  show "(c_ref c, u_ref actor) \<in> set (s_thread_members session) \<or>
      (\<exists>overwrites. effective_overwrites session guild channel = Inr overwrites \<and>
         has (live_permissions session guild actor channel overwrites member current) MANAGE_THREADS)"
    if "channel = Some c" "c_type c = 12" "permissions \<noteq> 0" for c
    using thread that ows by (auto simp: private_thread_gate_def submask_def split: if_splits)
qed

theorem calculate_permissions_gates_witness:
  "find_member sample_session sample_guild (u_ref sample_bot) = Some sample_member"
  using calculate_permissions_gates [OF sample_calculation [of None]] by simp

text \<open>
  A mask cached during a member's timeout never outlives the timeout by a second or more, and when the timeout ends
  within the five-minute window the entry lives at least until that end, so no stale restricted mask is stored anew just before it.
\<close>

theorem permission_cache_ttl_covers_timeout:
  "1 \<le> permission_cache_ttl member evaluated_at \<and> permission_cache_ttl member evaluated_at \<le> 300 \<and>
   (gm_timeout_until member = Some until \<longrightarrow> \<not> gm_timeout_indefinite member \<longrightarrow> evaluated_at < until \<longrightarrow>
      (let expiry = evaluated_at + permission_cache_ttl member evaluated_at * 1000000
       in expiry < until + 1000000 \<and> (until \<le> evaluated_at + 300000000 \<longrightarrow> until \<le> expiry)))"
proof (intro conjI impI)
  assume u: "gm_timeout_until member = Some until" "\<not> gm_timeout_indefinite member" "evaluated_at < until"
  define r where "r = until - evaluated_at"
  define k where "k = - (- r div 1000000)"
  have k: "1 \<le> k" "r \<le> k * 1000000" "k * 1000000 < r + 1000000" using ceil_seconds [of r] u(3) by (auto simp: r_def k_def)
  have "permission_cache_ttl member evaluated_at = min 300 k"
    using u k(1) by (auto simp: permission_cache_ttl_def Let_def r_def [symmetric] k_def [symmetric]) (simp add: r_def)
  then show "let expiry = evaluated_at + permission_cache_ttl member evaluated_at * 1000000
       in expiry < until + 1000000 \<and> (until \<le> evaluated_at + 300000000 \<longrightarrow> until \<le> expiry)"
    using k unfolding Let_def by (auto simp: r_def min_def)
qed (use permission_cache_ttl_range in auto)

theorem permission_cache_ttl_covers_timeout_witness:
  "let expiry = 100 + permission_cache_ttl (sample_member\<lparr>gm_timeout_until := Some 5000100\<rparr>) 100 * 1000000
   in 5000100 \<le> expiry \<and> expiry < 5000100 + 1000000"
  using permission_cache_ttl_covers_timeout [of "sample_member\<lparr>gm_timeout_until := Some 5000100\<rparr>" 100 5000100]
  by (simp add: sample_member_def Let_def)

text \<open>
  C6: A mask other than the empty one is either calculated in this call, or it was read under the exact cache key of this guild,
  actor, member, channel and bot grant; then some earlier lookup calculated it, for the same guild and permission generation, the
  same actor and member version, the same channel and the same grant identity, so that no entry written before a change of
  one of these is served. The value under the stale key can only deny. What the call stores is exactly the mask it
  calculated, under these two keys and for at most 305 seconds, and a lock that it obtains is released by its last command.
  The replies are assumed to hold only what earlier lookups stored, and domains and hexadecimal digests to contain no colon.
\<close>

theorem get_permissions_no_stale_grant:
  assumes "get_permissions sha256 session redis guild actor channel bot_grant current = (Inr permissions, sent)"
    and "stored_by_lookups sha256 earlier redis"
    and "colon_free_keys sha256 guild actor channel"
    and "\<forall>l \<in> earlier. colon_free_keys sha256 (pl_guild l) (pl_actor l) (pl_channel l)"
  shows "\<exists>member. find_member session guild (u_ref actor) = Some member \<and>
    (let grant = effective_grant session guild actor bot_grant;
         key = cache_key sha256 guild actor member channel grant
     in (permissions = 0 \<or> calculated_mask session guild actor channel grant current permissions \<or>
           (\<exists>i. cr_get redis i key = Cached permissions) \<and>
           (\<exists>l \<in> earlier. lookup_for sha256 guild actor member channel grant permissions l)) \<and>
        (\<forall>k. Get k \<in> set sent \<longrightarrow> k = key \<or> k = stale_key guild actor channel) \<and>
        (\<forall>k v ttl. SetEx k v ttl \<in> set sent \<longrightarrow> k \<in> {key, stale_key guild actor channel} \<and> v = permissions \<and>
           1 \<le> ttl \<and> ttl \<le> 305 \<and> calculated_mask session guild actor channel grant current permissions) \<and>
        (\<forall>lock ttl. SetNx lock ttl \<in> set sent \<and> cr_set_nx redis lock \<longrightarrow> last sent = ReleaseLock lock))"
proof -
  obtain member where member: "find_member session guild (u_ref actor) = Some member"
    and served: "let grant = effective_grant session guild actor bot_grant;
         key = cache_key sha256 guild actor member channel grant
     in (permissions = 0 \<or> calculated_mask session guild actor channel grant current permissions \<or>
           (\<exists>i. cr_get redis i key = Cached permissions)) \<and>
        (\<forall>k. Get k \<in> set sent \<longrightarrow> k = key \<or> k = stale_key guild actor channel) \<and>
        (\<forall>k v ttl. SetEx k v ttl \<in> set sent \<longrightarrow> k \<in> {key, stale_key guild actor channel} \<and> v = permissions \<and>
           1 \<le> ttl \<and> ttl \<le> 305 \<and> calculated_mask session guild actor channel grant current permissions)"
    using get_permissions_served [OF assms(1)] by blast
  have "\<exists>l \<in> earlier. lookup_for sha256 guild actor member channel (effective_grant session guild actor bot_grant) permissions l"
    if "cr_get redis i (cache_key sha256 guild actor member channel (effective_grant session guild actor bot_grant)) = Cached permissions" for i
    using stored_by_lookups_source [OF assms(2-4) that] .
  then show ?thesis
    using member served get_permissions_releases [OF assms(1)] unfolding Let_def by (intro exI [of _ member]) blast
qed

theorem get_permissions_no_stale_grant_witness:
  "let lookup = \<lparr>pl_session = sample_session, pl_redis = no_cache, pl_guild = sample_guild, pl_actor = sample_bot,
         pl_channel = None, pl_bot_grant = None, pl_current = 0\<rparr>
   in get_permissions (\<lambda>_. ''00'') sample_later full_cache sample_guild sample_bot None None 0 =
        (Inr (mask_of [VIEW_CHANNEL]), [Get sample_key]) \<and>
      stored_by_lookups (\<lambda>_. ''00'') {lookup} full_cache \<and>
      lookup_for (\<lambda>_. ''00'') sample_guild sample_bot sample_member None
         (effective_grant sample_later sample_guild sample_bot None) (mask_of [VIEW_CHANNEL]) lookup"
proof -
  let ?l = "\<lparr>pl_session = sample_session, pl_redis = no_cache, pl_guild = sample_guild, pl_actor = sample_bot,
         pl_channel = None, pl_bot_grant = None, pl_current = 0\<rparr>"
  have stored: "stored_by_lookups (\<lambda>_. ''00'') {?l} full_cache"
    using sample_get by (auto simp: stored_by_lookups_def lookup_outcome_def full_cache_def)
  have "colon_free_keys (\<lambda>_. ''00'') sample_guild sample_bot None"
    by (simp add: colon_free_keys_def sample_guild_def sample_bot_def)
  then show ?thesis
    using get_permissions_no_stale_grant [OF sample_hit stored] stored sample_hit sample_later(1,3) sample_mask_nonzero
    by (auto simp: Let_def)
qed

text \<open>
  When the guard lets an action through and the exact cache key holds only masks that the calculation yields, then the
  returned mask contains every needed permission and is the mask the calculation yields; the quarantine check did not refuse.
\<close>

theorem require_permissions_authorised:
  assumes "require_permissions sha256 session redis interactions guild actor needed channel current = (Inr permissions, sent)"
    and "needed \<noteq> 0"
    and "\<forall>member i v. find_member session guild (u_ref actor) = Some member \<longrightarrow>
           cr_get redis i (cache_key sha256 guild actor member channel (bot_guild_permission_grant session guild actor)) = Cached v \<longrightarrow>
           calculated_mask session guild actor channel (bot_guild_permission_grant session guild actor) current v"
  shows "submask needed permissions \<and> interactions = None \<and>
     calculated_mask session guild actor channel (bot_guild_permission_grant session guild actor) current permissions"
proof -
  obtain sent' where get: "get_permissions sha256 session redis guild actor channel None current = (Inr permissions, sent')"
    and needed: "permissions AND needed = needed" and ok: "interactions = None"
    using assms(1)
    by (cases "get_permissions sha256 session redis guild actor channel None current")
       (auto simp: require_permissions_def result_simps split: if_splits option.splits)
  have "permissions \<noteq> 0" using needed assms(2) by auto
  with get_permissions_served [OF get] assms(3)
  have "calculated_mask session guild actor channel (bot_guild_permission_grant session guild actor) current permissions"
    unfolding Let_def effective_grant_def by auto
  moreover have "submask needed permissions"
    using needed by (metis submask_and_left(1))
  ultimately show ?thesis using ok by blast
qed

theorem require_permissions_authorised_witness:
  "fst (require_permissions (\<lambda>_. ''00'') sample_session no_cache None sample_guild sample_bot (mask_of [VIEW_CHANNEL]) None 0) = Inr (mask_of [VIEW_CHANNEL]) \<and>
   calculated_mask sample_session sample_guild sample_bot None (bot_guild_permission_grant sample_session sample_guild sample_bot) 0 (mask_of [VIEW_CHANNEL])"
proof -
  obtain sent where sent: "require_permissions (\<lambda>_. ''00'') sample_session no_cache None sample_guild sample_bot
      (mask_of [VIEW_CHANNEL]) None 0 = (Inr (mask_of [VIEW_CHANNEL]), sent)"
    using sample_get by (auto simp: require_permissions_def)
  from this require_permissions_authorised [OF this sample_mask_nonzero] show ?thesis by (simp add: no_cache_def)
qed

end
