(* ===== verification/Command_Contract.thy ===== *)
theory Command_Contract
  imports Permissions
begin

text \<open>
  The application-command schema (\<open>bots/command_contract.py\<close>, \<open>core/file_types.py\<close>): names, localisations, options,
  commands and command sets. A validator that returns nothing is an \<open>error option\<close>. Python's Unicode database is a
  parameter: \<open>lower\<close> is \<open>str.lower\<close> and \<open>category\<close> is \<open>unicodedata.category\<close>.
\<close>

section \<open>Names and localisations\<close>

record unicode_db =
  lower :: "ustr \<Rightarrow> ustr"
  category :: "nat \<Rightarrow> string"

definition DISCORD_LOCALES :: "ustr list" where
  "DISCORD_LOCALES = map ucs
     [''id'', ''da'', ''de'', ''en-GB'', ''en-US'', ''es-ES'', ''es-419'', ''fr'', ''hr'', ''it'', ''lt'',
      ''hu'', ''nl'', ''no'', ''pl'', ''pt-BR'', ''ro'', ''fi'', ''sv-SE'', ''vi'', ''tr'', ''cs'', ''el'',
      ''bg'', ''ru'', ''uk'', ''hi'', ''th'', ''zh-CN'', ''ja'', ''ko'', ''zh-TW'']"

definition valid_chat_input_name :: "unicode_db \<Rightarrow> ustr \<Rightarrow> bool" where
  "valid_chat_input_name ucd s \<longleftrightarrow>
     1 \<le> length s \<and> length s \<le> 32 \<and> s = lower ucd s \<and>
     list_all (\<lambda>c. c \<in> {95, 45} \<or> hd (category ucd c) \<in> {CHR ''L'', CHR ''N''} \<or>
       (hd (category ucd c) = CHR ''M'' \<and>
        ((0x0900 \<le> c \<and> c \<le> 0x097F) \<or> (0xA8E0 \<le> c \<and> c \<le> 0xA8FF) \<or>
         (0x11B00 \<le> c \<and> c \<le> 0x11B5F) \<or> (0x0E00 \<le> c \<and> c \<le> 0x0E7F)))) s"

definition valid_context_command_name :: "unicode_db \<Rightarrow> ustr \<Rightarrow> bool" where
  "valid_context_command_name ucd s \<longleftrightarrow>
     1 \<le> length s \<and> length s \<le> 32 \<and> s = strip s \<and> list_all (\<lambda>c. hd (category ucd c) \<noteq> CHR ''C'') s"

type_synonym localizations = "(ustr \<times> ustr) list"

fun validate_localizations :: "unicode_db \<Rightarrow> localizations \<Rightarrow> nat \<Rightarrow> nat \<Rightarrow> bool \<Rightarrow> bool \<Rightarrow> localizations result" where
  "validate_localizations ucd [] minimum maximum chat_input_names context_names = Inr []"
| "validate_localizations ucd ((locale1, txt) # rest) minimum maximum chat_input_names context_names =
     (if locale1 \<notin> set DISCORD_LOCALES then Inl (ValueError ''unsupported localization key'')
      else if \<not> (minimum \<le> length txt \<and> length txt \<le> maximum)
      then Inl (ValueError ''localized command text has an invalid length'')
      else if chat_input_names \<and> \<not> valid_chat_input_name ucd txt
      then Inl (ValueError ''localized chat input names must use lowercase command characters'')
      else if context_names \<and> \<not> valid_context_command_name ucd txt
      then Inl (ValueError ''localized context command names contain invalid characters'')
      else rbind (validate_localizations ucd rest minimum maximum chat_input_names context_names)
             (\<lambda>normalized. Inr ((locale1, txt) # normalized)))"

section \<open>Permission names\<close>

definition permission_names :: "string list" where
  "permission_names =
    [''CREATE_INVITE'', ''KICK_MEMBERS'', ''BAN_MEMBERS'', ''ADMINISTRATOR'', ''MANAGE_CHANNELS'',
     ''MANAGE_GUILD'', ''ADD_REACTIONS'', ''VIEW_AUDIT_LOG'', ''PRIORITY_SPEAKER'', ''VIEW_CHANNEL'',
     ''SEND_MESSAGES'', ''SEND_TTS_MESSAGES'', ''MANAGE_MESSAGES'', ''EMBED_LINKS'', ''ATTACH_FILES'',
     ''READ_MESSAGE_HISTORY'', ''MENTION_EVERYONE'', ''USE_EXTERNAL_EMOJIS'', ''CONNECT'', ''SPEAK'',
     ''MUTE_MEMBERS'', ''DEAFEN_MEMBERS'', ''MOVE_MEMBERS'', ''USE_VAD'', ''CHANGE_NICKNAME'',
     ''MANAGE_NICKNAMES'', ''MANAGE_ROLES'', ''MANAGE_WEBHOOKS'', ''MANAGE_EMOJIS'', ''STREAM'',
     ''USE_APPLICATION_COMMANDS'', ''REQUEST_TO_SPEAK'', ''MANAGE_THREADS'', ''CREATE_PUBLIC_THREADS'',
     ''CREATE_PRIVATE_THREADS'', ''SEND_MESSAGES_IN_THREADS'', ''MANAGE_EVENTS'', ''MODERATE_MEMBERS'',
     ''BAN_INSTANCES'', ''USE_SOUNDBOARD'', ''CREATE_GUILD_EXPRESSIONS'', ''CREATE_EVENTS'',
     ''USE_EXTERNAL_SOUNDS'', ''SEND_VOICE_MESSAGES'', ''SET_VOICE_CHANNEL_STATUS'', ''SEND_POLLS'',
     ''USE_EXTERNAL_APPS'', ''PIN_MESSAGES'', ''BYPASS_SLOWMODE'', ''CREATE_TRACKER_TASKS'',
     ''EDIT_OWN_TRACKER_TASKS'', ''MANAGE_TRACKER_TASKS'', ''ASSIGN_TRACKER_TASKS'', ''MANAGE_TRACKER'',
     ''USE_EXTERNAL_STICKERS'']"

text \<open>\<open>Permission.__members__\<close>: canonical names, then the same-bit aliases.\<close>

definition permission_members :: "ustr \<Rightarrow> permission option" where
  "permission_members name = map_of (map (\<lambda>(n, p). (ucs n, p)) (zip permission_names all_permissions @ PERMISSION_ALIASES)) name"

definition canonical_name :: "permission \<Rightarrow> ustr" where
  "canonical_name p = (case find (\<lambda>np. snd np = p) (zip permission_names all_permissions) of Some np \<Rightarrow> ucs (fst np) | None \<Rightarrow> [])"

fun normalize_names :: "ustr list \<Rightarrow> int set \<Rightarrow> ustr list result" where
  "normalize_names [] seen_values = Inr []"
| "normalize_names (name # names) seen_values =
     (case permission_members name of
        None \<Rightarrow> Inl (ValueError ''unknown default member permission'')
      | Some permission1 \<Rightarrow>
          if perm_value permission1 \<in> seen_values then Inl (ValueError ''default member permissions must be unique'')
          else rbind (normalize_names names (insert (perm_value permission1) seen_values))
                 (\<lambda>rest. Inr (canonical_name permission1 # rest)))"

definition normalize_permission_names :: "ustr list \<Rightarrow> ustr list result" where
  "normalize_permission_names values = normalize_names values {}"

text \<open>The mask of a stored definition: names that are not strings or not published are skipped.\<close>

definition command_permission_mask :: "(pyval \<times> pyval) list \<Rightarrow> int" where
  "command_permission_mask def1 =
     (case find (\<lambda>kv. fst kv = PStr (ucs ''default_member_permissions'')) def1 of
        Some (_, PList raw) \<Rightarrow>
          foldl (\<lambda>mask1 name. case name of
                   PStr s \<Rightarrow> (case permission_members s of Some p \<Rightarrow> mask1 OR perm_value p | None \<Rightarrow> mask1)
                 | _ \<Rightarrow> mask1) 0 raw
      | _ \<Rightarrow> 0)"

definition valid_numeric_command_value :: "pyval \<Rightarrow> bool \<Rightarrow> bool" where
  "valid_numeric_command_value v integer =
     (case v of
        PInt i \<Rightarrow> if integer then - (2 ^ 53) + 1 \<le> i \<and> i \<le> 2 ^ 53 - 1 else - (2 ^ 53) \<le> i \<and> i \<le> 2 ^ 53
      | PFloat q \<Rightarrow> \<not> integer \<and> - (2 ^ 53) \<le> q \<and> q \<le> 2 ^ 53
      | _ \<Rightarrow> False)"

section \<open>File types\<close>

definition MEDIA_FILE_TYPE_FILTERS :: "ustr set" where
  "MEDIA_FILE_TYPE_FILTERS = {ucs ''image'', ucs ''video'', ucs ''audio''}"

definition FILE_EXTENSION_FILTER_RE :: "ustr \<Rightarrow> bool" where
  "FILE_EXTENSION_FILTER_RE s \<longleftrightarrow>
     (let lower_or_digit = (\<lambda>c. (97 \<le> c \<and> c \<le> 122) \<or> is_digit c)
      in case s of
           dot # c # rest \<Rightarrow> dot = 46 \<and> lower_or_digit c \<and> length rest \<le> 63 \<and>
             list_all (\<lambda>c. lower_or_digit c \<or> c \<in> {46, 95, 43, 45}) rest
         | _ \<Rightarrow> False)"

definition normalize_file_types :: "unicode_db \<Rightarrow> ustr list \<Rightarrow> ustr list result" where
  "normalize_file_types ucd values =
     (let normalized = map (lower ucd) values
      in if \<not> distinct normalized then Inl (ValueError ''file types must be unique'')
         else if list_ex (\<lambda>v. v \<notin> MEDIA_FILE_TYPE_FILTERS \<and> \<not> FILE_EXTENSION_FILTER_RE v) normalized
         then Inl (ValueError ''file types must be image, video, audio, or a dot extension'')
         else Inr normalized)"

section \<open>Options\<close>

definition SUPPORTED_CHANNEL_TYPES :: "int set" where
  "SUPPORTED_CHANNEL_TYPES = {0, 1, 2, 3, 4, 5, 10, 11, 12, 13, 14, 15, 16, 17}"

record CommandChoice =
  ch_name :: ustr
  ch_name_localizations :: localizations
  ch_value :: pyval

record option_fields =
  o_type :: string
  o_name :: ustr
  o_name_localizations :: localizations
  o_description :: ustr
  o_description_localizations :: localizations
  o_required :: bool
  o_autocomplete :: bool
  o_choices :: "CommandChoice list"
  o_channel_types :: "int list"
  o_min_value :: "pyval option"
  o_max_value :: "pyval option"
  o_min_length :: "int option"
  o_max_length :: "int option"
  o_file_types :: "ustr list"

datatype CommandOptionDefinition = Option (opt_fields: option_fields) (sub_options: "CommandOptionDefinition list")

abbreviation option_type :: "CommandOptionDefinition \<Rightarrow> string" where
  "option_type option1 \<equiv> o_type (opt_fields option1)"

definition OPTION_TYPES :: "string set" where
  "OPTION_TYPES = {''subcommand'', ''subcommand_group'', ''string'', ''integer'', ''boolean'', ''user'', ''channel'', ''role'',
     ''mentionable'', ''number'', ''attachment''}"

definition CONTAINER_TYPES :: "string set" where
  "CONTAINER_TYPES = {''subcommand'', ''subcommand_group''}"

text \<open>The first failing check of a list, as a chain of raises.\<close>

fun first_error :: "(bool \<times> string) list \<Rightarrow> error option" where
  "first_error [] = None"
| "first_error ((bad, message) # checks) = (if bad then Some (ValueError message) else first_error checks)"

definition validate_option_nesting :: "CommandOptionDefinition \<Rightarrow> error option" where
  "validate_option_nesting option1 =
     (let container = option_type option1 \<in> CONTAINER_TYPES; children = sub_options option1
      in first_error
        [(children \<noteq> [] \<and> \<not> container, ''only subcommands and groups contain nested options''),
         (option_type option1 = ''subcommand_group'' \<and> children = [], ''subcommand groups require at least one subcommand''),
         (option_type option1 = ''subcommand_group'' \<and> list_ex (\<lambda>child. option_type child \<noteq> ''subcommand'') children,
          ''subcommand groups may contain only subcommands''),
         (option_type option1 = ''subcommand'' \<and> list_ex (\<lambda>child. option_type child \<in> CONTAINER_TYPES) children,
          ''subcommands may contain only scalar options''),
         (container \<and> o_required (opt_fields option1), ''subcommand containers cannot be required'')])"

text \<open>\<open>(type(value), value)\<close>: two choice values collide only within one type; floats that compare equal are equal.\<close>

definition validate_option_choices :: "CommandOptionDefinition \<Rightarrow> error option" where
  "validate_option_choices option1 =
     (let f = opt_fields option1; numeric_or_string = o_type f \<in> {''string'', ''integer'', ''number''}; choices = o_choices f
      in first_error
        [(choices \<noteq> [] \<and> \<not> numeric_or_string, ''choices require a string or numeric option''),
         (\<not> distinct (map ch_name choices), ''command option choice names must be unique''),
         (\<not> distinct (map ch_value choices), ''command option choice values must be unique''),
         (o_type f = ''string'' \<and> list_ex (\<lambda>c. case ch_value c of PStr _ \<Rightarrow> False | _ \<Rightarrow> True) choices,
          ''string options require string choice values''),
         (o_type f = ''integer'' \<and> list_ex (\<lambda>c. \<not> valid_numeric_command_value (ch_value c) True) choices,
          ''integer options require integer choice values''),
         (o_type f = ''number'' \<and> list_ex (\<lambda>c. \<not> valid_numeric_command_value (ch_value c) False) choices,
          ''number options require numeric choice values''),
         (o_autocomplete f \<and> (choices \<noteq> [] \<or> \<not> numeric_or_string),
          ''autocomplete requires a string or numeric option without choices'')])"

definition validate_option_type_fields :: "CommandOptionDefinition \<Rightarrow> error option" where
  "validate_option_type_fields option1 =
     (let f = opt_fields option1
      in first_error
        [(o_channel_types f \<noteq> [] \<and> o_type f \<noteq> ''channel'', ''channel_types require a channel option''),
         (o_file_types f \<noteq> [] \<and> o_type f \<noteq> ''attachment'', ''file_types require an attachment option''),
         (\<not> distinct (o_channel_types f), ''command option channel_types must be unique''),
         (list_ex (\<lambda>v. v \<notin> SUPPORTED_CHANNEL_TYPES) (o_channel_types f), ''command option contains an unsupported channel type''),
         ((o_min_length f \<noteq> None \<or> o_max_length f \<noteq> None) \<and> o_type f \<noteq> ''string'', ''length bounds require a string option''),
         ((o_min_value f \<noteq> None \<or> o_max_value f \<noteq> None) \<and> o_type f \<notin> {''integer'', ''number''},
          ''numeric bounds require a numeric option'')])"

text \<open>\<open>min_value > max_value\<close> for JSON numbers; a non-finite bound is rejected by the range check that follows.\<close>

definition number_exceeds :: "pyval option \<Rightarrow> pyval option \<Rightarrow> bool" where
  "number_exceeds a b =
     (case (Option.bind a number_of, Option.bind b number_of) of (Some p, Some q) \<Rightarrow> q < p | _ \<Rightarrow> False)"

definition validate_option_bounds :: "CommandOptionDefinition \<Rightarrow> error option" where
  "validate_option_bounds option1 =
     (let f = opt_fields option1; outside = (\<lambda>v. case v of None \<Rightarrow> False
            | Some n \<Rightarrow> \<not> valid_numeric_command_value n (o_type f = ''integer''))
      in first_error
        [((case (o_min_length f, o_max_length f) of (Some a, Some b) \<Rightarrow> b < a | _ \<Rightarrow> False),
          ''minimum length exceeds maximum length''),
         (number_exceeds (o_min_value f) (o_max_value f), ''minimum value exceeds maximum value''),
         (o_type f \<in> {''integer'', ''number''} \<and> (outside (o_min_value f) \<or> outside (o_max_value f)),
          ''numeric bounds exceed the option type's safe range'')])"

section \<open>Sibling options\<close>

definition localized_name :: "ustr \<Rightarrow> CommandOptionDefinition \<Rightarrow> ustr" where
  "localized_name locale1 option1 =
     (case map_of (o_name_localizations (opt_fields option1)) locale1 of Some name \<Rightarrow> name | None \<Rightarrow> o_name (opt_fields option1))"

fun required_after_optional :: "CommandOptionDefinition list \<Rightarrow> bool \<Rightarrow> bool" where
  "required_after_optional [] optional_seen = False"
| "required_after_optional (option1 # rest) optional_seen =
     (if o_required (opt_fields option1) then optional_seen \<or> required_after_optional rest optional_seen
      else required_after_optional rest True)"

definition validate_command_option_order :: "CommandOptionDefinition list \<Rightarrow> error option" where
  "validate_command_option_order options =
     (let names = map (\<lambda>o1. o_name (opt_fields o1)) options;
          locales = concat (map (\<lambda>o1. map fst (o_name_localizations (opt_fields o1))) options)
      in first_error
        [(\<not> distinct names, ''command option names must be unique among siblings''),
         (list_ex (\<lambda>o1. list_ex (\<lambda>name. name \<in> set names - {o_name (opt_fields o1)})
                         (map snd (o_name_localizations (opt_fields o1)))) options,
          ''localized option names must differ from sibling default names''),
         (list_ex (\<lambda>locale1. \<not> distinct (map (localized_name locale1) options)) locales,
          ''command option names must be unique in locale''),
         (required_after_optional options False, ''required options must precede optional options'')])"

section \<open>Accepted options\<close>

definition choice_ok :: "unicode_db \<Rightarrow> CommandChoice \<Rightarrow> bool" where
  "choice_ok ucd c \<longleftrightarrow>
     1 \<le> length (ch_name c) \<and> length (ch_name c) \<le> 100 \<and> length (ch_name_localizations c) \<le> 32 \<and>
     is_ok (validate_localizations ucd (ch_name_localizations c) 1 100 False False) \<and>
     (case ch_value c of PStr s \<Rightarrow> 1 \<le> length s \<and> length s \<le> 100 | PInt _ \<Rightarrow> True | PFloat _ \<Rightarrow> True | PNonFinite \<Rightarrow> True | _ \<Rightarrow> False)"

definition bound_ok :: "pyval option \<Rightarrow> bool" where
  "bound_ok v = (case v of None \<Rightarrow> True | Some (PInt _) \<Rightarrow> True | Some (PFloat _) \<Rightarrow> True | Some PNonFinite \<Rightarrow> True | _ \<Rightarrow> False)"

text \<open>The field constraints and field validators of one option.\<close>

definition option_fields_ok :: "unicode_db \<Rightarrow> option_fields \<Rightarrow> bool" where
  "option_fields_ok ucd f \<longleftrightarrow>
     o_type f \<in> OPTION_TYPES \<and> 1 \<le> length (o_name f) \<and> length (o_name f) \<le> 32 \<and> valid_chat_input_name ucd (o_name f) \<and>
     length (o_name_localizations f) \<le> 32 \<and>
     is_ok (validate_localizations ucd (o_name_localizations f) 1 32 True False) \<and>
     1 \<le> length (o_description f) \<and> length (o_description f) \<le> 100 \<and> length (o_description_localizations f) \<le> 32 \<and>
     is_ok (validate_localizations ucd (o_description_localizations f) 1 100 False False) \<and>
     length (o_choices f) \<le> 25 \<and> list_all (choice_ok ucd) (o_choices f) \<and> length (o_channel_types f) \<le> 14 \<and>
     bound_ok (o_min_value f) \<and> bound_ok (o_max_value f) \<and>
     (case o_min_length f of None \<Rightarrow> True | Some n \<Rightarrow> 0 \<le> n \<and> n \<le> 6000) \<and>
     (case o_max_length f of None \<Rightarrow> True | Some n \<Rightarrow> 1 \<le> n \<and> n \<le> 6000) \<and>
     length (o_file_types f) \<le> 10 \<and> is_ok (normalize_file_types ucd (o_file_types f))"

primrec option_ok :: "unicode_db \<Rightarrow> CommandOptionDefinition \<Rightarrow> bool" where
  "option_ok ucd (Option f children) \<longleftrightarrow>
     option_fields_ok ucd f \<and> length children \<le> 25 \<and> list_all id (map (option_ok ucd) children) \<and>
     validate_option_nesting (Option f children) = None \<and> validate_option_choices (Option f children) = None \<and>
     validate_option_type_fields (Option f children) = None \<and> validate_option_bounds (Option f children) = None \<and>
     validate_command_option_order children = None"

section \<open>Commands\<close>

datatype default_permissions = Names "ustr list" | Zero

record CommandDefinition =
  cd_name :: ustr
  cd_type :: string
  cd_description :: ustr
  cd_name_localizations :: localizations
  cd_description_localizations :: localizations
  cd_default_member_permissions :: default_permissions
  cd_contexts :: "string list"
  cd_integration_types :: "string list"
  cd_options :: "CommandOptionDefinition list"

definition localized_length :: "ustr \<Rightarrow> localizations \<Rightarrow> nat" where
  "localized_length dflt values = foldl max (length dflt) (map (length \<circ> snd) values)"

text \<open>\<open>value_length\<close> is \<open>len(str(value))\<close> of a choice value.\<close>

primrec option_length :: "(pyval \<Rightarrow> nat) \<Rightarrow> CommandOptionDefinition \<Rightarrow> nat" where
  "option_length value_length (Option f children) =
     localized_length (o_name f) (o_name_localizations f) +
     localized_length (o_description f) (o_description_localizations f) +
     sum_list (map (\<lambda>c. localized_length (ch_name c) (ch_name_localizations c) + value_length (ch_value c)) (o_choices f)) +
     sum_list (map (option_length value_length) children)"

definition command_character_count :: "(pyval \<Rightarrow> nat) \<Rightarrow> CommandDefinition \<Rightarrow> nat" where
  "command_character_count value_length command1 =
     localized_length (cd_name command1) (cd_name_localizations command1) +
     localized_length (cd_description command1) (cd_description_localizations command1) +
     sum_list (map (option_length value_length) (cd_options command1))"

definition valid_command_shape :: "unicode_db \<Rightarrow> (pyval \<Rightarrow> nat) \<Rightarrow> CommandDefinition \<Rightarrow> error option" where
  "valid_command_shape ucd value_length c =
     (let chat = (cd_type c = ''chat_input''); container = (\<lambda>o1. option_type o1 \<in> CONTAINER_TYPES) in
      if chat \<and> \<not> valid_chat_input_name ucd (cd_name c)
      then Some (ValueError ''chat input command names must use lowercase command characters'')
      else if \<not> chat \<and> \<not> valid_context_command_name ucd (cd_name c)
      then Some (ValueError ''context command names contain invalid characters'')
      else case validate_localizations ucd (cd_name_localizations c) 1 32 chat (\<not> chat) of
             Inl e \<Rightarrow> Some e
           | Inr _ \<Rightarrow>
               if chat \<and> cd_description c = [] then Some (ValueError ''chat input commands require a description'')
               else if \<not> chat \<and> (cd_description c \<noteq> [] \<or> cd_description_localizations c \<noteq> [] \<or> cd_options c \<noteq> [])
               then Some (ValueError ''context commands do not have descriptions or options'')
               else if list_ex container (cd_options c) \<and> list_ex (\<lambda>o1. \<not> container o1) (cd_options c)
               then Some (ValueError ''subcommand containers cannot be mixed with scalar options'')
               else case validate_command_option_order (cd_options c) of
                      Some e \<Rightarrow> Some e
                    | None \<Rightarrow>
                        if 8000 < command_character_count value_length c
                        then Some (ValueError ''command definition exceeds the maximum character count'') else None)"

definition command_ok :: "unicode_db \<Rightarrow> (pyval \<Rightarrow> nat) \<Rightarrow> CommandDefinition \<Rightarrow> bool" where
  "command_ok ucd value_length c \<longleftrightarrow>
     1 \<le> length (cd_name c) \<and> length (cd_name c) \<le> 32 \<and> cd_type c \<in> {''chat_input'', ''user'', ''message''} \<and>
     length (cd_description c) \<le> 100 \<and> length (cd_name_localizations c) \<le> 32 \<and> length (cd_description_localizations c) \<le> 32 \<and>
     is_ok (validate_localizations ucd (cd_description_localizations c) 1 100 False False) \<and>
     (case cd_default_member_permissions c of Zero \<Rightarrow> True
      | Names ns \<Rightarrow> length ns \<le> 64 \<and> is_ok (normalize_permission_names ns)) \<and>
     set (cd_contexts c) \<subseteq> {''guild'', ''bot_dm'', ''private_channel''} \<and> cd_contexts c \<noteq> [] \<and> distinct (cd_contexts c) \<and>
     set (cd_integration_types c) \<subseteq> {''guild_install'', ''user_install''} \<and> cd_integration_types c \<noteq> [] \<and>
     distinct (cd_integration_types c) \<and> length (cd_options c) \<le> 25 \<and> list_all (option_ok ucd) (cd_options c) \<and>
     valid_command_shape ucd value_length c = None"

section \<open>Command sets\<close>

text \<open>\<open>walk\<close>: the nesting depth of a set of options; \<open>True\<close> is the raise.\<close>

lemma sub_options_smaller: "x \<in> set options \<Longrightarrow> size_list size (sub_options x) < size_list size options"
proof -
  assume x: "x \<in> set options"
  have "size_list size (sub_options x) < size x" by (cases x) simp
  also have "size x \<le> size_list size options" using x by (induction options) auto
  finally show ?thesis .
qed

function walk :: "CommandOptionDefinition list \<Rightarrow> nat \<Rightarrow> bool" where
  "walk options depth =
     (3 < depth \<or> list_ex (\<lambda>o1. sub_options o1 \<noteq> [] \<and> walk (sub_options o1) (depth + 1)) options)"
  by pat_completeness auto
termination
  by (relation "measure (\<lambda>(options, depth). size_list size options)") (auto intro: sub_options_smaller)

declare walk.simps [simp del]

definition bounded_tree :: "CommandDefinition list \<Rightarrow> error option" where
  "bounded_tree commands =
     first_error
       [(list_ex (\<lambda>c. walk (cd_options c) 1) commands, ''command options exceed the maximum nesting depth''),
        (100 < length (filter (\<lambda>c. cd_type c = ''chat_input'') commands), ''too many chat_input commands''),
        (15 < length (filter (\<lambda>c. cd_type c = ''user'') commands), ''too many user commands''),
        (15 < length (filter (\<lambda>c. cd_type c = ''message'') commands), ''too many message commands'')]"

definition commands_put_ok :: "unicode_db \<Rightarrow> (pyval \<Rightarrow> nat) \<Rightarrow> CommandDefinition list \<Rightarrow> bool" where
  "commands_put_ok ucd value_length commands \<longleftrightarrow>
     length commands \<le> 130 \<and> list_all (command_ok ucd value_length) commands \<and> bounded_tree commands = None"

lemma first_error_None: "first_error checks = None \<longleftrightarrow> (\<forall>(bad, m)\<in>set checks. \<not> bad)"
  by (induction checks rule: first_error.induct) auto

lemma nesting_ok:
  assumes "validate_option_nesting option1 = None"
  shows "option_type option1 \<notin> CONTAINER_TYPES \<Longrightarrow> sub_options option1 = []"
    and "option_type option1 = ''subcommand'' \<Longrightarrow> \<forall>child\<in>set (sub_options option1). option_type child \<notin> CONTAINER_TYPES"
    and "option_type option1 = ''subcommand_group'' \<Longrightarrow> \<forall>child\<in>set (sub_options option1). option_type child = ''subcommand''"
  using assms unfolding validate_option_nesting_def first_error_None Let_def by (auto simp: list_ex_iff)

lemma option_ok_nesting: "option_ok ucd o1 \<Longrightarrow> validate_option_nesting o1 = None"
  by (cases o1) simp

lemma option_ok_children: "option_ok ucd o1 \<Longrightarrow> \<forall>child\<in>set (sub_options o1). option_ok ucd child"
  by (cases o1) (simp add: list_all_iff)

text \<open>How deep an accepted option can nest, by its type.\<close>

lemma walk_scalars:
  assumes "\<forall>o1\<in>set options. option_ok ucd o1 \<and> option_type o1 \<notin> CONTAINER_TYPES" "d \<le> 3"
  shows "\<not> walk options d"
  using assms nesting_ok(1) [OF option_ok_nesting] by (subst walk.simps) (auto simp: list_ex_iff)

lemma walk_subcommands:
  assumes "\<forall>o1\<in>set options. option_ok ucd o1 \<and> option_type o1 \<noteq> ''subcommand_group''" "d \<le> 2"
  shows "\<not> walk options d"
proof -
  have "\<not> walk (sub_options o1) (d + 1)" if o: "o1 \<in> set options" "sub_options o1 \<noteq> []" for o1
  proof (rule walk_scalars)
    have ok: "option_ok ucd o1" "option_type o1 \<noteq> ''subcommand_group''" using assms(1) o(1) by auto
    then have "option_type o1 = ''subcommand''"
      using nesting_ok(1) [OF option_ok_nesting [OF ok(1)]] o(2) by (auto simp: CONTAINER_TYPES_def)
    then show "\<forall>c\<in>set (sub_options o1). option_ok ucd c \<and> option_type c \<notin> CONTAINER_TYPES"
      using nesting_ok(2) [OF option_ok_nesting [OF ok(1)]] option_ok_children [OF ok(1)] by blast
  qed (use assms(2) in simp)
  then show ?thesis using assms(2) by (subst walk.simps) (auto simp: list_ex_iff)
qed

lemma walk_options:
  assumes "\<forall>o1\<in>set options. option_ok ucd o1"
  shows "\<not> walk options 1"
proof -
  have "\<not> walk (sub_options o1) (Suc (Suc 0))" if o: "o1 \<in> set options" "sub_options o1 \<noteq> []" for o1
  proof (rule walk_subcommands)
    have ok: "option_ok ucd o1" using assms o(1) by auto
    have "option_type o1 \<in> CONTAINER_TYPES" using nesting_ok(1) [OF option_ok_nesting [OF ok]] o(2) by blast
    then show "\<forall>c\<in>set (sub_options o1). option_ok ucd c \<and> option_type c \<noteq> ''subcommand_group''"
    proof (cases "option_type o1 = ''subcommand''")
      case True
      show ?thesis using nesting_ok(2) [OF option_ok_nesting [OF ok] True] option_ok_children [OF ok]
        by (auto simp: CONTAINER_TYPES_def)
    next
      case False
      with \<open>option_type o1 \<in> CONTAINER_TYPES\<close> have "option_type o1 = ''subcommand_group''" by (simp add: CONTAINER_TYPES_def)
      then show ?thesis using nesting_ok(3) [OF option_ok_nesting [OF ok]] option_ok_children [OF ok] by simp
    qed
  qed simp
  then show ?thesis by (subst walk.simps) (auto simp: list_ex_iff)
qed

lemma required_first:
  "\<not> required_after_optional options True \<Longrightarrow> \<forall>o1\<in>set options. \<not> o_required (opt_fields o1)"
  "\<not> required_after_optional options False \<Longrightarrow>
     \<forall>o1\<in>set (dropWhile (\<lambda>o1. o_required (opt_fields o1)) options). \<not> o_required (opt_fields o1)"
proof -
  show t: "\<not> required_after_optional options True \<Longrightarrow> \<forall>o1\<in>set options. \<not> o_required (opt_fields o1)" for options
  proof (induction options)
    case (Cons o1 options)
    then show ?case by (cases "o_required (opt_fields o1)") simp_all
  qed simp
  show "\<not> required_after_optional options False \<Longrightarrow>
     \<forall>o1\<in>set (dropWhile (\<lambda>o1. o_required (opt_fields o1)) options). \<not> o_required (opt_fields o1)"
  proof (induction options)
    case (Cons o1 options)
    show ?case
    proof (cases "o_required (opt_fields o1)")
      case True
      then have "\<not> required_after_optional options False" using Cons.prems by simp
      from Cons.IH [OF this] show ?thesis by (simp only: dropWhile.simps True if_True)
    next
      case False
      then have "\<not> required_after_optional options True" using Cons.prems by simp
      from t [OF this] False show ?thesis by simp
    qed
  qed simp
qed


text \<open>A command \<open>/a b c d:text\<close> of the deepest shape the schema has.\<close>

definition sample_ucd :: unicode_db where
  "sample_ucd = \<lparr>lower = (\<lambda>s. s), category = (\<lambda>_. ''Ll'')\<rparr>"

definition sample_option :: "string \<Rightarrow> string \<Rightarrow> CommandOptionDefinition list \<Rightarrow> CommandOptionDefinition" where
  "sample_option kind name children =
     Option \<lparr>o_type = kind, o_name = ucs name, o_name_localizations = [], o_description = ucs ''text'', o_description_localizations = [],
       o_required = False, o_autocomplete = False, o_choices = [], o_channel_types = [], o_min_value = None, o_max_value = None,
       o_min_length = None, o_max_length = None, o_file_types = []\<rparr> children"

definition sample_command :: CommandDefinition where
  "sample_command =
     \<lparr>cd_name = ucs ''a'', cd_type = ''chat_input'', cd_description = ucs ''text'', cd_name_localizations = [],
      cd_description_localizations = [], cd_default_member_permissions = Zero, cd_contexts = [''guild''],
      cd_integration_types = [''guild_install''],
      cd_options = [sample_option ''subcommand_group'' ''b'' [sample_option ''subcommand'' ''c'' [sample_option ''string'' ''d'' []]]]\<rparr>"

lemmas option_checks = option_fields_ok_def OPTION_TYPES_def CONTAINER_TYPES_def valid_chat_input_name_def is_ok_def bound_ok_def
  normalize_file_types_def validate_option_nesting_def validate_option_choices_def validate_option_type_fields_def
  validate_option_bounds_def number_exceeds_def validate_command_option_order_def ucs_def

lemma sample_command_ok: "command_ok sample_ucd (\<lambda>_. 0) sample_command"
  by (simp add: command_ok_def sample_command_def sample_option_def sample_ucd_def valid_command_shape_def
      command_character_count_def localized_length_def option_checks)

section \<open>Properties\<close>

text \<open>
  the nesting rules of options already bound the depth of every accepted command: when each command of a set validates, the
  depth check of the set (\<open>walk\<close>) never raises, so that the set is accepted exactly when the counts per command type
  (100 chat-input, 15 user and 15 message commands) are kept.
\<close>

theorem command_tree_depth_bounded:
  assumes "list_all (command_ok ucd value_length) commands"
  shows "list_all (\<lambda>c. \<not> walk (cd_options c) 1) commands \<and>
     (bounded_tree commands = None \<longleftrightarrow>
        length (filter (\<lambda>c. cd_type c = ''chat_input'') commands) \<le> 100 \<and>
        length (filter (\<lambda>c. cd_type c = ''user'') commands) \<le> 15 \<and>
        length (filter (\<lambda>c. cd_type c = ''message'') commands) \<le> 15)"
proof -
  have "\<not> walk (cd_options c) 1" if "c \<in> set commands" for c
    using assms that by (intro walk_options [of _ ucd]) (auto simp: command_ok_def list_all_iff)
  then show ?thesis unfolding bounded_tree_def first_error_None by (auto simp: list_all_iff list_ex_iff)
qed

theorem command_tree_depth_bounded_witness:
  "list_all (\<lambda>c. \<not> walk (cd_options c) 1) [sample_command] \<and>
     (bounded_tree [sample_command] = None \<longleftrightarrow>
        length (filter (\<lambda>c. cd_type c = ''chat_input'') [sample_command]) \<le> 100 \<and>
        length (filter (\<lambda>c. cd_type c = ''user'') [sample_command]) \<le> 15 \<and>
        length (filter (\<lambda>c. cd_type c = ''message'') [sample_command]) \<le> 15)"
proof -
  have "list_all (command_ok sample_ucd (\<lambda>_. 0)) [sample_command]"
    by (simp add: sample_command_ok)
  from command_tree_depth_bounded [OF this] show ?thesis .
qed

text \<open>
  among sibling options that pass the order check, no locale, supported or not, shows two options under one name, and the
  required options form a prefix of the list.
\<close>

theorem sibling_options_unambiguous:
  assumes "validate_command_option_order options = None"
  shows "distinct (map (localized_name locale1) options) \<and>
     (\<exists>req opt. options = req @ opt \<and> (\<forall>o1\<in>set req. o_required (opt_fields o1)) \<and> (\<forall>o1\<in>set opt. \<not> o_required (opt_fields o1)))"
proof -
  have names: "distinct (map (\<lambda>o1. o_name (opt_fields o1)) options)"
    and locales: "\<forall>l\<in>set (concat (map (\<lambda>o1. map fst (o_name_localizations (opt_fields o1))) options)). distinct (map (localized_name l) options)"
    and req: "\<not> required_after_optional options False"
    using assms unfolding validate_command_option_order_def first_error_None Let_def by (auto simp: list_ex_iff)
  have "distinct (map (localized_name locale1) options)"
  proof (cases "locale1 \<in> set (concat (map (\<lambda>o1. map fst (o_name_localizations (opt_fields o1))) options))")
    case False
    then have "map (localized_name locale1) options = map (\<lambda>o1. o_name (opt_fields o1)) options"
      by (intro map_cong refl) (force simp: localized_name_def map_of_eq_None_iff split: option.split dest: map_of_SomeD)
    then show ?thesis using names by (simp only:)
  qed (use locales in blast)
  moreover have "options = takeWhile (\<lambda>o1. o_required (opt_fields o1)) options @ dropWhile (\<lambda>o1. o_required (opt_fields o1)) options"
    by simp
  moreover have "\<forall>o1\<in>set (takeWhile (\<lambda>o1. o_required (opt_fields o1)) options). o_required (opt_fields o1)"
    by (auto dest: set_takeWhileD)
  ultimately show ?thesis using required_first(2) [OF req] by blast
qed

theorem sibling_options_unambiguous_witness:
  "distinct (map (localized_name (ucs ''fr'')) [sample_option ''string'' ''b'' [], sample_option ''user'' ''c'' []]) \<and>
     (\<exists>req opt. [sample_option ''string'' ''b'' [], sample_option ''user'' ''c'' []] = req @ opt \<and>
        (\<forall>o1\<in>set req. o_required (opt_fields o1)) \<and> (\<forall>o1\<in>set opt. \<not> o_required (opt_fields o1)))"
  by (rule sibling_options_unambiguous) (simp add: validate_command_option_order_def sample_option_def ucs_def localized_name_def)

end
