(* ===== verification/Command_Permissions.thy ===== *)
theory Command_Permissions
  imports Command_Contract Guild_Store "HOL-Library.Multiset"
begin

text \<open>
  Granular command permissions (\<open>bots/command_permissions.py\<close>): the subject of a check, the precedence of user, role, everyone and
  channel entries, and the choice between command rows and the application's synchronised rows.
\<close>

section \<open>Rows and subjects\<close>

record ApplicationCommandPermission =
  ap_application_id :: int
  ap_application_domain :: string
  ap_guild_id :: int
  ap_guild_domain :: string
  ap_command_id :: "int option"
  ap_target_id :: int
  ap_target_domain :: string
  ap_target_type :: string
  ap_permission :: bool

abbreviation ap_target :: "ApplicationCommandPermission \<Rightarrow> entity_ref" where
  "ap_target row \<equiv> (ap_target_id row, ap_target_domain row)"

abbreviation ap_application :: "ApplicationCommandPermission \<Rightarrow> entity_ref" where
  "ap_application row \<equiv> (ap_application_id row, ap_application_domain row)"

record CommandPermissionSubject =
  cs_user_ref :: entity_ref
  cs_role_refs :: "entity_ref set"
  cs_channel_ref :: "entity_ref option"

record CommandPermissionEntry =
  ce_id :: ustr
  ce_type :: string
  ce_permission :: bool

definition unique_targets :: "CommandPermissionEntry list \<Rightarrow> error option" where
  "unique_targets permissions =
     (if distinct (map (\<lambda>e. (ce_type e, ce_id e)) permissions) then None
      else Some (ValueError ''command permission targets must be unique''))"

definition permission_subject :: "Guild \<Rightarrow> User \<Rightarrow> entity_ref list \<Rightarrow> Channel option \<Rightarrow> CommandPermissionSubject" where
  "permission_subject guild user role_refs channel =
     \<lparr>cs_user_ref = u_ref user, cs_role_refs = insert (g_ref guild) (set role_refs),
      cs_channel_ref =
        (case channel of
           None \<Rightarrow> None
         | Some c \<Rightarrow>
             if c_type c \<in> {10, 11, 12}
             then (case (c_parent_id c, c_parent_domain c) of (Some i, Some d) \<Rightarrow> Some (i, d) | _ \<Rightarrow> None)
             else Some (c_ref c))\<rparr>"

section \<open>Decisions\<close>

definition most_specific_subject_decision ::
  "ApplicationCommandPermission list \<Rightarrow> CommandPermissionSubject \<Rightarrow> Guild \<Rightarrow> bool option" where
  "most_specific_subject_decision rows subject guild =
     (case filter (\<lambda>row. ap_target_type row = ''user'' \<and> ap_target row = cs_user_ref subject) rows of
        row # _ \<Rightarrow> Some (ap_permission row)
      | [] \<Rightarrow>
          let assigned = filter (\<lambda>row. ap_target_type row = ''role'' \<and> ap_target row \<in> cs_role_refs subject \<and>
                                      ap_target row \<noteq> g_ref guild) rows
          in if assigned \<noteq> [] then Some (list_ex ap_permission assigned)
             else map_option ap_permission (find (\<lambda>row. ap_target_type row = ''role'' \<and> ap_target row = g_ref guild) rows))"

definition channel_decision ::
  "ApplicationCommandPermission list \<Rightarrow> CommandPermissionSubject \<Rightarrow> Guild \<Rightarrow> bool option" where
  "channel_decision rows subject guild =
     (let exact = (case cs_channel_ref subject of
                     None \<Rightarrow> None
                   | Some ref \<Rightarrow> find (\<lambda>row. ap_target_type row = ''channel'' \<and> ap_target row = ref) rows)
      in case exact of
           Some row \<Rightarrow> Some (ap_permission row)
         | None \<Rightarrow> map_option ap_permission
                    (find (\<lambda>row. ap_target_type row = ''channel'' \<and> ap_target row = (g_id guild - 1, g_origin_domain guild)) rows))"

definition command_permission_allowed ::
  "(pyval \<times> pyval) list \<Rightarrow> int \<Rightarrow> ApplicationCommandPermission list \<Rightarrow> CommandPermissionSubject \<Rightarrow> Guild \<Rightarrow> bool" where
  "command_permission_allowed def1 effective_permissions rows subject guild =
     (if has effective_permissions ADMINISTRATOR then True
      else
        let disabled_by_default = py_eq (dict_get def1 ''default_member_permissions'') (PStr (ucs ''0''));
            required = command_permission_mask def1;
            default_allowed = \<not> disabled_by_default \<and> effective_permissions AND required = required;
            decisions = [most_specific_subject_decision rows subject guild, channel_decision rows subject guild]
        in if list_ex (\<lambda>d. d = Some False) decisions then False
           else if list_ex (\<lambda>d. d = Some True) decisions then True
           else default_allowed)"

section \<open>Loading rows\<close>

definition guild_permission_rows ::
  "ApplicationCommandPermission list \<Rightarrow> Guild \<Rightarrow> entity_ref set \<Rightarrow> int set \<Rightarrow> ApplicationCommandPermission list" where
  "guild_permission_rows table guild application_refs command_ids =
     (if application_refs = {} then []
      else filter (\<lambda>row. (ap_guild_id row, ap_guild_domain row) = g_ref guild \<and> ap_application row \<in> application_refs \<and>
             (case ap_command_id row of None \<Rightarrow> True | Some c \<Rightarrow> c \<in> command_ids)) table)"

definition guild_member_role_refs :: "Session \<Rightarrow> Guild \<Rightarrow> User \<Rightarrow> entity_ref set" where
  "guild_member_role_refs session guild user =
     {(mr_role_id mr, mr_role_domain mr) |mr. mr \<in> set (s_member_roles session) \<and>
        (mr_guild_id mr, mr_guild_domain mr) = g_ref guild \<and> (mr_user_id mr, mr_user_domain mr) = u_ref user}"

definition select_effective_rows ::
  "ApplicationCommandPermission list \<Rightarrow> int \<Rightarrow> entity_ref \<Rightarrow> ApplicationCommandPermission list" where
  "select_effective_rows rows command_id application_ref =
     (let explicit = filter (\<lambda>row. ap_command_id row = Some command_id) rows
      in if explicit \<noteq> [] then explicit
         else filter (\<lambda>row. ap_command_id row = None \<and> ap_application row = application_ref) rows)"

text \<open>The two dictionaries of lists, filled row by row.\<close>

definition append_at :: "'k \<Rightarrow> 'v \<Rightarrow> ('k \<rightharpoonup> 'v list) \<Rightarrow> ('k \<rightharpoonup> 'v list)" where
  "append_at k v m = m(k \<mapsto> (case m k of None \<Rightarrow> [] | Some vs \<Rightarrow> vs) @ [v])"

fun rows_by_scope ::
  "ApplicationCommandPermission list \<Rightarrow> (int \<rightharpoonup> ApplicationCommandPermission list) \<Rightarrow>
   (entity_ref \<rightharpoonup> ApplicationCommandPermission list) \<Rightarrow>
   (int \<rightharpoonup> ApplicationCommandPermission list) \<times> (entity_ref \<rightharpoonup> ApplicationCommandPermission list)" where
  "rows_by_scope [] commands applications = (commands, applications)"
| "rows_by_scope (row # rows) commands applications =
     (case ap_command_id row of
        None \<Rightarrow> rows_by_scope rows commands (append_at (ap_application row) row applications)
      | Some c \<Rightarrow> rows_by_scope rows (append_at c row commands) applications)"

definition permission_rows_by_scope ::
  "ApplicationCommandPermission list \<Rightarrow>
   (int \<rightharpoonup> ApplicationCommandPermission list) \<times> (entity_ref \<rightharpoonup> ApplicationCommandPermission list)" where
  "permission_rows_by_scope rows = rows_by_scope rows Map.empty Map.empty"

section \<open>Facts\<close>

lemma rows_by_scope_filter:
  "rows_by_scope rows commands applications = (cs, as) \<Longrightarrow>
     (let ms = filter (\<lambda>row. ap_command_id row = Some c) rows
      in cs c = (if ms = [] then commands c else Some ((case commands c of None \<Rightarrow> [] | Some vs \<Rightarrow> vs) @ ms))) \<and>
     (let ms = filter (\<lambda>row. ap_command_id row = None \<and> ap_application row = a) rows
      in as a = (if ms = [] then applications a else Some ((case applications a of None \<Rightarrow> [] | Some vs \<Rightarrow> vs) @ ms)))"
  by (induction rows commands applications rule: rows_by_scope.induct)
     (auto simp: append_at_def Let_def split: option.splits if_splits)

text \<open>The target of a row; the database keeps one row per target in a scope.\<close>

definition target_key :: "ApplicationCommandPermission \<Rightarrow> string \<times> entity_ref" where
  "target_key row = (ap_target_type row, ap_target row)"

text \<open>What the rows say about one target, whatever their order.\<close>

definition entry :: "ApplicationCommandPermission list \<Rightarrow> string \<Rightarrow> entity_ref \<Rightarrow> bool option" where
  "entry rows kind ref = map_option ap_permission (find (\<lambda>row. target_key row = (kind, ref)) rows)"

lemma find_target_key:
  "find (\<lambda>row. ap_target_type row = kind \<and> ap_target row = ref) rows = find (\<lambda>row. target_key row = (kind, ref)) rows"
  by (rule find_cong) (auto simp: target_key_def)

lemma hd_filter_find: "(case filter p xs of x # _ \<Rightarrow> f x | [] \<Rightarrow> d) = (case find p xs of Some x \<Rightarrow> f x | None \<Rightarrow> d)"
  by (induction xs) auto

lemma find_entry: "map_option ap_permission (find (\<lambda>row. ap_target_type row = kind \<and> ap_target row = ref) rows) = entry rows kind ref"
  by (simp only: find_target_key entry_def)

text \<open>With one row per target, an entry is what the row of the target says.\<close>

lemma entry_Some_iff:
  assumes "distinct (map target_key rows)"
  shows "entry rows kind ref = Some b \<longleftrightarrow> (\<exists>row\<in>set rows. target_key row = (kind, ref) \<and> ap_permission row = b)"
proof
  assume "entry rows kind ref = Some b"
  then show "\<exists>row\<in>set rows. target_key row = (kind, ref) \<and> ap_permission row = b"
    by (auto simp: entry_def dest!: find_SomeD)
next
  assume "\<exists>row\<in>set rows. target_key row = (kind, ref) \<and> ap_permission row = b"
  then obtain row where row: "row \<in> set rows" "target_key row = (kind, ref)" "ap_permission row = b" by blast
  have "inj_on target_key (set rows)" using assms by (simp add: distinct_map)
  then have uniq: "y = row" if "y \<in> set rows" "target_key y = (kind, ref)" for y
    using inj_onD [of target_key "set rows" y row] that row by simp
  have "find (\<lambda>row. target_key row = (kind, ref)) rows = Some row"
    by (rule find_unique [where p = "\<lambda>row. target_key row = (kind, ref)", OF row(1,2) uniq])
  then show "entry rows kind ref = Some b" using row by (simp add: entry_def)
qed

lemma entry_None_iff: "entry rows kind ref = None \<longleftrightarrow> (\<forall>row\<in>set rows. target_key row \<noteq> (kind, ref))"
  by (simp add: entry_def find_None_iff) blast

lemma entry_perm:
  assumes "distinct (map target_key rows)" "mset rows = mset rows'"
  shows "entry rows kind ref = entry rows' kind ref"
proof -
  have set: "set rows = set rows'" using assms(2) by (metis set_mset_mset)
  have "distinct (map target_key rows')"
    using assms mset_eq_imp_distinct_iff [of "map target_key rows" "map target_key rows'"] by simp
  then show ?thesis
    using entry_Some_iff [OF assms(1), of kind ref] entry_Some_iff [of rows' kind ref] entry_None_iff [of rows kind ref]
      entry_None_iff [of rows' kind ref] unfolding set
    by (cases "entry rows kind ref"; cases "entry rows' kind ref") auto
qed

text \<open>The precedence of the entries, stated over targets.\<close>

definition subject_rule :: "(string \<Rightarrow> entity_ref \<Rightarrow> bool option) \<Rightarrow> entity_ref \<Rightarrow> entity_ref set \<Rightarrow> entity_ref \<Rightarrow> bool option" where
  "subject_rule says user roles everyone =
     (case says ''user'' user of
        Some b \<Rightarrow> Some b
      | None \<Rightarrow>
          if \<exists>r\<in>roles - {everyone}. says ''role'' r \<noteq> None then Some (\<exists>r\<in>roles - {everyone}. says ''role'' r = Some True)
          else says ''role'' everyone)"

definition channel_rule :: "(string \<Rightarrow> entity_ref \<Rightarrow> bool option) \<Rightarrow> entity_ref option \<Rightarrow> entity_ref \<Rightarrow> bool option" where
  "channel_rule says channel all_channels =
     (case Option.bind channel (says ''channel'') of Some b \<Rightarrow> Some b | None \<Rightarrow> says ''channel'' all_channels)"

lemma subject_decision_rule:
  assumes "distinct (map target_key rows)"
  shows "most_specific_subject_decision rows subject guild =
     subject_rule (entry rows) (cs_user_ref subject) (cs_role_refs subject) (g_ref guild)"
proof -
  define roles where "roles = filter (\<lambda>row. ap_target_type row = ''role'' \<and> ap_target row \<in> cs_role_refs subject \<and>
      ap_target row \<noteq> g_ref guild) rows"
  have some: "roles \<noteq> [] \<longleftrightarrow> (\<exists>r\<in>cs_role_refs subject - {g_ref guild}. entry rows ''role'' r \<noteq> None)"
    unfolding roles_def entry_None_iff filter_empty_conv by (auto simp: target_key_def)
  have allow: "list_ex ap_permission roles \<longleftrightarrow> (\<exists>r\<in>cs_role_refs subject - {g_ref guild}. entry rows ''role'' r = Some True)"
    unfolding roles_def entry_Some_iff [OF assms] list_ex_iff by (auto simp: target_key_def)
  show ?thesis
    unfolding most_specific_subject_decision_def subject_rule_def hd_filter_find roles_def [symmetric] Let_def some allow find_entry
    by (simp add: find_target_key entry_def split: option.splits)
qed

lemma channel_decision_rule:
  "channel_decision rows subject guild =
     channel_rule (entry rows) (cs_channel_ref subject) (g_id guild - 1, g_origin_domain guild)"
  unfolding channel_decision_def channel_rule_def Let_def find_entry
  by (cases "cs_channel_ref subject") (simp_all add: find_target_key entry_def split: option.splits)


definition command_guild :: Guild where
  "command_guild = \<lparr>g_id = 7, g_origin_domain = ''k'', g_owner_id = 1, g_owner_domain = ''k'', g_permission_generation = 0,
     g_onboarding = None\<rparr>"

definition sample_row :: "int \<Rightarrow> string \<Rightarrow> bool \<Rightarrow> ApplicationCommandPermission" where
  "sample_row target kind allow =
     \<lparr>ap_application_id = 3, ap_application_domain = ''k'', ap_guild_id = 7, ap_guild_domain = ''k'', ap_command_id = Some 5,
      ap_target_id = target, ap_target_domain = ''k'', ap_target_type = kind, ap_permission = allow\<rparr>"

section \<open>Properties\<close>

text \<open>
  C7: whether a member may run a command follows the documented precedence: administrators always may; otherwise neither the
  subject's entry (user before assigned roles, of which one allowing suffices, before everyone) nor the channel's entry (the
  channel before all channels) may deny, and either an entry allows or the default permissions do. With one row per target,
  the order in which the database returns the rows does not matter.
\<close>

theorem command_permission_precedence:
  assumes "distinct (map target_key rows)"
  shows "(command_permission_allowed def1 permissions rows subject guild \<longleftrightarrow>
      has permissions ADMINISTRATOR \<or>
      (let s = subject_rule (entry rows) (cs_user_ref subject) (cs_role_refs subject) (g_ref guild);
           c = channel_rule (entry rows) (cs_channel_ref subject) (g_id guild - 1, g_origin_domain guild)
       in s \<noteq> Some False \<and> c \<noteq> Some False \<and>
          (s = Some True \<or> c = Some True \<or>
           (dict_get def1 ''default_member_permissions'' \<noteq> PStr (ucs ''0'') \<and>
            submask (command_permission_mask def1) permissions)))) \<and>
     (mset rows = mset rows' \<longrightarrow>
        command_permission_allowed def1 permissions rows subject guild = command_permission_allowed def1 permissions rows' subject guild)"
proof -
  have allowed: "command_permission_allowed def1 permissions rs subject guild \<longleftrightarrow>
      has permissions ADMINISTRATOR \<or>
      (let s = subject_rule (entry rs) (cs_user_ref subject) (cs_role_refs subject) (g_ref guild);
           c = channel_rule (entry rs) (cs_channel_ref subject) (g_id guild - 1, g_origin_domain guild)
       in s \<noteq> Some False \<and> c \<noteq> Some False \<and>
          (s = Some True \<or> c = Some True \<or>
           (dict_get def1 ''default_member_permissions'' \<noteq> PStr (ucs ''0'') \<and>
            submask (command_permission_mask def1) permissions)))" if "distinct (map target_key rs)" for rs
  proof -
    have zero: "py_eq v (PStr s) \<longleftrightarrow> v = PStr s" for v s by (cases v) (auto simp: number_of_def)
    have sub: "permissions AND m = m \<longleftrightarrow> submask m permissions" for m
      by (auto simp: submask_iff bit_eq_iff bit_and_iff)
    show ?thesis
      unfolding command_permission_allowed_def Let_def zero sub subject_decision_rule [OF that] channel_decision_rule by auto
  qed
  have "distinct (map target_key rows')" if "mset rows = mset rows'"
    using assms that mset_eq_imp_distinct_iff [of "map target_key rows" "map target_key rows'"] by simp
  moreover have "entry rows = entry rows'" if "mset rows = mset rows'"
    using entry_perm [OF assms that] by (intro ext) auto
  ultimately show ?thesis using allowed [OF assms] allowed [of rows'] by simp
qed

theorem command_permission_precedence_witness:
  "let rows = [sample_row 1 ''user'' False, sample_row 2 ''role'' True];
       subject = \<lparr>cs_user_ref = (9, ''k''), cs_role_refs = {(2, ''k''), (7, ''k'')}, cs_channel_ref = None\<rparr>
   in command_permission_allowed [] 0 rows subject command_guild"
proof -
  have "distinct (map target_key [sample_row 1 ''user'' False, sample_row 2 ''role'' True])"
    by (simp add: sample_row_def target_key_def)
  from command_permission_precedence [OF this, THEN conjunct1, of "[]" 0
      "\<lparr>cs_user_ref = (9, ''k''), cs_role_refs = {(2, ''k''), (7, ''k'')}, cs_channel_ref = None\<rparr>" command_guild]
  show ?thesis
    by (simp add: subject_rule_def channel_rule_def entry_def target_key_def sample_row_def command_guild_def insert_Diff_if)
qed

text \<open>
  the rows grouped once for a whole guild give every command the rows that the per-command selection gives: its own rows when
  it has any, and the rows of its application otherwise.
\<close>

theorem select_effective_rows_by_scope:
  "permission_rows_by_scope rows = (commands, applications) \<Longrightarrow>
   select_effective_rows rows command_id application_ref =
     (case commands command_id of Some rs \<Rightarrow> rs
      | None \<Rightarrow> (case applications application_ref of Some rs \<Rightarrow> rs | None \<Rightarrow> []))"
  using rows_by_scope_filter [of rows Map.empty Map.empty commands applications command_id application_ref]
  by (auto simp: permission_rows_by_scope_def select_effective_rows_def Let_def split: if_splits)

theorem select_effective_rows_by_scope_witness:
  "select_effective_rows [sample_row 1 ''user'' False, (sample_row 2 ''role'' True)\<lparr>ap_command_id := None\<rparr>] 6 (3, ''k'') =
     [(sample_row 2 ''role'' True)\<lparr>ap_command_id := None\<rparr>]"
proof -
  obtain commands applications where scopes:
    "permission_rows_by_scope [sample_row 1 ''user'' False, (sample_row 2 ''role'' True)\<lparr>ap_command_id := None\<rparr>] = (commands, applications)"
    by (cases "permission_rows_by_scope [sample_row 1 ''user'' False, (sample_row 2 ''role'' True)\<lparr>ap_command_id := None\<rparr>]")
  from select_effective_rows_by_scope [OF this, of 6 "(3, ''k'')"] show ?thesis
    using scopes by (auto simp: permission_rows_by_scope_def append_at_def sample_row_def)
qed

end
