(* ===== verification/Poll_Results.thy ===== *)
theory Poll_Results
  imports Entity_Refs "HOL-Library.Sublist"
begin

text \<open>
  Poll results (\<open>chat/poll_results.py\<close>): the label-free projection of a closed poll, the embed rendered from it, the
  validators of both, the complete body accepted over federation, and the two recognisers of authority-signed events.
  A wire value is a \<open>pyval\<close>; a projection that went through \<open>model_validate\<close> and \<open>model_dump\<close> is the record of its fields.
\<close>

section \<open>The projection\<close>

definition POLL_RESULT_MESSAGE_TYPE :: int where
  "POLL_RESULT_MESSAGE_TYPE = 46"

definition POLL_RESULT_VERSION :: int where
  "POLL_RESULT_VERSION = 1"

definition DM_POLL_MUTATION_EVENTS :: "ustr set" where
  "DM_POLL_MUTATION_EVENTS = {ucs ''dm.poll.vote.add'', ucs ''dm.poll.vote.remove'', ucs ''dm.poll.finalize''}"

text \<open>The regular expression of a qualified reference, with its length bounds.\<close>

definition QualifiedRef :: "ustr \<Rightarrow> bool" where
  "QualifiedRef s \<longleftrightarrow>
     3 \<le> length s \<and> length s \<le> 273 \<and>
     (case partition_at s of
        (identifier, separator, domain) \<Rightarrow>
          separator \<and> identifier \<noteq> [] \<and> list_all is_digit identifier \<and> hd identifier \<noteq> 48 \<and> length identifier \<le> 19 \<and>
          domain \<noteq> [] \<and> length domain \<le> 253 \<and>
          list_all (\<lambda>c. (97 \<le> c \<and> c \<le> 122) \<or> is_digit c \<or> c \<in> {46, 45}) domain \<and>
          hd domain \<notin> {46, 45} \<and> last domain \<notin> {46, 45})"

record PollResultAnswerCount =
  ac_id :: int
  ac_count :: int

record PollResultProjection =
  pr_version :: int
  pr_poll_message_ref :: ustr
  pr_source_encryption_mode :: string
  pr_answer_counts :: "PollResultAnswerCount list"
  pr_total_votes :: int
  pr_victor_answer_id :: "int option"
  pr_victor_answer_votes :: int

definition answer_count_ok :: "PollResultAnswerCount \<Rightarrow> bool" where
  "answer_count_ok a \<longleftrightarrow> 1 \<le> ac_id a \<and> ac_id a \<le> 10 \<and> 0 \<le> ac_count a"

definition projection_fields_ok :: "PollResultProjection \<Rightarrow> bool" where
  "projection_fields_ok p \<longleftrightarrow>
     pr_version p = POLL_RESULT_VERSION \<and> QualifiedRef (pr_poll_message_ref p) \<and>
     pr_source_encryption_mode p \<in> {''plaintext'', ''e2ee''} \<and>
     pr_answer_counts p \<noteq> [] \<and> length (pr_answer_counts p) \<le> 10 \<and> list_all answer_count_ok (pr_answer_counts p) \<and>
     0 \<le> pr_total_votes p \<and> (case pr_victor_answer_id p of None \<Rightarrow> True | Some i \<Rightarrow> 1 \<le> i \<and> i \<le> 10) \<and>
     0 \<le> pr_victor_answer_votes p"

text \<open>\<open>max\<close> of the counts (of a non-empty list, or 0), and the victor: the only answer with the highest, positive count.\<close>

definition highest_count :: "(int \<times> int) list \<Rightarrow> int" where
  "highest_count counts = (if counts = [] then 0 else Max (set (map snd counts)))"

definition victor :: "(int \<times> int) list \<Rightarrow> int option \<times> int" where
  "victor answer_counts =
     (let highest = highest_count answer_counts;
          winners = map fst (filter (\<lambda>ac. snd ac = highest) answer_counts)
      in (if 0 < highest \<and> length winners = 1 then Some (hd winners) else None, highest))"

abbreviation count_pairs :: "PollResultProjection \<Rightarrow> (int \<times> int) list" where
  "count_pairs p \<equiv> map (\<lambda>a. (ac_id a, ac_count a)) (pr_answer_counts p)"

definition internally_consistent :: "PollResultProjection \<Rightarrow> PollResultProjection result" where
  "internally_consistent p =
     (let identifier = nat_of_str (fst (partition_at (pr_poll_message_ref p)));
          answer_ids = map ac_id (pr_answer_counts p);
          highest = Max (set (map ac_count (pr_answer_counts p)));
          winners = map ac_id (filter (\<lambda>a. ac_count a = highest) (pr_answer_counts p));
          expected_victor = (if 0 < highest \<and> length winners = 1 then Some (hd winners) else None)
      in if MAX_SNOWFLAKE < int identifier
         then Inl (ValueError ''poll result source snowflake is outside the database range'')
         else if answer_ids \<noteq> sorted_list_of_set (set answer_ids)
         then Inl (ValueError ''poll result answer counts must be sorted and unique'')
         else if pr_total_votes p \<noteq> sum_list (map ac_count (pr_answer_counts p))
         then Inl (ValueError ''poll result total does not match its answer counts'')
         else if pr_victor_answer_id p \<noteq> expected_victor \<or> pr_victor_answer_votes p \<noteq> highest
         then Inl (ValueError ''poll result victor does not match its answer counts'')
         else Inr p)"

text \<open>\<open>PollResultProjection.model_validate\<close> of typed fields, and of a wire value: exact types, no further members.\<close>

definition validate_fields :: "PollResultProjection \<Rightarrow> PollResultProjection result" where
  "validate_fields p =
     (if projection_fields_ok p then internally_consistent p else Inl (ValueError ''poll result projection is invalid''))"

definition parse_answer_count :: "pyval \<Rightarrow> PollResultAnswerCount option" where
  "parse_answer_count v =
     (case v of
        PDict d \<Rightarrow>
          if \<not> has_keys d [''id'', ''count''] then None
          else Option.bind (as_int (dict_get d ''id'')) (\<lambda>i.
               Option.bind (as_int (dict_get d ''count'')) (\<lambda>c. Some \<lparr>ac_id = i, ac_count = c\<rparr>))
      | _ \<Rightarrow> None)"

fun traverse :: "('a \<Rightarrow> 'b option) \<Rightarrow> 'a list \<Rightarrow> 'b list option" where
  "traverse f [] = Some []"
| "traverse f (x # xs) = Option.bind (f x) (\<lambda>y. Option.bind (traverse f xs) (\<lambda>ys. Some (y # ys)))"

definition encryption_mode :: "pyval \<Rightarrow> string option" where
  "encryption_mode v = find (\<lambda>m. v = PStr (ucs m)) [''plaintext'', ''e2ee'']"

definition projection_keys :: "string list" where
  "projection_keys = [''version'', ''poll_message_ref'', ''source_encryption_mode'', ''answer_counts'', ''total_votes'',
     ''victor_answer_id'', ''victor_answer_votes'']"

definition parse_projection :: "pyval \<Rightarrow> PollResultProjection option" where
  "parse_projection v =
     (case v of
        PDict d \<Rightarrow>
          if \<not> has_keys d projection_keys \<and> \<not> has_keys d (filter (\<lambda>k. k \<noteq> ''victor_answer_id'') projection_keys) then None
          else
            Option.bind (as_int (dict_get d ''version'')) (\<lambda>version.
            Option.bind (as_str (dict_get d ''poll_message_ref'')) (\<lambda>reference.
            Option.bind (encryption_mode (dict_get d ''source_encryption_mode'')) (\<lambda>mode.
            Option.bind (case dict_get d ''answer_counts'' of PList xs \<Rightarrow> traverse parse_answer_count xs | _ \<Rightarrow> None) (\<lambda>counts.
            Option.bind (as_int (dict_get d ''total_votes'')) (\<lambda>total.
            Option.bind (case dict_get d ''victor_answer_id'' of PNone \<Rightarrow> Some None | PInt i \<Rightarrow> Some (Some i) | _ \<Rightarrow> None) (\<lambda>victor_id.
            Option.bind (as_int (dict_get d ''victor_answer_votes'')) (\<lambda>votes.
              Some \<lparr>pr_version = version, pr_poll_message_ref = reference, pr_source_encryption_mode = mode, pr_answer_counts = counts,
                pr_total_votes = total, pr_victor_answer_id = victor_id, pr_victor_answer_votes = votes\<rparr>)))))))
      | _ \<Rightarrow> None)"

definition qualified_ref :: "int \<times> ustr \<Rightarrow> ustr" where
  "qualified_ref ref = ucs (string_of_int (fst ref)) @ 64 # snd ref"

definition check_source :: "PollResultProjection result \<Rightarrow> (int \<times> ustr) option \<Rightarrow> PollResultProjection result" where
  "check_source validated source_ref =
     rbind validated (\<lambda>projection.
       case source_ref of
         Some ref \<Rightarrow> if pr_poll_message_ref projection \<noteq> qualified_ref ref
                     then Inl (ValueError ''poll result source reference is inconsistent'') else Inr projection
       | None \<Rightarrow> Inr projection)"

definition validate_poll_result_projection :: "pyval \<Rightarrow> (int \<times> ustr) option \<Rightarrow> PollResultProjection result" where
  "validate_poll_result_projection v source_ref =
     check_source (case parse_projection v of None \<Rightarrow> Inl (ValueError ''poll result projection is invalid'') | Some p \<Rightarrow> validate_fields p)
       source_ref"

text \<open>The builder passes exactly typed values to the validator; \<open>sorted\<close> orders pairs lexicographically.\<close>

definition built_projection :: "int \<times> ustr \<Rightarrow> (int \<times> int) list \<Rightarrow> string \<Rightarrow> PollResultProjection" where
  "built_projection source_ref answer_counts mode =
     \<lparr>pr_version = POLL_RESULT_VERSION, pr_poll_message_ref = qualified_ref source_ref, pr_source_encryption_mode = mode,
      pr_answer_counts = map (\<lambda>(i, c). \<lparr>ac_id = i, ac_count = c\<rparr>) (sort_key fst (sort_key snd answer_counts)),
      pr_total_votes = sum_list (map snd answer_counts),
      pr_victor_answer_id = fst (victor answer_counts), pr_victor_answer_votes = snd (victor answer_counts)\<rparr>"

definition build_poll_result_projection :: "int \<times> ustr \<Rightarrow> (int \<times> int) list \<Rightarrow> string \<Rightarrow> PollResultProjection result" where
  "build_poll_result_projection source_ref answer_counts mode =
     check_source (validate_fields (built_projection source_ref answer_counts mode)) (Some source_ref)"

section \<open>The embed\<close>

text \<open>\<open>str(x)\<close>; \<open>repr1\<close> prints the floats, containers and other objects, whose text the code never interprets.\<close>

definition py_str :: "(pyval \<Rightarrow> ustr) \<Rightarrow> pyval \<Rightarrow> ustr" where
  "py_str repr1 v =
     (case v of PStr s \<Rightarrow> s | PInt i \<Rightarrow> ucs (string_of_int i) | PBool b \<Rightarrow> ucs (if b then ''True'' else ''False'')
      | PNone \<Rightarrow> ucs ''None'' | _ \<Rightarrow> repr1 v)"

definition embed_field :: "string \<times> ustr \<Rightarrow> pyval" where
  "embed_field f = PDict [(pkey ''name'', pkey (fst f)), (pkey ''value'', PStr (snd f)), (pkey ''inline'', PBool False)]"

text \<open>The entries of the list \<open>fields\<close>, as pairs of name and value; \<open>embed_field\<close> adds the constant member.\<close>

definition emoji_fields :: "(pyval \<Rightarrow> ustr) \<Rightarrow> (pyval \<times> pyval) list \<Rightarrow> (string \<times> ustr) list" where
  "emoji_fields repr1 emoji =
     (if dict_get emoji ''id'' \<noteq> PNone then [(''victor_answer_emoji_id'', py_str repr1 (dict_get emoji ''id''))] else []) @
     (if dict_get emoji ''name'' \<noteq> PNone then [(''victor_answer_emoji_name'', py_str repr1 (dict_get emoji ''name''))] else []) @
     (if dict_get emoji ''animated'' \<noteq> PNone
      then [(''victor_answer_emoji_animated'', ucs (if dict_get emoji ''animated'' = PBool True then ''true'' else ''false''))] else [])"

type_synonym answer = "int \<times> ustr option \<times> (pyval \<times> pyval) list option"

definition encrypted_question :: "(pyval \<times> pyval) list option \<Rightarrow> bool" where
  "encrypted_question question =
     (case question of None \<Rightarrow> False
      | Some q \<Rightarrow> py_eq (PDict q) (PDict [(pkey ''encrypted'', PBool True), (pkey ''version'', PInt 1)]))"

definition question_fields :: "(pyval \<times> pyval) list option \<Rightarrow> (string \<times> ustr) list" where
  "question_fields question =
     (if encrypted_question question then []
      else case (case question of None \<Rightarrow> PNone | Some q \<Rightarrow> dict_get q ''text'') of
             PStr s \<Rightarrow> if s \<noteq> [] then [(''poll_question_text'', s)] else []
           | _ \<Rightarrow> [])"

definition answer_fields :: "(pyval \<Rightarrow> ustr) \<Rightarrow> answer list \<Rightarrow> int \<Rightarrow> (string \<times> ustr) list" where
  "answer_fields repr1 answers winner_id =
     (case find (\<lambda>a. fst a = winner_id) answers of
        None \<Rightarrow> []
      | Some (_, text1, emoji) \<Rightarrow>
          (case text1 of Some t \<Rightarrow> if t \<noteq> [] then [(''victor_answer_text'', t)] else [] | None \<Rightarrow> []) @
          (case emoji of Some e \<Rightarrow> emoji_fields repr1 e | None \<Rightarrow> []))"

definition result_fields :: "(pyval \<Rightarrow> ustr) \<Rightarrow> PollResultProjection \<Rightarrow> (pyval \<times> pyval) list option \<Rightarrow> answer list \<Rightarrow> (string \<times> ustr) list" where
  "result_fields repr1 projection question answers =
     question_fields question @
     [(''victor_answer_votes'', ucs (string_of_int (pr_victor_answer_votes projection))),
      (''total_votes'', ucs (string_of_int (pr_total_votes projection)))] @
     (case pr_victor_answer_id projection of
        None \<Rightarrow> []
      | Some winner_id \<Rightarrow>
          (''victor_answer_id'', ucs (string_of_int winner_id)) #
          (if encrypted_question question then [] else answer_fields repr1 answers winner_id))"

definition poll_result_embed :: "(pyval \<Rightarrow> ustr) \<Rightarrow> PollResultProjection \<Rightarrow> (pyval \<times> pyval) list option \<Rightarrow> answer list \<Rightarrow> pyval" where
  "poll_result_embed repr1 projection question answers =
     PDict [(pkey ''type'', pkey ''poll_result''),
       (pkey ''fields'', PList (map embed_field (result_fields repr1 projection question answers)))]"

definition victor_label_fields :: "ustr set" where
  "victor_label_fields =
     {ucs ''victor_answer_text'', ucs ''victor_answer_emoji_id'', ucs ''victor_answer_emoji_name'', ucs ''victor_answer_emoji_animated''}"

definition allowed_fields :: "ustr set" where
  "allowed_fields =
     {ucs ''poll_question_text'', ucs ''victor_answer_votes'', ucs ''total_votes'', ucs ''victor_answer_id''} \<union> victor_label_fields"

definition field_item :: "pyval \<Rightarrow> (ustr \<times> ustr) option" where
  "field_item item =
     (case item of
        PDict d \<Rightarrow>
          if \<not> has_keys d [''name'', ''value'', ''inline''] \<or> dict_get d ''inline'' \<noteq> PBool False then None
          else (case (dict_get d ''name'', dict_get d ''value'') of
             (PStr name, PStr text1) \<Rightarrow>
               if name \<in> allowed_fields \<and> 1 \<le> length text1 \<and> length text1 \<le> 1024 then Some (name, text1) else None
           | _ \<Rightarrow> None)
      | _ \<Rightarrow> None)"

fun collect_fields :: "pyval list \<Rightarrow> (ustr \<times> ustr) list \<Rightarrow> (ustr \<times> ustr) list result" where
  "collect_fields [] collected = Inr collected"
| "collect_fields (item # items) collected =
     (case field_item item of
        None \<Rightarrow> Inl (ValueError ''poll result embed field is invalid'')
      | Some (name, text1) \<Rightarrow>
          if name \<in> set (map fst collected) then Inl (ValueError ''poll result embed field is invalid'')
          else collect_fields items (collected @ [(name, text1)]))"

text \<open>The checks of the collected fields against the projection.\<close>

definition embed_inconsistency :: "(ustr \<times> ustr) list \<Rightarrow> PollResultProjection \<Rightarrow> error option" where
  "embed_inconsistency collected projection =
     (let get = (\<lambda>name. map_of collected (ucs name))
      in if get ''victor_answer_votes'' \<noteq> Some (ucs (string_of_int (pr_victor_answer_votes projection)))
         then Some (ValueError ''poll result embed victor count is inconsistent'')
         else if get ''total_votes'' \<noteq> Some (ucs (string_of_int (pr_total_votes projection)))
         then Some (ValueError ''poll result embed total is inconsistent'')
         else if get ''victor_answer_id'' \<noteq> map_option (\<lambda>i. ucs (string_of_int i)) (pr_victor_answer_id projection)
         then Some (ValueError ''poll result embed victor is inconsistent'')
         else if pr_victor_answer_id projection = None \<and> victor_label_fields \<inter> set (map fst collected) \<noteq> {}
         then Some (ValueError ''poll result embed labels require a victor'')
         else if get ''victor_answer_emoji_animated'' \<notin> {None, Some (ucs ''true''), Some (ucs ''false'')}
         then Some (ValueError ''poll result embed animated marker is invalid'')
         else None)"

definition validate_poll_result_embed :: "pyval \<Rightarrow> PollResultProjection \<Rightarrow> pyval result" where
  "validate_poll_result_embed v projection =
     (case v of
        PDict d \<Rightarrow>
          if \<not> has_keys d [''type'', ''fields''] then Inl (ValueError ''poll result embed shape is invalid'')
          else (case dict_get d ''fields'' of
             PList raw_fields \<Rightarrow>
               if \<not> py_eq (dict_get d ''type'') (pkey ''poll_result'') then Inl (ValueError ''poll result embed type is invalid'')
               else if \<not> (2 \<le> length raw_fields \<and> length raw_fields \<le> 8)
               then Inl (ValueError ''poll result embed field count is invalid'')
               else rbind (collect_fields raw_fields []) (\<lambda>collected.
                 case embed_inconsistency collected projection of
                   Some e \<Rightarrow> Inl e
                 | None \<Rightarrow> Inr (PDict [(pkey ''type'', pkey ''poll_result''), (pkey ''fields'', PList raw_fields)]))
           | _ \<Rightarrow> Inl (ValueError ''poll result embed type is invalid''))
      | _ \<Rightarrow> Inl (ValueError ''poll result embed shape is invalid''))"

text \<open>Called on validated embeds, whose field names are strings.\<close>

definition poll_result_embed_has_private_labels :: "pyval \<Rightarrow> bool" where
  "poll_result_embed_has_private_labels v =
     (case v of
        PDict d \<Rightarrow>
          (case dict_get d ''fields'' of
             PList items \<Rightarrow>
               list_ex (\<lambda>item. case item of
                  PDict f \<Rightarrow> (case dict_get f ''name'' of PStr name \<Rightarrow> name \<in> insert (ucs ''poll_question_text'') victor_label_fields | _ \<Rightarrow> False)
                | _ \<Rightarrow> False) items
           | _ \<Rightarrow> True)
      | _ \<Rightarrow> True)"

section \<open>The federated message body\<close>

text \<open>
  The identifier of the referenced message. Every text other than a positive canonical decimal ends in a \<open>ValueError\<close>,
  a digit that is not a decimal digit through the conversion to an integer.
\<close>

definition referenced_source :: "(pyval \<times> pyval) list \<Rightarrow> (int \<times> ustr) result" where
  "referenced_source raw =
     (let text1 = (case dict_get raw ''referenced_message_id'' of PStr s \<Rightarrow> Some s | PInt i \<Rightarrow> Some (ucs (string_of_int i)) | _ \<Rightarrow> None)
      in case (text1, dict_get raw ''referenced_message_domain'') of
           (Some t, PStr domain) \<Rightarrow>
             if canonical_decimal t \<and> 0 < nat_of_str t then Inr (int (nat_of_str t), domain)
             else Inl (ValueError ''poll result source reference is invalid'')
         | _ \<Rightarrow> Inl (ValueError ''poll result source reference is invalid''))"

definition absent_members :: "string list" where
  "absent_members =
     [''content'', ''e2ee'', ''poll'', ''forwarded_message_id'', ''forwarded_message_domain'', ''forwarded_channel_id'',
      ''forwarded_channel_domain'', ''forward_snapshot'', ''application_id'', ''application_domain'', ''interaction_metadata'',
      ''webhook'', ''webhook_id'', ''view_expires_at'', ''interaction_integration_type'', ''interaction_installation_ref'',
      ''interaction_installation_revision'']"

definition same_ref :: "(pyval \<Rightarrow> ustr) \<Rightarrow> pyval \<Rightarrow> pyval \<Rightarrow> int \<times> ustr \<Rightarrow> bool" where
  "same_ref repr1 i domain ref \<longleftrightarrow> py_str repr1 i = ucs (string_of_int (fst ref)) \<and> py_eq domain (PStr (snd ref))"

definition canonical_body :: "(pyval \<Rightarrow> ustr) \<Rightarrow> (pyval \<times> pyval) list \<Rightarrow> int \<times> ustr \<Rightarrow> int \<times> ustr \<Rightarrow> bool" where
  "canonical_body repr1 raw author_ref channel_ref \<longleftrightarrow>
     py_eq (dict_get raw ''message_type'') (PInt POLL_RESULT_MESSAGE_TYPE) \<and>
     same_ref repr1 (dict_get raw ''author_id'') (dict_get raw ''author_domain'') author_ref \<and>
     same_ref repr1 (dict_get raw ''channel_id'') (dict_get raw ''channel_domain'') channel_ref \<and>
     list_all (\<lambda>name. dict_get raw name = PNone) absent_members \<and>
     list_all (\<lambda>name. py_eq (dict_get raw name) (PList [])) [''attachments'', ''components'', ''sticker_items''] \<and>
     dict_get raw ''tts'' = PBool False \<and> py_eq (dict_get raw ''flags'') (PInt 0) \<and>
     py_eq (dict_get_or raw ''view_version'' (PInt 0)) (PInt 0) \<and> dict_get_or raw ''view_persistent'' (PBool False) = PBool False \<and>
     py_eq (dict_get raw ''mention_user_refs'')
       (PList [PDict [(pkey ''id'', PStr (ucs (string_of_int (fst author_ref)))), (pkey ''origin_domain'', PStr (snd author_ref))]])"

definition single_embed :: "pyval \<Rightarrow> pyval option" where
  "single_embed embeds = (case embeds of PList [item] \<Rightarrow> Some item | _ \<Rightarrow> None)"

definition validate_poll_result_wire_body ::
  "(pyval \<Rightarrow> ustr) \<Rightarrow> (pyval \<times> pyval) list \<Rightarrow> int \<times> ustr \<Rightarrow> int \<times> ustr \<Rightarrow> (int \<times> ustr) option \<Rightarrow> (PollResultProjection \<times> pyval) result" where
  "validate_poll_result_wire_body repr1 raw author_ref channel_ref source_ref =
     rbind (referenced_source raw) (\<lambda>actual_source_ref.
       if source_ref \<noteq> None \<and> source_ref \<noteq> Some actual_source_ref
       then Inl (ValueError ''poll result source reference is inconsistent'')
       else rbind (validate_poll_result_projection (dict_get raw ''poll_result'') (Some actual_source_ref)) (\<lambda>projection.
         if \<not> canonical_body repr1 raw author_ref channel_ref
         then Inl (ValueError ''poll result body is not the canonical system projection'')
         else (case single_embed (dict_get raw ''embeds'') of
            Some embed0 \<Rightarrow>
              rbind (validate_poll_result_embed embed0 projection) (\<lambda>embed1.
                if pr_source_encryption_mode projection = ''e2ee'' \<and> poll_result_embed_has_private_labels embed1
                then Inl (ValueError ''encrypted poll result leaks private labels'')
                else Inr (projection, embed1))
          | None \<Rightarrow> Inl (ValueError ''poll result embed is missing''))))"

section \<open>Authority-signed events\<close>

text \<open>
  \<open>str.isdigit\<close> per code point and the decimal value that \<open>int\<close> gives a code point, if any; \<open>int\<close> refuses texts of more than
  4300 digits.
\<close>

record digits_db =
  isdigit :: "nat \<Rightarrow> bool"
  decimal_value :: "nat \<Rightarrow> nat option"

definition py_int :: "digits_db \<Rightarrow> ustr \<Rightarrow> nat result" where
  "py_int db s =
     (if s \<noteq> [] \<and> length s \<le> 4300 \<and> list_all (\<lambda>c. decimal_value db c \<noteq> None) s
      then Inr (foldl (\<lambda>acc c. 10 * acc + (case decimal_value db c of Some d \<Rightarrow> d | None \<Rightarrow> 0)) 0 s)
      else Inl (ValueError ''invalid literal for int()''))"

definition positive_decimal :: "digits_db \<Rightarrow> ustr \<Rightarrow> bool result" where
  "positive_decimal db s =
     (if s = [] \<or> \<not> list_all (isdigit db) s then Inr False
      else rbind (py_int db s) (\<lambda>n. Inr (str_nat n = s \<and> 0 < n)))"

definition authority_attested_direct_poll_result ::
  "(pyval \<Rightarrow> ustr) \<Rightarrow> digits_db \<Rightarrow> ustr \<Rightarrow> pyval \<Rightarrow> ustr \<Rightarrow> ustr \<times> ustr \<Rightarrow> bool result" where
  "authority_attested_direct_poll_result repr1 db event_type content expected_authority actor =
     (case content of
        PDict c \<Rightarrow>
          (case (dict_get c ''message'', dict_get c ''author'') of
             (PDict raw, PDict author) \<Rightarrow>
               if event_type \<noteq> ucs ''dm.message.create'' then Inr False
               else rbind (positive_decimal db (fst actor)) (\<lambda>author_ok.
                 if \<not> author_ok then Inr False
                 else (case dict_get raw ''channel_id'' of
                    PStr channel_id \<Rightarrow>
                      rbind (positive_decimal db channel_id) (\<lambda>channel_ok.
                        if \<not> channel_ok then Inr False
                        else (case validate_poll_result_wire_body repr1 raw (int (nat_of_str (fst actor)), snd actor)
                                 (int (nat_of_str channel_id), expected_authority) None of
                           Inl _ \<Rightarrow> Inr False
                         | Inr _ \<Rightarrow>
                             Inr (py_eq (dict_get raw ''origin_domain'') (PStr expected_authority) \<and>
                               py_eq (dict_get raw ''channel_domain'') (PStr expected_authority) \<and>
                               py_str repr1 (dict_get author ''id'') = fst actor \<and>
                               py_eq (dict_get author ''origin_domain'') (PStr (snd actor)))))
                  | _ \<Rightarrow> Inr False))
           | _ \<Rightarrow> Inr False)
      | _ \<Rightarrow> Inr False)"

text \<open>An ASCII decimal without a leading zero that fits a database identifier.\<close>

definition wire_identifier :: "pyval \<Rightarrow> bool result" where
  "wire_identifier v =
     (case v of
        PStr s \<Rightarrow>
          if s = [] \<or> \<not> list_all is_digit s \<or> hd s = 48 then Inr False
          else if 4300 < length s then Inl (ValueError ''invalid literal for int()'')
          else Inr (int (nat_of_str s) \<le> MAX_SNOWFLAKE)
      | _ \<Rightarrow> Inr False)"

fun all_identifiers :: "pyval list \<Rightarrow> bool result" where
  "all_identifiers [] = Inr True"
| "all_identifiers (v # vs) = rbind (wire_identifier v) (\<lambda>ok. if ok then all_identifiers vs else Inr False)"

text \<open>\<open>fromisoformat\<close> of the standard library: \<open>None\<close> is its \<open>ValueError\<close>, otherwise whether the result has a time zone.\<close>

definition authority_attested_dm_poll_mutation ::
  "(ustr \<Rightarrow> bool option) \<Rightarrow> ustr \<Rightarrow> pyval \<Rightarrow> pyval \<Rightarrow> ustr \<Rightarrow> bool result" where
  "authority_attested_dm_poll_mutation fromisoformat event_type content context1 expected_authority =
     (case (content, context1) of
        (PDict c, PDict x) \<Rightarrow>
          if event_type \<notin> DM_POLL_MUTATION_EVENTS \<or> \<not> has_keys x [''conversation_id'', ''conversation_domain''] \<or>
             \<not> py_eq (dict_get x ''conversation_domain'') (PStr expected_authority)
          then Inr False
          else rbind (all_identifiers [dict_get x ''conversation_id'', dict_get c ''message_id'', dict_get c ''channel_id'']) (\<lambda>ok.
            let common = [''message_id'', ''message_domain'', ''channel_id'', ''channel_domain'']
            in if \<not> ok then Inr False
               else if \<not> py_eq (dict_get c ''channel_id'') (dict_get x ''conversation_id'') \<or>
                 \<not> py_eq (dict_get c ''channel_domain'') (PStr expected_authority) \<or>
                 (case dict_get c ''message_domain'' of PStr d \<Rightarrow> d = [] | _ \<Rightarrow> True)
               then Inr False
               else if event_type \<in> {ucs ''dm.poll.vote.add'', ucs ''dm.poll.vote.remove''}
               then Inr (has_keys c (common @ [''answer_id'']) \<and>
                      (case dict_get c ''answer_id'' of PInt i \<Rightarrow> 1 \<le> i \<and> i \<le> 10 | _ \<Rightarrow> False))
               else if \<not> has_keys c (common @ [''finalized_at'']) then Inr False
               else (case dict_get c ''finalized_at'' of
                  PStr t \<Rightarrow> Inr (case fromisoformat t of None \<Rightarrow> False | Some aware \<Rightarrow> aware)
                | _ \<Rightarrow> Inr False))
      | _ \<Rightarrow> Inr False)"

section \<open>Facts\<close>

lemma sorted_insort_id: "sorted (map f xs) \<Longrightarrow> sort_key f xs = xs"
  by (rule sort_key_id_if_sorted)

lemma sort_pairs_id:
  assumes "sorted (map fst xs)" "distinct (map fst xs)"
  shows "sort_key fst (sort_key snd xs) = (xs :: (int \<times> int) list)"
proof -
  have "map fst (sort_key fst (sort_key snd xs)) = map fst xs"
    by (rule map_sorted_distinct_set_unique [where f = id, simplified])
       (use assms in \<open>simp_all add: distinct_map\<close>)
  moreover have "inj_on fst (set xs)" using assms(2) by (simp add: distinct_map)
  moreover have "set (sort_key fst (sort_key snd xs)) = set xs" by simp
  ultimately show ?thesis by (metis inj_on_map_eq_map Un_absorb)
qed

lemma validate_fields_Inr:
  "validate_fields p = Inr q \<longleftrightarrow> q = p \<and> projection_fields_ok p \<and>
     int (nat_of_str (fst (partition_at (pr_poll_message_ref p)))) \<le> MAX_SNOWFLAKE \<and>
     sorted (map ac_id (pr_answer_counts p)) \<and> distinct (map ac_id (pr_answer_counts p)) \<and>
     pr_total_votes p = sum_list (map ac_count (pr_answer_counts p)) \<and>
     (pr_victor_answer_id p, pr_victor_answer_votes p) = victor (count_pairs p)"
proof (cases "projection_fields_ok p")
  case False
  then show ?thesis by (simp add: validate_fields_def)
next
  case True
  then have ne: "pr_answer_counts p \<noteq> []" by (simp add: projection_fields_ok_def)
  have sorted: "map ac_id (pr_answer_counts p) = sorted_list_of_set (set (map ac_id (pr_answer_counts p))) \<longleftrightarrow>
      sorted (map ac_id (pr_answer_counts p)) \<and> distinct (map ac_id (pr_answer_counts p))"
    by (metis sorted_list_of_set.distinct_sorted_key_list_of_set sorted_list_of_set.sorted_sorted_key_list_of_set
        sorted_list_of_set.idem_if_sorted_distinct map_ident List.finite_set)
  have highest: "highest_count (count_pairs p) = Max (set (map ac_count (pr_answer_counts p)))"
    using ne by (simp add: highest_count_def o_def image_image)
  have winners: "map fst (filter (\<lambda>ac. snd ac = h) (count_pairs p)) = map ac_id (filter (\<lambda>a. ac_count a = h) (pr_answer_counts p))" for h
    by (simp add: filter_map o_def)
  have v: "victor (count_pairs p) =
      (let h = Max (set (map ac_count (pr_answer_counts p))); ws = map ac_id (filter (\<lambda>a. ac_count a = h) (pr_answer_counts p))
       in (if 0 < h \<and> length ws = 1 then Some (hd ws) else None, h))"
    unfolding victor_def highest winners Let_def ..
  show ?thesis
    using True unfolding validate_fields_def internally_consistent_def v Let_def sorted prod.inject
    by (auto simp: sorted [unfolded list.set_map])
qed

lemma check_source_Inr: "check_source r (Some ref) = Inr p \<longleftrightarrow> r = Inr p \<and> pr_poll_message_ref p = qualified_ref ref"
  by (auto simp: check_source_def result_simps split: if_splits)

lemma built_from_counts:
  assumes "validate_fields p = Inr p" "pr_poll_message_ref p = qualified_ref ref"
  shows "built_projection ref (count_pairs p) (pr_source_encryption_mode p) = p"
proof -
  note ok = assms(1) [unfolded validate_fields_Inr]
  have "sort_key fst (sort_key snd (count_pairs p)) = count_pairs p"
    using ok by (intro sort_pairs_id) (simp_all add: o_def)
  moreover have "map (\<lambda>(i, c). \<lparr>ac_id = i, ac_count = c\<rparr>) (count_pairs p) = pr_answer_counts p"
    by (simp add: o_def) (rule map_idI, simp)
  moreover have "fst (victor (count_pairs p)) = pr_victor_answer_id p" "snd (victor (count_pairs p)) = pr_victor_answer_votes p"
    using ok by (metis fst_conv, metis snd_conv)
  moreover have "pr_version p = POLL_RESULT_VERSION" using ok by (simp add: projection_fields_ok_def)
  ultimately show ?thesis using ok assms(2) by (simp add: built_projection_def o_def)
qed


lemma key_unique: "distinct (map fst xs) \<Longrightarrow> (a, c) \<in> set xs \<Longrightarrow> x \<in> set xs \<Longrightarrow> fst x = a \<Longrightarrow> x = (a, c)"
  using eq_key_imp_eq_value [of xs a c "snd x"] by (simp add: prod_eq_iff)  (metis prod.collapse)

lemma single_filter:
  assumes "distinct (map fst xs)"
  shows "length (filter P xs) = 1 \<and> fst (hd (filter P xs)) = a \<longleftrightarrow>
     (\<exists>c. (a, c) \<in> set xs \<and> P (a, c) \<and> (\<forall>x\<in>set xs. fst x \<noteq> a \<longrightarrow> \<not> P x))"
proof
  assume l: "length (filter P xs) = 1 \<and> fst (hd (filter P xs)) = a"
  then obtain c where c: "filter P xs = [(a, c)]" by (cases "filter P xs") (auto simp: length_Suc_conv)
  have "set (filter P xs) = {(a, c)}" by (simp add: c)
  then have iff: "x \<in> set xs \<and> P x \<longleftrightarrow> x = (a, c)" for x by auto
  show "\<exists>c. (a, c) \<in> set xs \<and> P (a, c) \<and> (\<forall>x\<in>set xs. fst x \<noteq> a \<longrightarrow> \<not> P x)"
    using iff by (intro exI [of _ c]) (metis fst_conv)
next
  assume "\<exists>c. (a, c) \<in> set xs \<and> P (a, c) \<and> (\<forall>x\<in>set xs. fst x \<noteq> a \<longrightarrow> \<not> P x)"
  then obtain c where c: "(a, c) \<in> set xs" "P (a, c)" "\<forall>x\<in>set xs. fst x \<noteq> a \<longrightarrow> \<not> P x" by blast
  have only: "x = (a, c)" if "x \<in> set xs" "P x" for x
    by (rule key_unique [OF assms c(1) that(1)]) (use c(3) that in blast)
  have "set (filter P xs) = {(a, c)}"
  proof (intro equalityI subsetI)
    fix x assume "x \<in> set (filter P xs)"
    then show "x \<in> {(a, c)}" using only [of x] by simp
  qed (use c(1,2) in simp)
  moreover have "distinct (filter P xs)" using assms by (intro distinct_filter) (simp only: distinct_map)
  ultimately have "length (filter P xs) = 1" using distinct_card [of "filter P xs"] by simp
  moreover have "hd (filter P xs) \<in> set (filter P xs)" using calculation by (intro hd_in_set) auto
  ultimately show "length (filter P xs) = 1 \<and> fst (hd (filter P xs)) = a"
    using only [of "hd (filter P xs)"] by simp
qed

lemma victor_iff:
  assumes "distinct (map fst counts)"
  shows "fst (victor counts) = Some a \<longleftrightarrow> (\<exists>c>0. (a, c) \<in> set counts \<and> (\<forall>(b, d)\<in>set counts. b \<noteq> a \<longrightarrow> d < c))"
proof (cases "counts = []")
  case True
  then show ?thesis by (simp add: victor_def highest_count_def)
next
  case False
  define h where "h = highest_count counts"
  have h: "h \<in> snd ` set counts" "\<forall>x\<in>set counts. snd x \<le> h"
    using False by (auto simp: h_def highest_count_def)
  let ?w = "filter (\<lambda>ac. snd ac = h) counts"
  have ne: "?w \<noteq> []" using h(1) by (auto simp: filter_empty_conv)
  have "fst (victor counts) = Some a \<longleftrightarrow> 0 < h \<and> length ?w = 1 \<and> fst (hd ?w) = a"
    using ne by (auto simp: victor_def Let_def h_def [symmetric] hd_map)
  also have "\<dots> \<longleftrightarrow> 0 < h \<and> (\<exists>c. (a, c) \<in> set counts \<and> c = h \<and> (\<forall>x\<in>set counts. fst x \<noteq> a \<longrightarrow> snd x \<noteq> h))"
    unfolding single_filter [OF assms] by simp
  also have "\<dots> \<longleftrightarrow> (\<exists>c>0. (a, c) \<in> set counts \<and> (\<forall>(b, d)\<in>set counts. b \<noteq> a \<longrightarrow> d < c))"
  proof (intro iffI; elim conjE exE)
    fix c assume "0 < h" "(a, c) \<in> set counts" "c = h" "\<forall>x\<in>set counts. fst x \<noteq> a \<longrightarrow> snd x \<noteq> h"
    then show "\<exists>c>0. (a, c) \<in> set counts \<and> (\<forall>(b, d)\<in>set counts. b \<noteq> a \<longrightarrow> d < c)"
      using h(2) by (intro exI [of _ h]) fastforce
  next
    fix c assume c: "0 < c" "(a, c) \<in> set counts" "\<forall>(b, d)\<in>set counts. b \<noteq> a \<longrightarrow> d < c"
    have "x = (a, c)" if "x \<in> set counts" "fst x = a" for x
      by (rule key_unique [OF assms c(2) that])
    obtain b where b: "(b, h) \<in> set counts" using h(1) by force
    have "c = h"
    proof (cases "b = a")
      case True
      with b \<open>\<And>x. x \<in> set counts \<Longrightarrow> fst x = a \<Longrightarrow> x = (a, c)\<close> [of "(b, h)"] show ?thesis by simp
    next
      case False
      with b c(3) have "h < c" by blast
      with h(2) c(2) show ?thesis by force
    qed
    then show "0 < h \<and> (\<exists>c. (a, c) \<in> set counts \<and> c = h \<and> (\<forall>x\<in>set counts. fst x \<noteq> a \<longrightarrow> snd x \<noteq> h))"
      using c by fastforce
  qed
  finally show ?thesis .
qed


lemma ucs_Nil [simp]: "ucs s = [] \<longleftrightarrow> s = []"
  by (simp add: ucs_def)

lemma collect_fields_Inr:
  "distinct (map fst acc) \<Longrightarrow> collect_fields items acc = Inr r \<longleftrightarrow>
     (\<exists>fs. traverse field_item items = Some fs \<and> r = acc @ fs \<and> distinct (map fst (acc @ fs)))"
proof (induction items arbitrary: acc)
  case (Cons item items)
  show ?case
  proof (cases "field_item item")
    case (Some f)
    show ?thesis
    proof (cases "fst f \<in> set (map fst acc)")
      case True
      with Some show ?thesis by (cases f) (auto split: Option.bind_splits)
    next
      case False
      then have "distinct (map fst (acc @ [f]))" using Cons.prems by simp
      from Cons.IH [OF this] False Some show ?thesis by (cases f) (auto split: Option.bind_splits)
    qed
  qed simp
qed auto

definition text_fits :: "ustr \<Rightarrow> bool" where
  "text_fits t \<longleftrightarrow> 1 \<le> length t \<and> length t \<le> 1024"

lemma field_item_embed_field:
  "field_item (embed_field f) = (if ucs (fst f) \<in> allowed_fields \<and> text_fits (snd f) then Some (ucs (fst f), snd f) else None)"
  by (auto simp: field_item_def embed_field_def has_keys_def dict_get_def text_fits_def)

lemma traverse_embed_fields:
  "\<forall>f\<in>set fs. ucs (fst f) \<in> allowed_fields \<Longrightarrow>
   traverse field_item (map embed_field fs) =
     (if list_all (\<lambda>f. text_fits (snd f)) fs then Some (map (\<lambda>f. (ucs (fst f), snd f)) fs) else None)"
  by (induction fs) (auto simp: field_item_embed_field)

lemma emoji_names: "subseq (map fst (emoji_fields repr1 e)) [''victor_answer_emoji_id'', ''victor_answer_emoji_name'', ''victor_answer_emoji_animated'']"
  by (simp add: emoji_fields_def)

lemma answer_names:
  "subseq (map fst (answer_fields repr1 answers w))
     ([''victor_answer_text''] @ [''victor_answer_emoji_id'', ''victor_answer_emoji_name'', ''victor_answer_emoji_animated''])"
proof (cases "find (\<lambda>a. fst a = w) answers")
  case (Some a)
  obtain i t e where a: "a = (i, t, e)" by (cases a)
  have "subseq (map fst (case t of Some t \<Rightarrow> if t \<noteq> [] then [(''victor_answer_text'', t)] else [] | None \<Rightarrow> [])) [''victor_answer_text'']"
    by (simp split: option.splits)
  moreover have "subseq (map fst (case e of Some e \<Rightarrow> emoji_fields repr1 e | None \<Rightarrow> []))
      [''victor_answer_emoji_id'', ''victor_answer_emoji_name'', ''victor_answer_emoji_animated'']"
    using emoji_names by (simp only: option.case_eq_if split: if_splits) simp
  ultimately show ?thesis
    unfolding answer_fields_def Some a option.case prod.case map_append by (rule list_emb_append_mono)
qed (simp add: answer_fields_def)

lemma result_names:
  "subseq (map fst (result_fields repr1 p q answers))
     ([''poll_question_text''] @ [''victor_answer_votes'', ''total_votes''] @ [''victor_answer_id''] @
      [''victor_answer_text''] @ [''victor_answer_emoji_id'', ''victor_answer_emoji_name'', ''victor_answer_emoji_animated''])"
proof -
  have "subseq (map fst (question_fields q)) [''poll_question_text'']"
    by (simp add: question_fields_def split: option.splits pyval.splits)
  moreover have "subseq (map fst (case pr_victor_answer_id p of None \<Rightarrow> []
        | Some w \<Rightarrow> (''victor_answer_id'', ucs (string_of_int w)) # (if encrypted_question q then [] else answer_fields repr1 answers w)))
      ([''victor_answer_id''] @ [''victor_answer_text''] @ [''victor_answer_emoji_id'', ''victor_answer_emoji_name'', ''victor_answer_emoji_animated''])"
    using answer_names [of repr1 answers] by (cases "pr_victor_answer_id p") simp_all
  ultimately show ?thesis
    unfolding result_fields_def map_append by (intro list_emb_append_mono) simp_all
qed

lemma subseq_distinct: "subseq xs ys \<Longrightarrow> distinct ys \<Longrightarrow> distinct xs"
  using subseqs_distinctD [of xs ys] by simp

lemma subseq_set: "subseq xs ys \<Longrightarrow> set xs \<subseteq> set ys"
  by (auto elim: list_emb_set)

lemma question_names: "fst ` set (question_fields q) \<subseteq> {''poll_question_text''}"
  by (auto simp: question_fields_def split: option.splits pyval.splits if_splits)

lemma map_of_ucs: "map_of (map (\<lambda>f. (ucs (fst f), snd f)) fs) (ucs n) = map_of fs n"
  by (induction fs) auto

lemma result_fields_facts:
  fixes rpr p q answers
  defines "fs \<equiv> result_fields rpr p q answers"
  shows "distinct (map fst fs)" "\<forall>f\<in>set fs. ucs (fst f) \<in> allowed_fields" "2 \<le> length fs" "length fs \<le> 8"
    "map_of fs ''victor_answer_votes'' = Some (ucs (string_of_int (pr_victor_answer_votes p)))"
    "map_of fs ''total_votes'' = Some (ucs (string_of_int (pr_total_votes p)))"
    "map_of fs ''victor_answer_id'' = map_option (\<lambda>i. ucs (string_of_int i)) (pr_victor_answer_id p)"
    "map_of fs ''victor_answer_emoji_animated'' \<in> {None, Some (ucs ''true''), Some (ucs ''false'')}"
    "pr_victor_answer_id p = None \<or> encrypted_question q \<Longrightarrow> victor_label_fields \<inter> (ucs \<circ> fst) ` set fs = {}"
proof -
  note names = result_names [of rpr p q answers, folded fs_def]
  show "distinct (map fst fs)" by (rule subseq_distinct [OF names]) simp
  show "length fs \<le> 8" using list_emb_length [OF names] by simp
  show "\<forall>f\<in>set fs. ucs (fst f) \<in> allowed_fields"
    using subseq_set [OF names] by (auto simp: allowed_fields_def victor_label_fields_def)
  show "2 \<le> length fs" by (simp add: fs_def result_fields_def)
  note value_of = map_of_eq_Some_iff [OF \<open>distinct (map fst fs)\<close>]
  show "map_of fs ''victor_answer_votes'' = Some (ucs (string_of_int (pr_victor_answer_votes p)))"
    "map_of fs ''total_votes'' = Some (ucs (string_of_int (pr_total_votes p)))"
    unfolding value_of by (simp_all add: fs_def result_fields_def)
  have question: "(n, t) \<in> set (question_fields q) \<Longrightarrow> n = ''poll_question_text''" for n t
    using question_names [of q] by force
  show "map_of fs ''victor_answer_id'' = map_option (\<lambda>i. ucs (string_of_int i)) (pr_victor_answer_id p)"
  proof (cases "pr_victor_answer_id p")
    case None
    then have "''victor_answer_id'' \<notin> fst ` set fs" by (auto simp: fs_def result_fields_def dest: question)
    then show ?thesis using None by (simp add: map_of_eq_None_iff)
  next
    case (Some i)
    then show ?thesis by (simp add: value_of) (simp add: fs_def result_fields_def)
  qed
  have "t \<in> {ucs ''true'', ucs ''false''}" if "(''victor_answer_emoji_animated'', t) \<in> set fs" for t
    using that
    by (auto simp: fs_def result_fields_def answer_fields_def emoji_fields_def split: option.splits if_splits dest: question)
  then show "map_of fs ''victor_answer_emoji_animated'' \<in> {None, Some (ucs ''true''), Some (ucs ''false'')}"
    by (cases "map_of fs ''victor_answer_emoji_animated''") (auto simp: value_of)
  show "victor_label_fields \<inter> (ucs \<circ> fst) ` set fs = {}" if "pr_victor_answer_id p = None \<or> encrypted_question q"
    using that by (auto simp: fs_def result_fields_def victor_label_fields_def split: option.splits dest!: question)
qed

lemma collect_embed_fields:
  fixes fs :: "(string \<times> ustr) list"
  assumes "distinct (map fst fs)" "\<forall>f\<in>set fs. ucs (fst f) \<in> allowed_fields"
  shows "list_all (\<lambda>f. text_fits (snd f)) fs \<Longrightarrow> collect_fields (map embed_field fs) [] = Inr (map (\<lambda>f. (ucs (fst f), snd f)) fs)"
    and "\<not> list_all (\<lambda>f. text_fits (snd f)) fs \<Longrightarrow> \<exists>e. collect_fields (map embed_field fs) [] = Inl e"
proof -
  have "distinct (map (\<lambda>f. ucs (fst f)) fs)"
    using assms(1) distinct_map [of ucs "map fst fs"] by (simp add: o_def inj_on_def)
  then have d: "distinct (map fst (map (\<lambda>f. (ucs (fst f), snd f)) fs))" by (simp add: o_def)
  note iff = collect_fields_Inr [of "[]" "map embed_field fs", unfolded traverse_embed_fields [OF assms(2)], simplified]
  show "collect_fields (map embed_field fs) [] = Inr (map (\<lambda>f. (ucs (fst f), snd f)) fs)" if "list_all (\<lambda>f. text_fits (snd f)) fs"
    using that d by (simp add: iff)
  show "\<exists>e. collect_fields (map embed_field fs) [] = Inl e" if "\<not> list_all (\<lambda>f. text_fits (snd f)) fs"
    using that iff by (cases "collect_fields (map embed_field fs) []") auto
qed

lemma embed_accepted:
  "(validate_poll_result_embed (poll_result_embed repr1 p question answers) p = Inr (poll_result_embed repr1 p question answers) \<longleftrightarrow>
      list_all (\<lambda>f. text_fits (snd f)) (result_fields repr1 p question answers)) \<and>
   (encrypted_question question \<longrightarrow> \<not> poll_result_embed_has_private_labels (poll_result_embed repr1 p question answers))"
proof (rule conjI)
  define fs where "fs = result_fields repr1 p question answers"
  note facts = result_fields_facts [where rpr = repr1 and p = p and q = question and answers = answers, folded fs_def]
  have validate: "validate_poll_result_embed (poll_result_embed repr1 p question answers) p =
      rbind (collect_fields (map embed_field fs) []) (\<lambda>collected.
        case embed_inconsistency collected p of Some e \<Rightarrow> Inl e | None \<Rightarrow> Inr (poll_result_embed repr1 p question answers))"
    using facts(3,4) unfolding poll_result_embed_def fs_def [symmetric]
    by (simp add: validate_poll_result_embed_def has_keys_def dict_get_def)
  show "validate_poll_result_embed (poll_result_embed repr1 p question answers) p = Inr (poll_result_embed repr1 p question answers) \<longleftrightarrow>
      list_all (\<lambda>f. text_fits (snd f)) (result_fields repr1 p question answers)"
  proof (cases "list_all (\<lambda>f. text_fits (snd f)) fs")
    case True
    have labels: "pr_victor_answer_id p = None \<Longrightarrow> victor_label_fields \<inter> set (map fst (map (\<lambda>f. (ucs (fst f), snd f)) fs)) = {}"
      using facts(9) by (simp add: o_def image_image)
    show ?thesis
      unfolding validate collect_embed_fields(1) [OF facts(1,2) True] fs_def [symmetric]
      using facts(5,6,7,8) labels True by (auto simp: rbind_def embed_inconsistency_def Let_def map_of_ucs)
  next
    case False
    then show ?thesis using collect_embed_fields(2) [OF facts(1,2) False] unfolding validate fs_def [symmetric] by (auto simp: rbind_def)
  qed
next
  show "encrypted_question question \<longrightarrow> \<not> poll_result_embed_has_private_labels (poll_result_embed repr1 p question answers)"
    by (auto simp: poll_result_embed_has_private_labels_def poll_result_embed_def dict_get_def embed_field_def result_fields_def
        question_fields_def victor_label_fields_def list_ex_iff split: option.splits)
qed






definition sample_projection :: PollResultProjection where
  "sample_projection =
     \<lparr>pr_version = 1, pr_poll_message_ref = ucs ''5@k.example'', pr_source_encryption_mode = ''e2ee'',
      pr_answer_counts = [\<lparr>ac_id = 1, ac_count = 3\<rparr>, \<lparr>ac_id = 2, ac_count = 1\<rparr>], pr_total_votes = 4,
      pr_victor_answer_id = Some 1, pr_victor_answer_votes = 3\<rparr>"








lemma sample_build: "build_poll_result_projection (5, ucs ''k.example'') [(2, 1), (1, 3)] ''e2ee'' = Inr sample_projection"
  by code_simp


section \<open>Properties\<close>

text \<open>
  A wire value is accepted as the result of a poll exactly when it parses to the projection that the builder itself makes from
  its reference, encryption mode and answer counts. So total, victor, order and version cannot be forged: they are functions of the counts.
\<close>

theorem poll_projection_canonical:
  "validate_poll_result_projection v (Some ref) = Inr p \<longleftrightarrow>
     parse_projection v = Some p \<and> build_poll_result_projection ref (count_pairs p) (pr_source_encryption_mode p) = Inr p"
proof -
  have id: "validate_fields r = Inr s \<Longrightarrow> s = r" for r s by (simp add: validate_fields_Inr)
  have "validate_fields p = Inr p \<and> pr_poll_message_ref p = qualified_ref ref \<longleftrightarrow>
      build_poll_result_projection ref (count_pairs p) (pr_source_encryption_mode p) = Inr p" (is "?l \<longleftrightarrow> ?r")
  proof
    assume ?l
    then show ?r using built_from_counts [of p ref] by (simp add: build_poll_result_projection_def check_source_Inr)
  next
    assume ?r
    then have b: "validate_fields (built_projection ref (count_pairs p) (pr_source_encryption_mode p)) = Inr p"
      "pr_poll_message_ref p = qualified_ref ref"
      by (auto simp: build_poll_result_projection_def check_source_Inr)
    with id [OF b(1)] show ?l by simp
  qed
  moreover have "validate_poll_result_projection v (Some ref) = Inr p \<longleftrightarrow>
      parse_projection v = Some p \<and> validate_fields p = Inr p \<and> pr_poll_message_ref p = qualified_ref ref"
    unfolding validate_poll_result_projection_def check_source_Inr by (auto split: option.splits dest: id)
  ultimately show ?thesis by blast
qed

text \<open>
  C33: The victor of a projection that the builder returns is the one answer whose positive count exceeds every other count; with a tie or without
  votes there is none. The total is the sum of the counts, and no answer is dropped, added or repeated.
\<close>

theorem poll_victor_strict_maximum:
  assumes "build_poll_result_projection ref counts mode = Inr p"
  shows "(\<forall>a. pr_victor_answer_id p = Some a \<longleftrightarrow>
        (\<exists>c>0. (a, c) \<in> set counts \<and> (\<forall>(b, d)\<in>set counts. b \<noteq> a \<longrightarrow> d < c))) \<and>
     pr_total_votes p = sum_list (map snd counts) \<and> set (count_pairs p) = set counts \<and> distinct (map fst counts)"
proof -
  have p: "p = built_projection ref counts mode" and ok: "validate_fields p = Inr p"
    using assms by (auto simp: build_poll_result_projection_def check_source_Inr validate_fields_Inr)
  have pairs: "count_pairs p = sort_key fst (sort_key snd counts)"
    unfolding p built_projection_def by (simp add: o_def case_prod_beta)
  have "distinct (map fst (count_pairs p))" using ok [unfolded validate_fields_Inr] by (simp add: o_def)
  then have "distinct (map fst counts)" unfolding pairs by (simp add: distinct_map)
  then show ?thesis
    using victor_iff [of counts] unfolding pairs by (simp add: p built_projection_def)
qed

theorem poll_victor_strict_maximum_witness:
  "pr_victor_answer_id sample_projection = Some 1 \<and> pr_total_votes sample_projection = sum_list (map snd [(2 :: int, 1), (1, 3)]) \<and>
   set (count_pairs sample_projection) = set [(2, 1), (1, 3)]"
  using poll_victor_strict_maximum [OF sample_build] by (simp add: sample_projection_def)

text \<open>
  The rendered embed passes the server's own validator exactly when every rendered text has between 1 and 1024 characters, and
  an encrypted poll renders no private label.
\<close>

theorem poll_result_embed_accepted:
  "(validate_poll_result_embed (poll_result_embed repr1 p question answers) p = Inr (poll_result_embed repr1 p question answers) \<longleftrightarrow>
      list_all (\<lambda>f. text_fits (snd f)) (result_fields repr1 p question answers)) \<and>
   (encrypted_question question \<longrightarrow> \<not> poll_result_embed_has_private_labels (poll_result_embed repr1 p question answers))"
  by (rule embed_accepted)

theorem poll_result_embed_accepted_witness:
  "\<not> poll_result_embed_has_private_labels (poll_result_embed (\<lambda>_. []) sample_projection
     (Some [(pkey ''encrypted'', PBool True), (pkey ''version'', PInt 1)]) [(1, Some (ucs ''secret''), None)])"
  using poll_result_embed_accepted [of "\<lambda>_. []" sample_projection "Some [(pkey ''encrypted'', PBool True), (pkey ''version'', PInt 1)]"]
  by (simp add: encrypted_question_def number_of_def)




text \<open>
  C40: The recogniser of authority-signed results does not return a verdict on a channel identifier that is a superscript two: it is a
  digit for \<open>str.isdigit\<close> but no decimal for \<open>int\<close>, and the conversion stands outside the guarded block.
\<close>

theorem attested_poll_result_raises:
  assumes "isdigit db 178" "decimal_value db 178 = None" "isdigit db 49" "decimal_value db 49 = Some 1"
  shows "authority_attested_direct_poll_result repr1 db (ucs ''dm.message.create'')
      (PDict [(pkey ''message'', PDict [(pkey ''channel_id'', PStr [178])]), (pkey ''author'', PDict [])]) authority (ucs ''1'', domain1) =
    Inl (ValueError ''invalid literal for int()'')"
proof -
  have one: "ucs ''1'' = [49]" by (simp add: ucs_def)
  have "positive_decimal db [49] = Inr True"
    using assms by (simp add: positive_decimal_def py_int_def rbind_def str_nat.simps [of "Suc 0"])
  moreover have "positive_decimal db [178] = Inl (ValueError ''invalid literal for int()'')"
    using assms by (simp add: positive_decimal_def py_int_def rbind_def)
  ultimately show ?thesis
    unfolding one by (simp add: authority_attested_direct_poll_result_def dict_get_def rbind_def)
qed

theorem attested_poll_result_raises_witness:
  "authority_attested_direct_poll_result (\<lambda>_. []) \<lparr>isdigit = (\<lambda>c. is_digit c \<or> c = 178), decimal_value = (\<lambda>c. if is_digit c then Some (c - 48) else None)\<rparr>
     (ucs ''dm.message.create'')
     (PDict [(pkey ''message'', PDict [(pkey ''channel_id'', PStr [178])]), (pkey ''author'', PDict [])]) (ucs ''a.example'') (ucs ''1'', ucs ''b.example'') =
   Inl (ValueError ''invalid literal for int()'')"
  by (rule attested_poll_result_raises) (simp_all add: is_digit_def)

end
