(* ===== verification/Onboarding.thy ===== *)
theory Onboarding
  imports Permissions
begin

text \<open>
  Server onboarding (\<open>chat/onboarding.py\<close>): the validated configuration, the answers of a joining member, and the roles and
  channels the answers select. Python dictionaries with text keys are association lists; a dictionary comprehension keeps
  the last entry of a repeated key.
\<close>

section \<open>Configuration and answers\<close>

record OnboardingOption =
  oo_id :: ustr
  oo_title :: ustr
  oo_description :: ustr
  oo_emoji :: ustr
  oo_role_ids :: "ustr list"
  oo_channel_ids :: "ustr list"

record OnboardingQuestion =
  oq_id :: ustr
  oq_title :: ustr
  oq_description :: ustr
  oq_required :: bool
  oq_multiple :: bool
  oq_before_join :: bool
  oq_options :: "OnboardingOption list"

record GuideItem =
  gi_id :: ustr
  gi_title :: ustr
  gi_description :: ustr
  gi_channel_id :: "ustr option"
  gi_kind :: string

record OnboardingConfig =
  oc_enabled :: bool
  oc_revision :: int
  oc_rules_revision :: int
  oc_welcome :: ustr
  oc_rules :: "ustr list"
  oc_default_channel_ids :: "ustr list"
  oc_questions :: "OnboardingQuestion list"
  oc_guide :: "GuideItem list"

record OnboardingAnswers =
  oa_revision :: int
  oa_accept_rules :: bool
  oa_answers :: "(ustr \<times> ustr list) list"
  oa_completed_tasks :: "ustr list"
  oa_extra_channel_ids :: "ustr list"

text \<open>The pattern of the identifiers: 1 to 64 letters, digits, underscores and hyphens.\<close>

definition id_pattern :: "ustr \<Rightarrow> bool" where
  "id_pattern s \<longleftrightarrow> 1 \<le> length s \<and> length s \<le> 64 \<and>
     list_all (\<lambda>c. (65 \<le> c \<and> c \<le> 90) \<or> (97 \<le> c \<and> c \<le> 122) \<or> is_digit c \<or> c \<in> {95, 45}) s"

definition option_valid :: "OnboardingOption \<Rightarrow> bool" where
  "option_valid q \<longleftrightarrow>
     id_pattern (oo_id q) \<and> 1 \<le> length (oo_title q) \<and> length (oo_title q) \<le> 100 \<and> length (oo_description q) \<le> 300 \<and>
     length (oo_emoji q) \<le> 16 \<and> length (oo_role_ids q) \<le> 20 \<and> length (oo_channel_ids q) \<le> 50"

definition unique_options :: "OnboardingQuestion \<Rightarrow> error option" where
  "unique_options q =
     (if card (set (map oo_id (oq_options q))) \<noteq> length (oq_options q)
      then Some (ValueError ''Answer IDs must be unique within a question'') else None)"

definition question_valid :: "OnboardingQuestion \<Rightarrow> bool" where
  "question_valid q \<longleftrightarrow>
     id_pattern (oq_id q) \<and> 1 \<le> length (oq_title q) \<and> length (oq_title q) \<le> 200 \<and> length (oq_description q) \<le> 500 \<and>
     1 \<le> length (oq_options q) \<and> length (oq_options q) \<le> 20 \<and> list_all option_valid (oq_options q) \<and> unique_options q = None"

definition guide_item_valid :: "GuideItem \<Rightarrow> bool" where
  "guide_item_valid g \<longleftrightarrow>
     id_pattern (gi_id g) \<and> 1 \<le> length (gi_title g) \<and> length (gi_title g) \<le> 100 \<and> length (gi_description g) \<le> 300 \<and>
     gi_kind g \<in> {''task'', ''resource''}"

definition validate_content :: "OnboardingConfig \<Rightarrow> error option" where
  "validate_content config =
     (if list_ex (\<lambda>rule1. strip rule1 = [] \<or> 1000 < length rule1) (oc_rules config)
      then Some (ValueError ''Rules must contain between 1 and 1000 characters'')
      else if card (set (map oq_id (oc_questions config))) \<noteq> length (oc_questions config) \<or>
        card (set (map gi_id (oc_guide config))) \<noteq> length (oc_guide config)
      then Some (ValueError ''Question and guide IDs must be unique'')
      else if oc_enabled config \<and> oc_rules config = [] \<and> oc_questions config = [] \<and> oc_guide config = []
      then Some (ValueError ''Add rules, questions, or a server guide before enabling onboarding'')
      else None)"

definition config_valid :: "OnboardingConfig \<Rightarrow> bool" where
  "config_valid config \<longleftrightarrow>
     0 \<le> oc_revision config \<and> 0 \<le> oc_rules_revision config \<and> length (oc_welcome config) \<le> 1000 \<and> length (oc_rules config) \<le> 16 \<and>
     length (oc_default_channel_ids config) \<le> 100 \<and> length (oc_questions config) \<le> 12 \<and> list_all question_valid (oc_questions config) \<and>
     length (oc_guide config) \<le> 20 \<and> list_all guide_item_valid (oc_guide config) \<and> validate_content config = None"

definition answers_valid :: "OnboardingAnswers \<Rightarrow> bool" where
  "answers_valid payload \<longleftrightarrow>
     0 \<le> oa_revision payload \<and> length (oa_answers payload) \<le> 12 \<and> length (oa_completed_tasks payload) \<le> 20 \<and>
     length (oa_extra_channel_ids payload) \<le> 100"

definition SELF_ASSIGNABLE_PERMISSIONS :: int where
  "SELF_ASSIGNABLE_PERMISSIONS =
     mask_of [VIEW_CHANNEL, READ_MESSAGE_HISTORY, SEND_MESSAGES, ADD_REACTIONS, CONNECT, SPEAK, STREAM, USE_VAD, ATTACH_FILES,
       EMBED_LINKS, SEND_MESSAGES_IN_THREADS]"

section \<open>Selection\<close>

definition chosen :: "OnboardingAnswers \<Rightarrow> OnboardingQuestion \<Rightarrow> ustr list" where
  "chosen payload q = (case map_of (oa_answers payload) (oq_id q) of None \<Rightarrow> [] | Some answers \<Rightarrow> answers)"

definition options_by_id :: "OnboardingQuestion \<Rightarrow> ustr \<rightharpoonup> OnboardingOption" where
  "options_by_id q = map_of (rev (map (\<lambda>op1. (oo_id op1, op1)) (oq_options q)))"

definition invalid_answer :: "OnboardingQuestion \<Rightarrow> ustr list \<Rightarrow> bool" where
  "invalid_answer q answers \<longleftrightarrow>
     length answers \<noteq> card (set answers) \<or> list_ex (\<lambda>a. options_by_id q a = None) answers \<or>
     (\<not> oq_multiple q \<and> 1 < length answers) \<or> (oq_required q \<and> oq_before_join q \<and> answers = [])"

fun add_options :: "OnboardingQuestion \<Rightarrow> ustr list \<Rightarrow> ustr set \<times> ustr set \<Rightarrow> ustr set \<times> ustr set" where
  "add_options q [] (roles, channels) = (roles, channels)"
| "add_options q (answer # answers) (roles, channels) =
     (case options_by_id q answer of
        Some op1 \<Rightarrow> add_options q answers (roles \<union> set (oo_role_ids op1), channels \<union> set (oo_channel_ids op1))
      | None \<Rightarrow> add_options q answers (roles, channels))"

fun select_questions :: "OnboardingAnswers \<Rightarrow> OnboardingQuestion list \<Rightarrow> ustr set \<times> ustr set \<Rightarrow> (ustr set \<times> ustr set) result" where
  "select_questions payload [] selected = Inr selected"
| "select_questions payload (q # qs) selected =
     (if invalid_answer q (chosen payload q) then Inl (HTTPException 422 ''ONBOARDING_INVALID_ANSWER'')
      else select_questions payload qs (add_options q (chosen payload q) selected))"

definition selected_onboarding :: "OnboardingConfig \<Rightarrow> OnboardingAnswers \<Rightarrow> (ustr set \<times> ustr set) result" where
  "selected_onboarding config payload =
     (if oa_revision payload \<noteq> oc_revision config then Inl (HTTPException 409 ''ONBOARDING_CHANGED'')
      else if \<not> set (map fst (oa_answers payload)) \<subseteq> set (map oq_id (oc_questions config))
      then Inl (HTTPException 422 ''ONBOARDING_INVALID_ANSWER'')
      else rbind (select_questions payload (oc_questions config) ({}, set (oc_default_channel_ids config))) (\<lambda>selected.
        if \<not> set (oa_completed_tasks payload) \<subseteq> set (map gi_id (filter (\<lambda>item. gi_kind item = ''task'') (oc_guide config)))
        then Inl (HTTPException 422 ''ONBOARDING_INVALID_TASK'')
        else Inr selected))"

section \<open>Facts\<close>

definition picked :: "OnboardingAnswers \<Rightarrow> OnboardingQuestion list \<Rightarrow> OnboardingOption set" where
  "picked payload qs = {op1. \<exists>q\<in>set qs. \<exists>a\<in>set (chosen payload q). options_by_id q a = Some op1}"

lemma add_options_eq:
  "add_options q answers selected =
     (fst selected \<union> (\<Union>op1\<in>{op1. \<exists>a\<in>set answers. options_by_id q a = Some op1}. set (oo_role_ids op1)),
      snd selected \<union> (\<Union>op1\<in>{op1. \<exists>a\<in>set answers. options_by_id q a = Some op1}. set (oo_channel_ids op1)))"
  by (induction q answers selected rule: add_options.induct) (auto split: option.splits)

lemma select_questions_eq:
  "select_questions payload qs selected =
     (if \<exists>q\<in>set qs. invalid_answer q (chosen payload q) then Inl (HTTPException 422 ''ONBOARDING_INVALID_ANSWER'')
      else Inr (fst selected \<union> (\<Union>op1\<in>picked payload qs. set (oo_role_ids op1)),
                snd selected \<union> (\<Union>op1\<in>picked payload qs. set (oo_channel_ids op1))))"
proof (induction qs arbitrary: selected)
  case (Cons q qs)
  have "picked payload (q # qs) = {op1. \<exists>a\<in>set (chosen payload q). options_by_id q a = Some op1} \<union> picked payload qs"
    by (auto simp: picked_def)
  then show ?case using Cons.IH by (auto simp: add_options_eq)
qed (simp add: picked_def)

lemma options_by_id_unique:
  assumes "question_valid q"
  shows "options_by_id q a = Some op1 \<longleftrightarrow> op1 \<in> set (oq_options q) \<and> oo_id op1 = a"
proof -
  have "distinct (map oo_id (oq_options q))"
    using assms by (intro card_distinct) (simp add: question_valid_def unique_options_def split: if_splits)
  then have "distinct (map fst (rev (map (\<lambda>op1. (oo_id op1, op1)) (oq_options q))))" by (simp add: rev_map [symmetric] o_def)
  from map_of_eq_Some_iff [OF this, of a op1] show ?thesis by (auto simp: options_by_id_def)
qed

text \<open>The options of a configuration that a payload selects, by identifier.\<close>

definition selected_options :: "OnboardingConfig \<Rightarrow> OnboardingAnswers \<Rightarrow> OnboardingOption set" where
  "selected_options config payload =
     {op1. \<exists>q\<in>set (oc_questions config). op1 \<in> set (oq_options q) \<and> oo_id op1 \<in> set (chosen payload q)}"

lemma picked_selected:
  assumes "list_all question_valid (oc_questions config)"
  shows "picked payload (oc_questions config) = selected_options config payload"
  using assms options_by_id_unique by (auto simp: picked_def selected_options_def list_all_iff)

lemma invalid_answer_iff:
  assumes "question_valid q"
  shows "\<not> invalid_answer q answers \<longleftrightarrow>
     distinct answers \<and> set answers \<subseteq> oo_id ` set (oq_options q) \<and> (oq_multiple q \<or> length answers \<le> 1) \<and>
     (oq_required q \<and> oq_before_join q \<longrightarrow> answers \<noteq> [])"
proof -
  have known: "options_by_id q a = None \<longleftrightarrow> a \<notin> oo_id ` set (oq_options q)" for a
    using options_by_id_unique [OF assms, of a] by (metis image_iff not_Some_eq)
  have unknown: "list_ex (\<lambda>a. options_by_id q a = None) answers \<longleftrightarrow> \<not> set answers \<subseteq> oo_id ` set (oq_options q)"
    unfolding list_ex_iff known by blast
  have dist: "length answers \<noteq> card (set answers) \<longleftrightarrow> \<not> distinct answers"
    by (metis card_distinct distinct_card)
  show ?thesis unfolding invalid_answer_def unknown dist by auto
qed

section \<open>Properties\<close>

text \<open>
  For a validated configuration, the answers of a joining member are accepted exactly when they belong to the current revision,
  answer only existing questions with distinct existing options, one of them unless several are allowed and at least one
  where the question is required before joining, and report only existing tasks. The member is then offered exactly the
  roles and channels of the chosen options and the default channels, never a role of an option that was not chosen.
\<close>

theorem selected_onboarding_exact:
  assumes "config_valid config"
  shows "selected_onboarding config payload = Inr (roles, channels) \<longleftrightarrow>
     oa_revision payload = oc_revision config \<and>
     set (map fst (oa_answers payload)) \<subseteq> set (map oq_id (oc_questions config)) \<and>
     (\<forall>q\<in>set (oc_questions config).
        distinct (chosen payload q) \<and> set (chosen payload q) \<subseteq> oo_id ` set (oq_options q) \<and>
        (oq_multiple q \<or> length (chosen payload q) \<le> 1) \<and> (oq_required q \<and> oq_before_join q \<longrightarrow> chosen payload q \<noteq> [])) \<and>
     set (oa_completed_tasks payload) \<subseteq> {gi_id item |item. item \<in> set (oc_guide config) \<and> gi_kind item = ''task''} \<and>
     roles = (\<Union>op1\<in>selected_options config payload. set (oo_role_ids op1)) \<and>
     channels = set (oc_default_channel_ids config) \<union> (\<Union>op1\<in>selected_options config payload. set (oo_channel_ids op1))"
proof -
  have valid: "list_all question_valid (oc_questions config)" using assms by (simp add: config_valid_def)
  have answers: "(\<exists>q\<in>set (oc_questions config). invalid_answer q (chosen payload q)) \<longleftrightarrow>
     \<not> (\<forall>q\<in>set (oc_questions config).
        distinct (chosen payload q) \<and> set (chosen payload q) \<subseteq> oo_id ` set (oq_options q) \<and>
        (oq_multiple q \<or> length (chosen payload q) \<le> 1) \<and> (oq_required q \<and> oq_before_join q \<longrightarrow> chosen payload q \<noteq> []))"
    using valid invalid_answer_iff unfolding list_all_iff by blast
  have tasks: "{gi_id item |item. item \<in> set (oc_guide config) \<and> gi_kind item = ''task''} =
      set (map gi_id (filter (\<lambda>item. gi_kind item = ''task'') (oc_guide config)))"
    by auto
  show ?thesis
    unfolding selected_onboarding_def select_questions_eq picked_selected [OF valid] answers tasks
    by (auto simp: rbind_def)
qed

definition sample_choice :: "string \<Rightarrow> string \<Rightarrow> OnboardingOption" where
  "sample_choice name role = \<lparr>oo_id = ucs name, oo_title = ucs name, oo_description = [], oo_emoji = [], oo_role_ids = [ucs role], oo_channel_ids = []\<rparr>"

definition sample_question :: OnboardingQuestion where
  "sample_question = \<lparr>oq_id = ucs ''q'', oq_title = ucs ''t'', oq_description = [], oq_required = True, oq_multiple = False,
     oq_before_join = True, oq_options = [sample_choice ''a'' ''5'', sample_choice ''b'' ''6'']\<rparr>"

definition sample_config :: OnboardingConfig where
  "sample_config = \<lparr>oc_enabled = True, oc_revision = 1, oc_rules_revision = 0, oc_welcome = [], oc_rules = [],
     oc_default_channel_ids = [ucs ''9''], oc_questions = [sample_question], oc_guide = []\<rparr>"

definition sample_answers :: OnboardingAnswers where
  "sample_answers = \<lparr>oa_revision = 1, oa_accept_rules = True, oa_answers = [(ucs ''q'', [ucs ''a''])], oa_completed_tasks = [],
     oa_extra_channel_ids = []\<rparr>"

theorem selected_onboarding_exact_witness:
  "selected_onboarding sample_config sample_answers = Inr ({ucs ''5''}, {ucs ''9''})"
proof -
  have valid: "config_valid sample_config" by code_simp
  have chosen: "chosen sample_answers sample_question = [ucs ''a'']"
    by (simp add: chosen_def sample_answers_def sample_question_def)
  have ids: "oo_id (sample_choice n r) = ucs n" "oo_role_ids (sample_choice n r) = [ucs r]" "oo_channel_ids (sample_choice n r) = []" for n r
    by (simp_all add: sample_choice_def)
  have options: "oq_options sample_question = [sample_choice ''a'' ''5'', sample_choice ''b'' ''6'']" "oc_questions sample_config = [sample_question]"
    by (simp_all add: sample_question_def sample_config_def)
  have selected: "selected_options sample_config sample_answers = {sample_choice ''a'' ''5''}"
    unfolding selected_options_def options by (auto simp: options chosen ids)
  show ?thesis
    by (rule iffD2 [OF selected_onboarding_exact [OF valid]], unfold selected options)
       (simp add: chosen ids options, simp add: sample_config_def sample_answers_def sample_question_def)
qed

end
