(* ===== verification/Runtime_Rows.thy ===== *)
theory Runtime_Rows
  imports Entity_Refs Installations "HOL-Library.List_Lexorder" "HOL-Library.Char_ord"
begin

text \<open>
  The rows and messages of federated bot applications: target policies and the wire forms (\<open>bots/target_contract.py\<close>,
  \<open>bots/worker_targets.py\<close>), the signed snapshots, the rows the runtime control works on, the grant transitions of
  \<open>bots/installations.py\<close>, and the announcement a target makes of its installations (\<open>bots/target_discovery.py\<close>).
  \<open>queue_event\<close> appends to the outbox; federation blocks and the discovery of a destination are not part of the model.
\<close>

section \<open>Policies and wire forms\<close>

definition target_policy_allows :: "string \<Rightarrow> (string \<rightharpoonup> string) \<Rightarrow> string \<Rightarrow> bool" where
  "target_policy_allows policy rules target_domain =
     (if policy = ''local_only'' \<or> rules target_domain = Some ''deny'' then False
      else policy \<noteq> ''allowlist'' \<or> rules target_domain = Some ''allow'')"

definition worker_target_allowed :: "string list \<Rightarrow> string \<Rightarrow> string \<Rightarrow> bool" where
  "worker_target_allowed target_domains application_domain target_domain \<longleftrightarrow>
     target_domain = application_domain \<or> target_domains = [] \<or> target_domain \<in> set target_domains"

text \<open>The wire forms: canonical decimal strings and canonical domains.\<close>

definition nonnegative_decimal :: "pyval \<Rightarrow> ustr result" where
  "nonnegative_decimal v =
     (case v of
        PStr s \<Rightarrow>
          if s = [] \<or> \<not> list_all is_digit s \<or> (1 < length s \<and> hd s = 48) \<or> MAX_SNOWFLAKE < int (nat_of_str s)
          then Inl (ValueError ''application target count is outside the supported range'') else Inr s
      | _ \<Rightarrow> Inl (ValueError ''application target counts must be decimal strings''))"

definition positive_decimal_text :: "pyval \<Rightarrow> ustr result" where
  "positive_decimal_text v =
     rbind (nonnegative_decimal v) (\<lambda>rendered.
       if nat_of_str rendered = 0 then Inl (ValueError ''application target identity and generation must be positive'')
       else Inr rendered)"

text \<open>A validated snapshot; its decimal strings are the integers they print.\<close>

record ApplicationRuntimeWorker =
  rw_id :: int
  rw_generation :: int
  rw_revoked :: bool
  rw_target_allowed :: bool

record ApplicationRuntimeSnapshot =
  sn_application_id :: int
  sn_application_domain :: string
  sn_bot_user_id :: int
  sn_bot_user_domain :: string
  sn_target_domain :: string
  sn_manifest_generation :: int
  sn_revocation_generation :: int
  sn_access_revocation_generation :: int
  sn_status :: string
  sn_target_allowed :: bool
  sn_workers :: "ApplicationRuntimeWorker list"

definition positive_range :: "int \<Rightarrow> bool" where
  "positive_range i \<longleftrightarrow> 1 \<le> i \<and> i \<le> MAX_SNOWFLAKE"

definition snapshot_fields_ok :: "ApplicationRuntimeSnapshot \<Rightarrow> bool" where
  "snapshot_fields_ok s \<longleftrightarrow>
     positive_range (sn_application_id s) \<and> positive_range (sn_bot_user_id s) \<and>
     DOMAIN_RE (ucs (sn_application_domain s)) \<and> DOMAIN_RE (ucs (sn_bot_user_domain s)) \<and> DOMAIN_RE (ucs (sn_target_domain s)) \<and>
     positive_range (sn_manifest_generation s) \<and> positive_range (sn_revocation_generation s) \<and>
     0 \<le> sn_access_revocation_generation s \<and> sn_access_revocation_generation s \<le> MAX_SNOWFLAKE \<and>
     sn_status s \<in> {''draft'', ''active'', ''review_required'', ''suspended'', ''deleting'', ''deleted''} \<and>
     length (sn_workers s) \<le> 100 \<and> list_all (\<lambda>w. positive_range (rw_id w) \<and> positive_range (rw_generation w)) (sn_workers s)"

definition coherent_authority :: "ApplicationRuntimeSnapshot \<Rightarrow> error option" where
  "coherent_authority s =
     (if sn_application_domain s \<noteq> sn_bot_user_domain s
      then Some (ValueError ''runtime application and bot authorities must match'')
      else if \<not> distinct (map rw_id (sn_workers s)) then Some (ValueError ''runtime application repeats a worker'')
      else None)"

definition snapshot_validate :: "ApplicationRuntimeSnapshot \<Rightarrow> ApplicationRuntimeSnapshot result" where
  "snapshot_validate s =
     (if \<not> snapshot_fields_ok s then Inl (ValueError ''runtime snapshot is invalid'')
      else case coherent_authority s of Some e \<Rightarrow> Inl e | None \<Rightarrow> Inr s)"

text \<open>The presence of an application on a target, signed by the target.\<close>

record ApplicationTargetSnapshot =
  at_application_id :: int
  at_application_domain :: string
  at_bot_user_id :: int
  at_bot_user_domain :: string
  at_target_domain :: string
  at_generation :: int
  at_guild_installations :: int
  at_user_installations :: int

definition nonnegative_range :: "int \<Rightarrow> bool" where
  "nonnegative_range i \<longleftrightarrow> 0 \<le> i \<and> i \<le> MAX_SNOWFLAKE"

definition target_snapshot_fields_ok :: "ApplicationTargetSnapshot \<Rightarrow> bool" where
  "target_snapshot_fields_ok s \<longleftrightarrow>
     positive_range (at_application_id s) \<and> positive_range (at_bot_user_id s) \<and>
     DOMAIN_RE (ucs (at_application_domain s)) \<and> DOMAIN_RE (ucs (at_bot_user_domain s)) \<and> DOMAIN_RE (ucs (at_target_domain s)) \<and>
     positive_range (at_generation s) \<and> nonnegative_range (at_guild_installations s) \<and> nonnegative_range (at_user_installations s)"

definition target_snapshot_validate :: "ApplicationTargetSnapshot \<Rightarrow> ApplicationTargetSnapshot result" where
  "target_snapshot_validate s =
     (if \<not> target_snapshot_fields_ok s then Inl (ValueError ''application target snapshot is invalid'')
      else if at_application_domain s \<noteq> at_bot_user_domain s
      then Inl (ValueError ''application and bot identity authorities must match'')
      else Inr s)"

type_synonym generations = "int \<times> int \<times> int"

definition runtime_snapshot_order :: "ApplicationRuntimeSnapshot \<Rightarrow> generations" where
  "runtime_snapshot_order s = (sn_manifest_generation s, sn_revocation_generation s, sn_access_revocation_generation s)"

fun runtime_snapshot_is_stale :: "generations \<Rightarrow> generations \<Rightarrow> bool result" where
  "runtime_snapshot_is_stale (m, r, a) (m', r', a') =
     (let has_newer_component = m > m' \<or> r > r' \<or> a > a';
          has_older_component = m < m' \<or> r < r' \<or> a < a'
      in if has_newer_component \<and> has_older_component
         then Inl (ValueError ''runtime application generations cross stored state'')
         else Inr (m \<le> m' \<and> r \<le> r' \<and> a \<le> a'))"

section \<open>Rows\<close>

record RuntimeApplication = BotApplication +
  ra_target_policy :: string

record RuntimeTarget = BotApplicationTarget +
  bt_runtime_access_revocation_generation :: int
  bt_generation :: int
  bt_guild_installations :: int
  bt_user_installations :: int

record RuntimeUserInstallation = BotUserInstallation +
  ru_application_id :: int
  ru_application_domain :: string

record BotApplicationRuntimeHighwater =
  hw_application_id :: int
  hw_application_domain :: string
  hw_target_domain :: string
  hw_bot_user_id :: int
  hw_bot_user_domain :: string
  hw_manifest_generation :: int
  hw_revocation_generation :: int
  hw_access_revocation_generation :: int
  hw_status :: string
  hw_target_allowed :: bool
  hw_runtime_fingerprint :: ustr
  hw_expires_at :: int

record BotWorker =
  bw_id :: int
  bw_authority_id :: int
  bw_application_id :: int
  bw_application_domain :: string
  bw_target_domains :: "string list"
  bw_generation :: int
  bw_revoked_at :: "int option"

record BotToken =
  tk_id :: int
  tk_application_id :: int
  tk_application_domain :: string
  tk_worker_id :: int
  tk_revoked_at :: "int option"

record runtime_store =
  rs_applications :: "RuntimeApplication list"
  rs_targets :: "RuntimeTarget list"
  rs_highwaters :: "BotApplicationRuntimeHighwater list"
  rs_workers :: "BotWorker list"
  rs_tokens :: "BotToken list"
  rs_installations :: "BotInstallation list"
  rs_members :: "GuildMember list"
  rs_user_installations :: "RuntimeUserInstallation list"
  rs_outbox :: "(string \<times> ApplicationRuntimeSnapshot) list"
  rs_target_outbox :: "(string \<times> ApplicationTargetSnapshot) list"

abbreviation ba_ref :: "'z BotApplication_scheme \<Rightarrow> entity_ref" where
  "ba_ref a \<equiv> (ba_id a, ba_origin_domain a)"

abbreviation bt_key :: "'z BotApplicationTarget_scheme \<Rightarrow> entity_ref \<times> string" where
  "bt_key t \<equiv> ((bt_application_id t, bt_application_domain t), bt_target_domain t)"

abbreviation hw_key :: "BotApplicationRuntimeHighwater \<Rightarrow> entity_ref \<times> string" where
  "hw_key h \<equiv> ((hw_application_id h, hw_application_domain h), hw_target_domain h)"

definition bt_generations :: "RuntimeTarget \<Rightarrow> generations" where
  "bt_generations t = (bt_runtime_manifest_generation t, bt_runtime_revocation_generation t, bt_runtime_access_revocation_generation t)"

definition hw_generations :: "BotApplicationRuntimeHighwater \<Rightarrow> generations" where
  "hw_generations h = (hw_manifest_generation h, hw_revocation_generation h, hw_access_revocation_generation h)"

text \<open>\<open>UPDATE ... WHERE\<close>, and writing one row under its key.\<close>

definition update_where :: "('r \<Rightarrow> bool) \<Rightarrow> ('r \<Rightarrow> 'r) \<Rightarrow> 'r list \<Rightarrow> 'r list" where
  "update_where p f rows = map (\<lambda>r. if p r then f r else r) rows"

definition put_row :: "('r \<Rightarrow> 'k) \<Rightarrow> 'r \<Rightarrow> 'r list \<Rightarrow> 'r list" where
  "put_row k row rows = (if k row \<in> set (map k rows) then map (\<lambda>r. if k r = k row then row else r) rows else rows @ [row])"

text \<open>The row of a target, and a new one as the places of the code create it; the database supplies the values they leave out.\<close>

definition find_target :: "runtime_store \<Rightarrow> entity_ref \<Rightarrow> string \<Rightarrow> RuntimeTarget option" where
  "find_target store application_ref target_domain = find (\<lambda>t. bt_key t = (application_ref, target_domain)) (rs_targets store)"

definition fresh_target :: "int \<Rightarrow> entity_ref \<Rightarrow> string \<Rightarrow> RuntimeTarget" where
  "fresh_target generation application_ref target_domain =
     \<lparr>bt_application_id = fst application_ref, bt_application_domain = snd application_ref, bt_target_domain = target_domain,
      bt_runtime_fingerprint = None, bt_runtime_manifest_generation = 0, bt_runtime_revocation_generation = 0,
      bt_runtime_status = ''active'', bt_runtime_target_allowed = True, bt_runtime_access_revocation_generation = 0,
      bt_generation = generation, bt_guild_installations = 0, bt_user_installations = 0\<rparr>"

definition target_row :: "int \<Rightarrow> runtime_store \<Rightarrow> entity_ref \<Rightarrow> string \<Rightarrow> RuntimeTarget" where
  "target_row generation store application_ref target_domain =
     (case find_target store application_ref target_domain of
        Some t \<Rightarrow> t | None \<Rightarrow> fresh_target generation application_ref target_domain)"

definition accept_generations :: "generations \<Rightarrow> ustr \<Rightarrow> RuntimeTarget \<Rightarrow> RuntimeTarget" where
  "accept_generations incoming fingerprint t =
     t\<lparr>bt_runtime_manifest_generation := fst incoming, bt_runtime_revocation_generation := fst (snd incoming),
       bt_runtime_access_revocation_generation := snd (snd incoming), bt_runtime_fingerprint := Some fingerprint\<rparr>"

section \<open>Grants and tokens\<close>

definition of_application :: "entity_ref \<Rightarrow> BotInstallation \<Rightarrow> bool" where
  "of_application application_ref i \<longleftrightarrow> (bi_application_id i, bi_application_domain i) = application_ref"

text \<open>Both return the updated rows and the identifiers of the grants whose update is announced.\<close>

definition rotate_active_application_grants :: "entity_ref \<Rightarrow> BotInstallation list \<Rightarrow> int list \<times> BotInstallation list" where
  "rotate_active_application_grants application_ref rows =
     (let p = (\<lambda>i. of_application application_ref i \<and> bi_status i = ''active'' \<and> bi_revoked_at i = None)
      in (map bi_id (filter p rows), update_where p (\<lambda>i. i\<lparr>bi_grant_revision := bi_grant_revision i + 1\<rparr>) rows))"

definition set_application_installations_enabled ::
  "entity_ref \<Rightarrow> bool \<Rightarrow> bool \<Rightarrow> BotInstallation list \<Rightarrow> int list \<times> BotInstallation list" where
  "set_application_installations_enabled application_ref enabled rotate_active_grants rows =
     (let current_statuses = (if enabled then ''suspended'' else ''active'') # (if enabled \<and> rotate_active_grants then [''active''] else []);
          resulting_status = (if enabled then ''active'' else ''suspended'');
          p = (\<lambda>i. of_application application_ref i \<and> bi_status i \<in> set current_statuses \<and> bi_revoked_at i = None)
      in (map bi_id (filter p rows),
          update_where p (\<lambda>i. i\<lparr>bi_status := resulting_status, bi_grant_revision := bi_grant_revision i + 1\<rparr>) rows))"

definition transition_application_installations ::
  "entity_ref \<Rightarrow> string \<Rightarrow> string \<Rightarrow> BotInstallation list \<Rightarrow> int list \<times> BotInstallation list" where
  "transition_application_installations application_ref previous_status next_status rows =
     (if next_status = ''suspended'' \<and> previous_status \<noteq> ''suspended'' then set_application_installations_enabled application_ref False False rows
      else if previous_status = ''suspended'' \<and> next_status = ''active'' then set_application_installations_enabled application_ref True False rows
      else ([], rows))"

abbreviation tk_application :: "BotToken \<Rightarrow> entity_ref" where
  "tk_application t \<equiv> (tk_application_id t, tk_application_domain t)"

abbreviation bw_application :: "BotWorker \<Rightarrow> entity_ref" where
  "bw_application w \<equiv> (bw_application_id w, bw_application_domain w)"

definition revoke_tokens :: "entity_ref \<Rightarrow> int set \<Rightarrow> int \<Rightarrow> BotToken list \<Rightarrow> BotToken list" where
  "revoke_tokens application_ref worker_ids current tokens =
     update_where (\<lambda>t. tk_application t = application_ref \<and> tk_worker_id t \<in> worker_ids \<and> tk_revoked_at t = None)
       (\<lambda>t. t\<lparr>tk_revoked_at := Some current\<rparr>) tokens"

section \<open>Announcing the presence of an application\<close>

definition application_target_counts :: "runtime_store \<Rightarrow> string \<Rightarrow> RuntimeApplication \<Rightarrow> int \<Rightarrow> int \<times> int" where
  "application_target_counts store settings_domain application current =
     (int (length (filter (\<lambda>i. of_application (ba_ref application) i \<and> bi_status i = ''active'' \<and> bi_revoked_at i = None \<and>
         installation_has_membership (rs_members store) i) (rs_installations store))),
      int (length (filter (\<lambda>u. (ru_application_id u, ru_application_domain u) = ba_ref application \<and>
         usable_user_installation (BotUserInstallation.truncate u) settings_domain current) (rs_user_installations store))))"

definition application_target_payload :: "RuntimeApplication \<Rightarrow> User \<Rightarrow> RuntimeTarget \<Rightarrow> ApplicationTargetSnapshot" where
  "application_target_payload application bot_user target =
     \<lparr>at_application_id = ba_id application, at_application_domain = ba_origin_domain application, at_bot_user_id = u_id bot_user,
      at_bot_user_domain = u_origin_domain bot_user, at_target_domain = bt_target_domain target, at_generation = bt_generation target,
      at_guild_installations = bt_guild_installations target, at_user_installations = bt_user_installations target\<rparr>"

text \<open>Whether the counts changed, and the row with its counts and generation brought up to date.\<close>

definition counts_changed :: "string \<Rightarrow> runtime_store \<Rightarrow> RuntimeApplication \<Rightarrow> int \<Rightarrow> bool" where
  "counts_changed settings_domain store application current =
     (case find_target store (ba_ref application) settings_domain of
        None \<Rightarrow> True
      | Some t \<Rightarrow> (bt_guild_installations t, bt_user_installations t) \<noteq> application_target_counts store settings_domain application current)"

definition announced_row :: "string \<Rightarrow> runtime_store \<Rightarrow> RuntimeApplication \<Rightarrow> bool \<Rightarrow> int \<Rightarrow> RuntimeTarget" where
  "announced_row settings_domain store application force current =
     (let counts = application_target_counts store settings_domain application current
      in case find_target store (ba_ref application) settings_domain of
           None \<Rightarrow> (fresh_target 1 (ba_ref application) settings_domain)
             \<lparr>bt_guild_installations := fst counts, bt_user_installations := snd counts\<rparr>
         | Some t \<Rightarrow>
             if counts_changed settings_domain store application current \<or> force
             then t\<lparr>bt_generation := bt_generation t + 1, bt_guild_installations := fst counts, bt_user_installations := snd counts\<rparr>
             else t)"

text \<open>The latest-state outbox keeps one announcement per application and target.\<close>

definition queue_application_target_snapshot ::
  "string \<Rightarrow> runtime_store \<Rightarrow> RuntimeApplication \<Rightarrow> User \<Rightarrow> bool \<Rightarrow> int \<Rightarrow> (string option \<times> runtime_store) result" where
  "queue_application_target_snapshot settings_domain store application bot_user force current =
     (if u_account_type bot_user \<noteq> ''bot'' \<or> u_disabled_at bot_user \<noteq> None \<or>
        (ba_bot_user_id application, ba_bot_user_domain application) \<noteq> u_ref bot_user \<or>
        ba_origin_domain application \<noteq> u_origin_domain bot_user
      then Inl (ValueError ''application target snapshot bot identity is invalid'')
      else
        let row = announced_row settings_domain store application force current;
            store1 = store\<lparr>rs_targets := put_row bt_key row (rs_targets store)\<rparr>;
            home = ba_origin_domain application
        in if \<not> counts_changed settings_domain store application current \<and> \<not> force \<or> home = settings_domain then Inr (None, store1)
           else Inr (Some home, store1\<lparr>rs_target_outbox :=
             filter (\<lambda>(d, s). \<not> (d = home \<and> (at_application_id s, at_application_domain s) = ba_ref application \<and>
               at_target_domain s = settings_domain)) (rs_target_outbox store1) @
             [(home, application_target_payload application bot_user row)]\<rparr>))"

section \<open>Facts on rows\<close>

lemma find_put_row: "find (\<lambda>r. k r = i) (put_row k row rows) = (if k row = i then Some row else find (\<lambda>r. k r = i) rows)"
proof -
  have map: "find (\<lambda>r. k r = i) (map (\<lambda>r. if k r = k row then row else r) rows) =
      (if k row = i then (if i \<in> k ` set rows then Some row else None) else find (\<lambda>r. k r = i) rows)"
    by (induction rows) auto
  have "find (\<lambda>r. k r = i) (rows @ [row]) = (case find (\<lambda>r. k r = i) rows of None \<Rightarrow> if k row = i then Some row else None | Some r \<Rightarrow> Some r)"
    by (induction rows) auto
  moreover have "i \<notin> k ` set rows \<Longrightarrow> find (\<lambda>r. k r = i) rows = None" by (induction rows) auto
  ultimately show ?thesis using map by (auto simp: put_row_def split: option.splits)
qed

lemma in_put_row: "row \<in> set (put_row k row rows)"
  by (auto simp: put_row_def image_iff)

lemma find_put_row_P: "p row \<Longrightarrow> find p (put_row k row rows) \<noteq> None"
  using in_put_row [of row k rows] by (auto simp: find_None_iff)

lemma find_put_row_unique:
  assumes "p row" "\<And>r. p r \<Longrightarrow> k r = k row"
  shows "find p (put_row k row rows) = Some row"
proof -
  have "k row \<in> k ` set rows \<Longrightarrow> find p (map (\<lambda>r. if k r = k row then row else r) rows) = Some row"
    by (induction rows) (auto simp: assms(1) dest: assms(2))
  moreover have "k row \<notin> k ` set rows \<Longrightarrow> find p (rows @ [row]) = Some row"
    by (induction rows) (auto simp: assms(1) dest: assms(2))
  ultimately show ?thesis by (simp add: put_row_def)
qed

lemma in_update_where: "x \<in> set (update_where p f xs) \<longleftrightarrow> (\<exists>y\<in>set xs. x = (if p y then f y else y))"
  by (auto simp: update_where_def)

lemma find_target_put:
  "rs_targets store' = put_row bt_key t (rs_targets store) \<Longrightarrow>
   find_target store' ref d = (if bt_key t = (ref, d) then Some t else find_target store ref d)"
  by (simp only: find_target_def find_put_row [where k = bt_key])

lemma find_targetD: "find_target store ref d = Some t \<Longrightarrow> bt_key t = (ref, d)"
  by (auto simp: find_target_def dest: find_SomeD)

lemma find_target_cong: "rs_targets store' = rs_targets store \<Longrightarrow> find_target store' ref d = find_target store ref d"
  by (simp add: find_target_def)

lemma accept_generations_simps [simp]:
  "bt_application_id (accept_generations g f t) = bt_application_id t" "bt_application_domain (accept_generations g f t) = bt_application_domain t"
  "bt_target_domain (accept_generations g f t) = bt_target_domain t" "bt_generations (accept_generations g f t) = g"
  "bt_generations (t\<lparr>bt_runtime_status := st, bt_runtime_target_allowed := al\<rparr>) = bt_generations t"
  "bt_runtime_fingerprint (accept_generations g f t) = Some f" "bt_generation (accept_generations g f t) = bt_generation t"
  "bt_runtime_status (accept_generations g f t) = bt_runtime_status t" "bt_runtime_target_allowed (accept_generations g f t) = bt_runtime_target_allowed t"
  by (simp_all add: accept_generations_def bt_generations_def)

lemma target_row_key: "bt_key (target_row g store ref td) = (ref, td)"
  using find_targetD [of store ref td] by (cases "find_target store ref td") (simp_all add: target_row_def fresh_target_def)

lemma target_row_stored: "find_target store (fst (bt_key (target_row g store ref td))) (snd (bt_key (target_row g store ref td))) = Some u \<Longrightarrow>
    u = target_row g store ref td"
  unfolding target_row_key fst_conv snd_conv by (simp add: target_row_def)

text \<open>What an announcement leaves alone: everything but the discovery counters of the target's own row and its outbox.\<close>

definition runtime_view :: "RuntimeTarget \<Rightarrow> generations \<times> ustr option \<times> string \<times> bool" where
  "runtime_view t = (bt_generations t, bt_runtime_fingerprint t, bt_runtime_status t, bt_runtime_target_allowed t)"

definition same_runtime :: "runtime_store \<Rightarrow> runtime_store \<Rightarrow> bool" where
  "same_runtime store store1 \<longleftrightarrow>
     rs_applications store1 = rs_applications store \<and> rs_highwaters store1 = rs_highwaters store \<and> rs_workers store1 = rs_workers store \<and>
     rs_tokens store1 = rs_tokens store \<and> rs_installations store1 = rs_installations store \<and> rs_outbox store1 = rs_outbox store \<and>
     (\<forall>ref td t. find_target store ref td = Some t \<longrightarrow>
        (\<exists>t'. find_target store1 ref td = Some t' \<and> runtime_view t' = runtime_view t \<and> bt_generation t \<le> bt_generation t'))"

lemma same_runtime_refl: "same_runtime store store"
  by (simp add: same_runtime_def)

lemma same_runtimeD: "same_runtime store store1 \<Longrightarrow> find_target store ref td = Some t \<Longrightarrow>
    \<exists>t'. find_target store1 ref td = Some t' \<and> runtime_view t' = runtime_view t \<and> bt_generation t \<le> bt_generation t'"
  unfolding same_runtime_def by blast

lemma same_runtime_put:
  assumes "rs_targets store1 = put_row bt_key row (rs_targets store)"
    and "rs_applications store1 = rs_applications store" "rs_highwaters store1 = rs_highwaters store" "rs_workers store1 = rs_workers store"
      "rs_tokens store1 = rs_tokens store" "rs_installations store1 = rs_installations store" "rs_outbox store1 = rs_outbox store"
    and "\<And>t. find_target store (fst (bt_key row)) (snd (bt_key row)) = Some t \<Longrightarrow> runtime_view row = runtime_view t \<and> bt_generation t \<le> bt_generation row"
  shows "same_runtime store store1"
  unfolding same_runtime_def
proof (intro conjI allI impI)
  fix ref td t assume t: "find_target store ref td = Some t"
  show "\<exists>t'. find_target store1 ref td = Some t' \<and> runtime_view t' = runtime_view t \<and> bt_generation t \<le> bt_generation t'"
  proof (cases "bt_key row = (ref, td)")
    case True
    then show ?thesis using assms(8) [of t] t by (simp add: find_target_put [OF assms(1)])
  next
    case False
    then show ?thesis using t find_target_put [OF assms(1), of ref td] by (auto simp del: prod.inject)
  qed
qed (use assms in simp_all)

lemma queue_target_Inr:
  assumes "queue_application_target_snapshot d store application bot_user force current = Inr (dest, store1)"
  shows "rs_targets store1 = put_row bt_key (announced_row d store application force current) (rs_targets store)"
    "rs_applications store1 = rs_applications store" "rs_highwaters store1 = rs_highwaters store" "rs_workers store1 = rs_workers store"
      "rs_tokens store1 = rs_tokens store" "rs_installations store1 = rs_installations store" "rs_outbox store1 = rs_outbox store"
  using assms by (auto simp: queue_application_target_snapshot_def Let_def split: if_splits)

lemma announced_row_key: "bt_key (announced_row d store application force current) = (ba_ref application, d)"
proof (cases "find_target store (ba_ref application) d")
  case (Some t)
  then show ?thesis using find_targetD [OF Some] by (simp add: announced_row_def Let_def)
qed (simp add: announced_row_def Let_def fresh_target_def)

lemma queue_same_runtime:
  assumes "queue_application_target_snapshot d store application bot_user force current = Inr (dest, store1)"
  shows "same_runtime store store1"
proof (rule same_runtime_put [OF queue_target_Inr [OF assms]])
  fix t assume "find_target store (fst (bt_key (announced_row d store application force current)))
      (snd (bt_key (announced_row d store application force current))) = Some t"
  then show "runtime_view (announced_row d store application force current) = runtime_view t \<and>
      bt_generation t \<le> bt_generation (announced_row d store application force current)"
    unfolding announced_row_key by (simp add: announced_row_def Let_def runtime_view_def bt_generations_def)
qed

lemma queue_target_succeeds:
  assumes "u_account_type bot_user = ''bot''" "u_disabled_at bot_user = None" "(ba_bot_user_id application, ba_bot_user_domain application) = u_ref bot_user"
    "ba_origin_domain application = u_origin_domain bot_user"
  shows "\<exists>dest store1. queue_application_target_snapshot d store application bot_user force current = Inr (dest, store1)"
  using assms by (auto simp: queue_application_target_snapshot_def Let_def)

end
