(* ===== verification/Runtime_Control.thy ===== *)
theory Runtime_Control
  imports Runtime_Rows
begin

text \<open>
  Federated runtime control of bot applications (\<open>bots/runtime_control.py\<close>). The application's home publishes one
  snapshot per runtime target; a target keeps the accepted generations in a ledger, or, before it knows the application, in
  a pending high-water row, and revokes tokens, workers and grants. A raise rolls the transaction back, so that an error
  carries no store. \<open>digest\<close> is the hash of the canonical JSON of a snapshot.
\<close>

section \<open>Proofs of the accepted state\<close>

definition APPLICATION_RUNTIME_EVENT :: string where
  "APPLICATION_RUNTIME_EVENT = ''bot.application.runtime.changed''"

definition APPLICATION_RUNTIME_HIGHWATER_TTL :: int where
  "APPLICATION_RUNTIME_HIGHWATER_TTL = 24 * 3600 * 1000000"

definition MAX_PENDING_APPLICATION_RUNTIME_HIGHWATERS_PER_ORIGIN :: nat where
  "MAX_PENDING_APPLICATION_RUNTIME_HIGHWATERS_PER_ORIGIN = 1000"

record runtime_envelope =
  en_type :: string
  en_content :: ApplicationRuntimeSnapshot

definition require_current_application_runtime_proof ::
  "(ApplicationRuntimeSnapshot \<Rightarrow> ustr) \<Rightarrow> RuntimeApplication \<Rightarrow> RuntimeTarget \<Rightarrow> runtime_envelope \<Rightarrow> ApplicationRuntimeSnapshot \<Rightarrow> ustr result" where
  "require_current_application_runtime_proof digest application target envelope snapshot =
     rbind (snapshot_validate (en_content envelope)) (\<lambda>envelope_snapshot.
       let incoming = runtime_snapshot_order snapshot
       in if en_type envelope \<noteq> APPLICATION_RUNTIME_EVENT \<or> envelope_snapshot \<noteq> snapshot
          then Inl (ValueError ''application runtime proof content is inconsistent'')
          else if (bt_application_id target, bt_application_domain target) \<noteq> ba_ref application \<or>
            (sn_application_id snapshot, sn_application_domain snapshot) \<noteq> ba_ref application \<or>
            bt_target_domain target \<noteq> sn_target_domain snapshot
          then Inl (ValueError ''application runtime proof target is inconsistent'')
          else if incoming \<noteq> bt_generations target \<or> bt_runtime_fingerprint target \<noteq> Some (digest snapshot)
          then Inl (ValueError ''application runtime proof is not the exact accepted state'')
          else if ba_manifest_generation application \<noteq> fst incoming \<or> ba_revocation_generation application \<noteq> fst (snd incoming)
          then Inl (ValueError ''application runtime proof is behind application state'')
          else if ba_status application \<noteq> ''active'' \<or> sn_status snapshot \<noteq> ''active'' \<or> \<not> sn_target_allowed snapshot \<or>
            bt_runtime_status target \<noteq> ''active'' \<or> \<not> bt_runtime_target_allowed target
          then Inl (ValueError ''application runtime proof does not authorize the target'')
          else Inr (digest snapshot))"

definition require_current_pending_application_runtime_proof ::
  "(ApplicationRuntimeSnapshot \<Rightarrow> ustr) \<Rightarrow> BotApplicationRuntimeHighwater \<Rightarrow> runtime_envelope \<Rightarrow> ApplicationRuntimeSnapshot \<Rightarrow> int \<Rightarrow> ustr result" where
  "require_current_pending_application_runtime_proof digest highwater envelope snapshot current =
     rbind (snapshot_validate (en_content envelope)) (\<lambda>envelope_snapshot.
       if en_type envelope \<noteq> APPLICATION_RUNTIME_EVENT \<or> envelope_snapshot \<noteq> snapshot
       then Inl (ValueError ''application runtime proof content is inconsistent'')
       else if hw_application_id highwater \<noteq> sn_application_id snapshot \<or> hw_application_domain highwater \<noteq> sn_application_domain snapshot \<or>
         hw_target_domain highwater \<noteq> sn_target_domain snapshot \<or> hw_bot_user_id highwater \<noteq> sn_bot_user_id snapshot \<or>
         hw_bot_user_domain highwater \<noteq> sn_bot_user_domain snapshot
       then Inl (ValueError ''pending application runtime proof identity is inconsistent'')
       else if runtime_snapshot_order snapshot \<noteq> hw_generations highwater \<or> hw_runtime_fingerprint highwater \<noteq> digest snapshot
       then Inl (ValueError ''pending application runtime proof is not the exact accepted state'')
       else if sn_status snapshot \<noteq> ''active'' \<or> \<not> sn_target_allowed snapshot \<or> hw_status highwater \<noteq> ''active'' \<or>
         \<not> hw_target_allowed highwater \<or> hw_expires_at highwater \<le> current
       then Inl (ValueError ''pending application runtime proof does not authorize the target'')
       else Inr (digest snapshot))"

definition target_runtime_projection_ready :: "RuntimeTarget option \<Rightarrow> int \<Rightarrow> int \<Rightarrow> bool" where
  "target_runtime_projection_ready target manifest_generation revocation_generation =
     (case target of
        None \<Rightarrow> False
      | Some t \<Rightarrow> bt_runtime_fingerprint t \<noteq> None \<and> manifest_generation \<le> bt_runtime_manifest_generation t \<and>
          revocation_generation \<le> bt_runtime_revocation_generation t \<and> bt_runtime_status t = ''active'' \<and> bt_runtime_target_allowed t)"

definition application_runtime_projection_ready :: "RuntimeApplication \<Rightarrow> RuntimeTarget option \<Rightarrow> string \<Rightarrow> bool" where
  "application_runtime_projection_ready application target target_domain \<longleftrightarrow>
     ba_origin_domain application = target_domain \<or>
     target_runtime_projection_ready target (ba_manifest_generation application) (ba_revocation_generation application)"

section \<open>Pending high-water rows\<close>

definition accept_highwater :: "(ApplicationRuntimeSnapshot \<Rightarrow> ustr) \<Rightarrow> ApplicationRuntimeSnapshot \<Rightarrow> int \<Rightarrow> BotApplicationRuntimeHighwater" where
  "accept_highwater digest snapshot expires_at =
     \<lparr>hw_application_id = sn_application_id snapshot, hw_application_domain = sn_application_domain snapshot,
      hw_target_domain = sn_target_domain snapshot, hw_bot_user_id = sn_bot_user_id snapshot,
      hw_bot_user_domain = sn_bot_user_domain snapshot, hw_manifest_generation = sn_manifest_generation snapshot,
      hw_revocation_generation = sn_revocation_generation snapshot,
      hw_access_revocation_generation = sn_access_revocation_generation snapshot, hw_status = sn_status snapshot,
      hw_target_allowed = sn_target_allowed snapshot, hw_runtime_fingerprint = digest snapshot, hw_expires_at = expires_at\<rparr>"

text \<open>Returns whether the state advanced, the targets whose access was revoked, and the rows.\<close>

definition apply_pending_application_runtime_proof ::
  "(ApplicationRuntimeSnapshot \<Rightarrow> ustr) \<Rightarrow> BotApplicationRuntimeHighwater list \<Rightarrow> ApplicationRuntimeSnapshot \<Rightarrow> int
   \<Rightarrow> (bool \<times> string set \<times> BotApplicationRuntimeHighwater list) result" where
  "apply_pending_application_runtime_proof digest table snapshot current =
     (let domain1 = sn_application_domain snapshot;
          incoming = runtime_snapshot_order snapshot;
          row = accept_highwater digest snapshot (current + APPLICATION_RUNTIME_HIGHWATER_TTL);
          rows = filter (\<lambda>h. \<not> (hw_application_domain h = domain1 \<and> hw_expires_at h \<le> current)) table
      in case find (\<lambda>h. hw_key h = hw_key row) rows of
           None \<Rightarrow>
             if MAX_PENDING_APPLICATION_RUNTIME_HIGHWATERS_PER_ORIGIN \<le>
                length (filter (\<lambda>h. hw_application_domain h = domain1 \<and> hw_expires_at h > current) rows)
             then Inl (ValueError ''application runtime pending-state quota exceeded'')
             else Inr (True, if 0 < snd (snd incoming) then {sn_target_domain snapshot} else {}, rows @ [row])
         | Some highwater \<Rightarrow>
             if hw_bot_user_id highwater \<noteq> sn_bot_user_id snapshot \<or> hw_bot_user_domain highwater \<noteq> sn_bot_user_domain snapshot
             then Inl (ValueError ''pending application runtime bot identity was equivocated'')
             else
               let stored = hw_generations highwater
               in rbind (runtime_snapshot_is_stale incoming stored) (\<lambda>stale.
                 if stale
                 then if incoming = stored \<and> hw_runtime_fingerprint highwater \<noteq> digest snapshot
                      then Inl (ValueError ''pending application runtime generation conflicts with stored state'')
                      else Inr (False, {}, if incoming = stored
                             then put_row hw_key (highwater\<lparr>hw_expires_at := hw_expires_at row\<rparr>) rows else rows)
                 else Inr (True, if snd (snd stored) < snd (snd incoming) then {sn_target_domain snapshot} else {},
                        put_row hw_key row rows)))"

definition promote_application_runtime_highwater ::
  "runtime_store \<Rightarrow> entity_ref \<Rightarrow> string \<Rightarrow> int \<Rightarrow> (RuntimeTarget option \<times> runtime_store) result" where
  "promote_application_runtime_highwater store application_ref target_domain current =
     (case find (\<lambda>a. ba_ref a = application_ref) (rs_applications store) of
        None \<Rightarrow> Inl (ValueError ''pending runtime promotion references an unknown application'')
      | Some application \<Rightarrow>
          let target = find_target store application_ref target_domain;
              others = filter (\<lambda>h. hw_key h \<noteq> (application_ref, target_domain)) (rs_highwaters store)
          in case find (\<lambda>h. hw_key h = (application_ref, target_domain)) (rs_highwaters store) of
               None \<Rightarrow> Inr (target, store)
             | Some highwater \<Rightarrow>
                 if hw_expires_at highwater \<le> current then Inr (target, store\<lparr>rs_highwaters := others\<rparr>)
                 else if hw_bot_user_id highwater \<noteq> ba_bot_user_id application \<or> hw_bot_user_domain highwater \<noteq> ba_bot_user_domain application
                 then Inl (ValueError ''pending runtime promotion bot identity is inconsistent'')
                 else if hw_manifest_generation highwater \<noteq> ba_manifest_generation application \<or>
                   hw_revocation_generation highwater \<noteq> ba_revocation_generation application \<or> hw_status highwater \<noteq> ba_status application
                 then Inr (target, store)
                 else
                   let row = target_row 1 store application_ref target_domain;
                       incoming = hw_generations highwater; stored = bt_generations row
                   in rbind (runtime_snapshot_is_stale incoming stored) (\<lambda>stale.
                     if stale \<and> incoming = stored \<and> bt_runtime_fingerprint row \<noteq> Some (hw_runtime_fingerprint highwater)
                     then Inl (ValueError ''pending runtime promotion conflicts with target state'')
                     else
                       let merged = (if stale then row
                             else (accept_generations incoming (hw_runtime_fingerprint highwater) row)
                               \<lparr>bt_runtime_status := hw_status highwater, bt_runtime_target_allowed := hw_target_allowed highwater\<rparr>)
                       in Inr (Some merged, store\<lparr>rs_targets := put_row bt_key merged (rs_targets store), rs_highwaters := others\<rparr>)))"

section \<open>Applying a snapshot at a target\<close>

record runtime_effects =
  re_changed :: bool
  re_invalidated_worker_ids :: "int set"
  re_access_revoked_targets :: "string set"
  re_updated_installations :: "int list"

definition unchanged :: runtime_effects where
  "unchanged = \<lparr>re_changed = False, re_invalidated_worker_ids = {}, re_access_revoked_targets = {}, re_updated_installations = []\<rparr>"

text \<open>A change of the grants is announced to the application's home in the same transaction.\<close>

definition announce_changed ::
  "string \<Rightarrow> runtime_store \<Rightarrow> RuntimeApplication \<Rightarrow> User \<Rightarrow> int list \<Rightarrow> int \<Rightarrow> runtime_store result" where
  "announce_changed settings_domain store application actor changed_installations current =
     (if changed_installations = [] then Inr store
      else rbind (queue_application_target_snapshot settings_domain store application actor False current) (\<lambda>(_, store1). Inr store1))"

text \<open>The stored application is ahead of the snapshot: only its generations and an access revocation are taken over.\<close>

definition apply_behind_application ::
  "(ApplicationRuntimeSnapshot \<Rightarrow> ustr) \<Rightarrow> string \<Rightarrow> runtime_store \<Rightarrow> RuntimeApplication \<Rightarrow> User \<Rightarrow> RuntimeTarget \<Rightarrow> ApplicationRuntimeSnapshot
   \<Rightarrow> bool \<Rightarrow> int \<Rightarrow> (runtime_effects \<times> runtime_store) result" where
  "apply_behind_application digest settings_domain store application actor target snapshot access_revoked current =
     (let accepted = accept_generations (runtime_snapshot_order snapshot) (digest snapshot) target;
          store1 = store\<lparr>rs_targets := put_row bt_key accepted (rs_targets store)\<rparr>
      in if \<not> access_revoked then Inr (unchanged, store1)
         else
           let worker_ids = bw_id ` set (filter (\<lambda>w. bw_application w = ba_ref application) (rs_workers store));
               (changed, grants) = rotate_active_application_grants (ba_ref application) (rs_installations store)
           in rbind (announce_changed settings_domain (store1\<lparr>rs_installations := grants\<rparr>) application actor changed current) (\<lambda>store2.
                Inr (\<lparr>re_changed = True, re_invalidated_worker_ids = worker_ids,
                       re_access_revoked_targets = {sn_target_domain snapshot}, re_updated_installations = changed\<rparr>,
                     store2\<lparr>rs_tokens := revoke_tokens (ba_ref application) worker_ids current (rs_tokens store)\<rparr>)))"

definition descriptor_of :: "ApplicationRuntimeSnapshot \<Rightarrow> BotWorker \<Rightarrow> ApplicationRuntimeWorker option" where
  "descriptor_of snapshot worker = find (\<lambda>d. rw_id d = bw_authority_id worker) (sn_workers snapshot)"

definition authority_revoked :: "ApplicationRuntimeSnapshot \<Rightarrow> BotWorker \<Rightarrow> bool" where
  "authority_revoked snapshot worker = (case descriptor_of snapshot worker of None \<Rightarrow> True | Some d \<Rightarrow> rw_revoked d)"

definition loses_tokens :: "ApplicationRuntimeSnapshot \<Rightarrow> BotWorker \<Rightarrow> bool" where
  "loses_tokens snapshot worker \<longleftrightarrow>
     authority_revoked snapshot worker \<or> \<not> (sn_status snapshot = ''active'' \<and> sn_target_allowed snapshot) \<or>
     (case descriptor_of snapshot worker of
        None \<Rightarrow> True | Some d \<Rightarrow> \<not> rw_target_allowed d \<or> rw_generation d \<noteq> bw_generation worker)"

text \<open>The attributes of the target row are independent, so that they are written at once.\<close>

definition apply_current_snapshot ::
  "(ApplicationRuntimeSnapshot \<Rightarrow> ustr) \<Rightarrow> string \<Rightarrow> runtime_store \<Rightarrow> RuntimeApplication \<Rightarrow> User \<Rightarrow> RuntimeTarget \<Rightarrow> ApplicationRuntimeSnapshot
   \<Rightarrow> bool \<Rightarrow> int \<Rightarrow> (runtime_effects \<times> runtime_store) result" where
  "apply_current_snapshot digest settings_domain store application actor target snapshot access_revoked current =
     (let incoming = runtime_snapshot_order snapshot; stored = bt_generations target; ref = ba_ref application;
          worker_rows = filter (\<lambda>w. bw_application w = ref) (rs_workers store);
          application_enabled = (sn_status snapshot = ''active'' \<and> sn_target_allowed snapshot);
          (changed, grants) = set_application_installations_enabled ref application_enabled (access_revoked \<and> application_enabled)
             (rs_installations store);
          revoke_ids = (if fst stored < fst incoming \<or> fst (snd stored) < fst (snd incoming) then bw_id ` set worker_rows else {}) \<union>
             bw_id ` set (filter (loses_tokens snapshot) worker_rows);
          workers = update_where (\<lambda>w. bw_application w = ref \<and> authority_revoked snapshot w \<and> bw_revoked_at w = None)
             (\<lambda>w. w\<lparr>bw_revoked_at := Some current\<rparr>) (rs_workers store);
          accepted = (accept_generations incoming (digest snapshot) target)
             \<lparr>bt_runtime_status := sn_status snapshot, bt_runtime_target_allowed := sn_target_allowed snapshot\<rparr>;
          updated = application\<lparr>ba_status := sn_status snapshot,
             ba_revocation_generation := max (ba_revocation_generation application) (fst (snd incoming))\<rparr>;
          store1 = store\<lparr>rs_targets := put_row bt_key accepted (rs_targets store),
             rs_applications := put_row ba_ref updated (rs_applications store), rs_installations := grants\<rparr>
      in rbind (announce_changed settings_domain store1 application actor changed current) (\<lambda>store2.
           Inr (\<lparr>re_changed = True, re_invalidated_worker_ids = revoke_ids,
                  re_access_revoked_targets = (if access_revoked then {sn_target_domain snapshot} else {}), re_updated_installations = changed\<rparr>,
                store2\<lparr>rs_workers := workers, rs_tokens := revoke_tokens ref revoke_ids current (rs_tokens store)\<rparr>)))"

definition apply_application_runtime_snapshot ::
  "(ApplicationRuntimeSnapshot \<Rightarrow> ustr) \<Rightarrow> string \<Rightarrow> runtime_store \<Rightarrow> string \<Rightarrow> User \<Rightarrow> ApplicationRuntimeSnapshot \<Rightarrow> bool \<Rightarrow> int
   \<Rightarrow> (runtime_effects \<times> runtime_store) result" where
  "apply_application_runtime_snapshot digest settings_domain store origin actor raw allow_target_bootstrap current =
     rbind (snapshot_validate raw) (\<lambda>snapshot.
       if sn_application_domain snapshot \<noteq> origin \<or> sn_target_domain snapshot \<noteq> settings_domain \<or>
         sn_bot_user_id snapshot \<noteq> u_id actor \<or> sn_bot_user_domain snapshot \<noteq> u_origin_domain actor \<or> u_account_type actor \<noteq> ''bot''
       then Inl (ValueError ''application runtime snapshot authority is invalid'')
       else case find (\<lambda>a. ba_ref a = (sn_application_id snapshot, origin) \<and>
              (ba_bot_user_id a, ba_bot_user_domain a) = u_ref actor) (rs_applications store) of
         None \<Rightarrow>
           if \<not> allow_target_bootstrap then Inl (ValueError ''application runtime snapshot references an unknown application'')
           else rbind (apply_pending_application_runtime_proof digest (rs_highwaters store) snapshot current)
             (\<lambda>(changed, revoked, rows). Inr (unchanged\<lparr>re_changed := changed, re_access_revoked_targets := revoked\<rparr>, store\<lparr>rs_highwaters := rows\<rparr>))
       | Some application \<Rightarrow>
           if find_target store (ba_ref application) settings_domain = None \<and> \<not> allow_target_bootstrap
           then Inl (ValueError ''application runtime snapshot has no authoritative target ledger'')
           else
             let target = target_row 1 store (ba_ref application) settings_domain;
                 incoming = runtime_snapshot_order snapshot; stored = bt_generations target
             in rbind (runtime_snapshot_is_stale incoming stored) (\<lambda>stale.
               if stale
               then if incoming = stored \<and> bt_runtime_fingerprint target \<noteq> Some (digest snapshot)
                    then Inl (ValueError ''application runtime generation conflicts with stored state'')
                    else Inr (unchanged, store\<lparr>rs_targets := put_row bt_key target (rs_targets store)\<rparr>)
               else
                 let access_revoked = snd (snd stored) < snd (snd incoming)
                 in if fst incoming < ba_manifest_generation application \<or> fst (snd incoming) < ba_revocation_generation application
                    then apply_behind_application digest settings_domain store application actor target snapshot access_revoked current
                    else apply_current_snapshot digest settings_domain store application actor target snapshot access_revoked current))"

text \<open>What the control does to live data paths after a change: the E2EE access of the bot is revoked, or the voice sessions
  of the invalidated workers are evicted.\<close>

datatype fence = NoFence | RevokeE2eeAccess entity_ref | EvictVoiceSessions entity_ref "int set"

definition apply_application_runtime_control ::
  "(ApplicationRuntimeSnapshot \<Rightarrow> ustr) \<Rightarrow> string \<Rightarrow> runtime_store \<Rightarrow> string \<Rightarrow> User \<Rightarrow> ApplicationRuntimeSnapshot \<Rightarrow> bool \<Rightarrow> int
   \<Rightarrow> (bool \<times> fence \<times> runtime_store) result" where
  "apply_application_runtime_control digest settings_domain store origin actor raw allow_target_bootstrap current =
     rbind (snapshot_validate raw) (\<lambda>snapshot.
       rbind (apply_application_runtime_snapshot digest settings_domain store origin actor snapshot allow_target_bootstrap current)
         (\<lambda>(effects, store1).
            let ref = (sn_application_id snapshot, sn_application_domain snapshot)
            in if \<not> re_changed effects then Inr (False, NoFence, store1)
               else if sn_status snapshot \<noteq> ''active'' \<or> \<not> sn_target_allowed snapshot \<or> re_access_revoked_targets effects \<noteq> {}
               then Inr (True, RevokeE2eeAccess ref, store1)
               else if re_invalidated_worker_ids effects \<noteq> {}
               then Inr (True, EvictVoiceSessions ref (re_invalidated_worker_ids effects), store1)
               else Inr (True, NoFence, store1)))"

section \<open>Publishing at the application's home\<close>

definition target_rule_effects :: "(string \<times> string) list \<Rightarrow> (string \<rightharpoonup> string)" where
  "target_rule_effects rules = map_of (rev rules)"

definition runtime_snapshot ::
  "RuntimeApplication \<Rightarrow> User \<Rightarrow> BotWorker list \<Rightarrow> string \<Rightarrow> bool \<Rightarrow> int \<Rightarrow> ApplicationRuntimeSnapshot" where
  "runtime_snapshot application bot_user workers target_domain target_allowed access_revocation_generation =
     \<lparr>sn_application_id = ba_id application, sn_application_domain = ba_origin_domain application, sn_bot_user_id = u_id bot_user,
      sn_bot_user_domain = u_origin_domain bot_user, sn_target_domain = target_domain,
      sn_manifest_generation = ba_manifest_generation application, sn_revocation_generation = ba_revocation_generation application,
      sn_access_revocation_generation = access_revocation_generation, sn_status = ba_status application,
      sn_target_allowed = target_allowed,
      sn_workers = map (\<lambda>w. \<lparr>rw_id = bw_authority_id w, rw_generation = bw_generation w, rw_revoked = (bw_revoked_at w \<noteq> None),
         rw_target_allowed = worker_target_allowed (bw_target_domains w) (ba_origin_domain application) target_domain\<rparr>)
         (sort_key bw_authority_id workers)\<rparr>"

text \<open>One round of the loop over the target domains.\<close>

definition publish_target ::
  "(ApplicationRuntimeSnapshot \<Rightarrow> ustr) \<Rightarrow> string \<Rightarrow> RuntimeApplication \<Rightarrow> User \<Rightarrow> BotWorker list \<Rightarrow> (string \<rightharpoonup> string) \<Rightarrow> string
   \<Rightarrow> runtime_store \<times> string set \<Rightarrow> runtime_store \<times> string set" where
  "publish_target digest settings_domain application bot_user workers rules target_domain state =
     (let (store, destinations) = state;
          target = target_row 0 store (ba_ref application) target_domain;
          target_allowed = (target_domain = settings_domain \<or> target_policy_allows (ra_target_policy application) rules target_domain);
          previously_enabled = (bt_runtime_status target = ''active'' \<and> bt_runtime_target_allowed target);
          enabled = (ba_status application = ''active'' \<and> target_allowed);
          access = bt_runtime_access_revocation_generation target + (if previously_enabled \<and> \<not> enabled then 1 else 0);
          snapshot = runtime_snapshot application bot_user workers target_domain target_allowed access;
          updated = (accept_generations (runtime_snapshot_order snapshot) (digest snapshot) target)
            \<lparr>bt_runtime_status := ba_status application, bt_runtime_target_allowed := target_allowed\<rparr>;
          store1 = store\<lparr>rs_targets := put_row bt_key updated (rs_targets store)\<rparr>
      in if target_domain = settings_domain then (store1, destinations)
         else (store1\<lparr>rs_outbox :=
                  filter (\<lambda>(d, s). \<not> (d = target_domain \<and> (sn_application_id s, sn_application_domain s) = ba_ref application \<and>
                     sn_target_domain s = target_domain)) (rs_outbox store1) @ [(target_domain, snapshot)]\<rparr>,
               insert target_domain destinations))"

text \<open>
  \<open>bot_user\<close> is the row of the application's bot user, if any, and whether it is local; \<open>dm_domains\<close> are the domains of the
  active direct-message capabilities.
\<close>

definition queue_application_runtime_snapshots ::
  "(ApplicationRuntimeSnapshot \<Rightarrow> ustr) \<Rightarrow> string \<Rightarrow> runtime_store \<Rightarrow> entity_ref \<Rightarrow> (User \<times> bool) option \<Rightarrow> (string \<times> string) list
   \<Rightarrow> string set \<Rightarrow> string set option \<Rightarrow> string set option \<Rightarrow> (runtime_store \<times> string set) result" where
  "queue_application_runtime_snapshots digest settings_domain store application_ref bot_user rules dm_domains
       additional_target_domains destination_domains =
     (if snd application_ref \<noteq> settings_domain then Inl (RuntimeError ''only an application authority may publish runtime state'')
      else case find (\<lambda>a. ba_ref a = application_ref) (rs_applications store) of
        None \<Rightarrow> Inl (RuntimeError ''application runtime snapshot authority is unavailable'')
      | Some application \<Rightarrow>
          (case bot_user of
             Some (user, is_local) \<Rightarrow>
               if \<not> is_local \<or> u_account_type user \<noteq> ''bot'' \<or> u_ref user \<noteq> (ba_bot_user_id application, ba_bot_user_domain application)
               then Inl (RuntimeError ''application runtime snapshot bot identity is invalid'')
               else
                 let ledger_domains = bt_target_domain ` set (filter (\<lambda>t. (bt_application_id t, bt_application_domain t) = application_ref) (rs_targets store));
                     wanted = ledger_domains \<union> dm_domains \<union> (case additional_target_domains of None \<Rightarrow> {} | Some ds \<Rightarrow> ds);
                     target_domains = (case destination_domains of None \<Rightarrow> wanted | Some ds \<Rightarrow> wanted \<inter> ds);
                     workers = filter (\<lambda>w. bw_application w = application_ref) (rs_workers store)
                 in if target_domains = {} then Inr (store, {})
                    else if 100 < length workers then Inl (RuntimeError ''application exceeds the federated worker limit'')
                    else Inr (fold (publish_target digest settings_domain application user workers (target_rule_effects rules))
                           (sorted_list_of_set target_domains) (store, {}))
           | None \<Rightarrow> Inl (RuntimeError ''application runtime snapshot bot identity is invalid'')))"

section \<open>Ledgers of generations\<close>

text \<open>The componentwise order of generations; two generations cross when neither covers the other.\<close>

fun covered :: "generations \<Rightarrow> generations \<Rightarrow> bool" where
  "covered (m, r, a) (m', r', a') \<longleftrightarrow> m \<le> m' \<and> r \<le> r' \<and> a \<le> a'"

lemma covered_refl [simp]: "covered g g"
  by (cases g) simp

lemma covered_trans: "covered g h \<Longrightarrow> covered h k \<Longrightarrow> covered g k"
  by (cases g; cases h; cases k) auto

lemma covered_antisym: "covered g h \<Longrightarrow> covered h g \<Longrightarrow> g = h"
  by (cases g; cases h) auto

lemma stale_Inr: "runtime_snapshot_is_stale g h = Inr b \<longleftrightarrow> (covered g h \<or> covered h g) \<and> (b \<longleftrightarrow> covered g h)"
  by (cases g; cases h) (auto simp: Let_def)

lemma stale_Inl: "runtime_snapshot_is_stale g h = Inl e \<longleftrightarrow>
    \<not> covered g h \<and> \<not> covered h g \<and> e = ValueError ''runtime application generations cross stored state''"
  by (cases g; cases h) (auto simp: Let_def)

text \<open>
  The contract of a ledger: within its invariant an admissible event whose generations are covered, or cross, leaves the
  generations alone, and any other event is taken over exactly.
\<close>

locale generation_ledger =
  fixes inv :: "'st \<Rightarrow> bool" and admissible :: "'ev \<Rightarrow> bool" and ledger :: "'st \<Rightarrow> generations"
    and order :: "'ev \<Rightarrow> generations" and deliver :: "'ev \<Rightarrow> 'st \<Rightarrow> 'st"
  assumes inv_deliver: "inv st \<Longrightarrow> admissible e \<Longrightarrow> inv (deliver e st)"
    and keeps: "inv st \<Longrightarrow> admissible e \<Longrightarrow> \<not> covered (ledger st) (order e) \<or> order e = ledger st \<Longrightarrow> ledger (deliver e st) = ledger st"
    and accepts: "inv st \<Longrightarrow> admissible e \<Longrightarrow> covered (ledger st) (order e) \<Longrightarrow> ledger (deliver e st) = order e"
begin

lemma deliver_monotone: "inv st \<Longrightarrow> admissible e \<Longrightarrow> covered (ledger st) (ledger (deliver e st))"
  using keeps [of st e] accepts [of st e] by (cases "covered (ledger st) (order e)") auto

lemma inv_fold: "inv st \<Longrightarrow> \<forall>e\<in>set es. admissible e \<Longrightarrow> inv (fold deliver es st)"
  by (induction es arbitrary: st) (auto intro: inv_deliver)

lemma fold_monotone: "inv st \<Longrightarrow> \<forall>e\<in>set es. admissible e \<Longrightarrow> covered (ledger st) (ledger (fold deliver es st))"
proof (induction es arbitrary: st)
  case (Cons e es)
  then show ?case using covered_trans [OF deliver_monotone Cons.IH [of "deliver e st"]] inv_deliver by simp
qed simp

text \<open>Deliveries of one chain end at its greatest member, in whatever order and however often they arrive.\<close>

lemma fold_chain:
  assumes "inv st" "\<forall>e\<in>set es. admissible e"
    and "\<forall>g\<in>insert (ledger st) (order ` set es). \<forall>h\<in>insert (ledger st) (order ` set es). covered g h \<or> covered h g"
  shows "ledger (fold deliver es st) \<in> insert (ledger st) (order ` set es) \<and>
     (\<forall>g\<in>insert (ledger st) (order ` set es). covered g (ledger (fold deliver es st)))"
  using assms
proof (induction es arbitrary: st)
  case (Cons e es)
  define st' where "st' = deliver e st"
  have st': "inv st'" unfolding st'_def using Cons.prems by (intro inv_deliver) auto
  have step: "ledger st' = (if covered (ledger st) (order e) then order e else ledger st)"
    unfolding st'_def using keeps [of st e] accepts [of st e] Cons.prems by auto
  have both: "covered (ledger st) (ledger st')" "covered (order e) (ledger st')"
    using step Cons.prems(3) by auto
  have "\<forall>g\<in>insert (ledger st') (order ` set es). \<forall>h\<in>insert (ledger st') (order ` set es). covered g h \<or> covered h g"
    using step Cons.prems(3) by auto
  from Cons.IH [OF st' _ this] Cons.prems(2)
  have ih: "ledger (fold deliver es st') \<in> insert (ledger st') (order ` set es)"
    "\<forall>g\<in>insert (ledger st') (order ` set es). covered g (ledger (fold deliver es st'))" by auto
  have "covered g (ledger (fold deliver es st'))" if "g \<in> insert (ledger st) (order ` set (e # es))" for g
    using that ih(2) both by (auto intro: covered_trans)
  moreover have "ledger (fold deliver es st') \<in> insert (ledger st) (order ` set (e # es))"
    using ih(1) step by auto
  ultimately show ?case by (simp add: st'_def [symmetric])
qed simp

lemma fold_chain_order_independent:
  assumes "inv st" "\<forall>e\<in>set es. admissible e" "set es = set es'"
    and "\<forall>g\<in>insert (ledger st) (order ` set es). \<forall>h\<in>insert (ledger st) (order ` set es). covered g h \<or> covered h g"
  shows "ledger (fold deliver es st) = ledger (fold deliver es' st)"
  using fold_chain [of st es] fold_chain [of st es'] assms by (auto intro!: covered_antisym)

end

section \<open>The two branches\<close>

lemma announce_same: "announce_changed d store application actor changed current = Inr store1 \<Longrightarrow> same_runtime store store1"
  by (auto simp: announce_changed_def rbind_def same_runtime_refl split: if_splits sum.splits dest: queue_same_runtime)

definition bot_identity_ok :: "RuntimeApplication \<Rightarrow> User \<Rightarrow> bool" where
  "bot_identity_ok application actor \<longleftrightarrow> u_account_type actor = ''bot'' \<and> u_disabled_at actor = None \<and>
     (ba_bot_user_id application, ba_bot_user_domain application) = u_ref actor \<and> ba_origin_domain application = u_origin_domain actor"

lemma announce_succeeds:
  assumes "bot_identity_ok application actor"
  obtains store1 where "announce_changed d store application actor changed current = Inr store1"
proof -
  obtain dest store1 where "queue_application_target_snapshot d store application actor False current = Inr (dest, store1)"
    using queue_target_succeeds [of actor application] assms unfolding bot_identity_ok_def by blast
  then show thesis using that by (cases "changed = []") (auto simp: announce_changed_def rbind_def)
qed

text \<open>A result of either branch is an announcement on an updated store, followed by the revocation of tokens and workers.\<close>

definition behind_updated :: "(ApplicationRuntimeSnapshot \<Rightarrow> ustr) \<Rightarrow> runtime_store \<Rightarrow> RuntimeApplication \<Rightarrow> RuntimeTarget \<Rightarrow> ApplicationRuntimeSnapshot
    \<Rightarrow> bool \<Rightarrow> runtime_store" where
  "behind_updated digest store a t s ar = store
     \<lparr>rs_targets := put_row bt_key (accept_generations (runtime_snapshot_order s) (digest s) t) (rs_targets store),
      rs_installations := if ar then snd (rotate_active_application_grants (ba_ref a) (rs_installations store)) else rs_installations store\<rparr>"

lemma behind_result:
  assumes "apply_behind_application digest d store a actor t s ar current = Inr (effects, store1)"
  obtains store2 where "same_runtime (behind_updated digest store a t s ar) store2"
    "store1 = store2\<lparr>rs_tokens := if ar then revoke_tokens (ba_ref a) (bw_id ` set (filter (\<lambda>w. bw_application w = ba_ref a) (rs_workers store))) current
       (rs_tokens store) else rs_tokens store\<rparr>"
    "re_changed effects = ar" "re_access_revoked_targets effects = (if ar then {sn_target_domain s} else {})"
proof (cases ar)
  case False
  then have "effects = unchanged" "store1 = behind_updated digest store a t s ar"
    using assms by (auto simp: apply_behind_application_def behind_updated_def Let_def)
  with False show thesis by (intro that [of store1]) (simp_all add: same_runtime_refl unchanged_def behind_updated_def)
next
  case True
  then obtain store2 where st: "announce_changed d (behind_updated digest store a t s ar) a actor
      (fst (rotate_active_application_grants (ba_ref a) (rs_installations store))) current = Inr store2"
    using assms by (auto simp: apply_behind_application_def behind_updated_def rbind_def Let_def case_prod_beta split: sum.splits)
  with True show thesis
    using assms by (intro that [OF announce_same [OF st]])
      (auto simp: apply_behind_application_def behind_updated_def rbind_def Let_def case_prod_beta)
qed

lemma behind_succeeds:
  assumes "bot_identity_ok a actor"
  obtains effects store1 where "apply_behind_application digest d store a actor t s ar current = Inr (effects, store1)"
proof (cases ar)
  case False
  then show thesis using that by (simp add: apply_behind_application_def Let_def)
next
  case True
  obtain store2 where "announce_changed d (behind_updated digest store a t s ar) a actor
      (fst (rotate_active_application_grants (ba_ref a) (rs_installations store))) current = Inr store2"
    using announce_succeeds [OF assms] .
  with True show thesis using that
    by (auto simp: apply_behind_application_def behind_updated_def rbind_def Let_def case_prod_beta)
qed

definition current_updated :: "(ApplicationRuntimeSnapshot \<Rightarrow> ustr) \<Rightarrow> runtime_store \<Rightarrow> RuntimeApplication \<Rightarrow> RuntimeTarget \<Rightarrow> ApplicationRuntimeSnapshot
    \<Rightarrow> bool \<Rightarrow> runtime_store" where
  "current_updated digest store a t s ar = store
     \<lparr>rs_targets := put_row bt_key ((accept_generations (runtime_snapshot_order s) (digest s) t)
         \<lparr>bt_runtime_status := sn_status s, bt_runtime_target_allowed := sn_target_allowed s\<rparr>) (rs_targets store),
      rs_applications := put_row ba_ref (a\<lparr>ba_status := sn_status s,
         ba_revocation_generation := max (ba_revocation_generation a) (fst (snd (runtime_snapshot_order s)))\<rparr>) (rs_applications store),
      rs_installations := snd (set_application_installations_enabled (ba_ref a) (sn_status s = ''active'' \<and> sn_target_allowed s)
         (ar \<and> sn_status s = ''active'' \<and> sn_target_allowed s) (rs_installations store))\<rparr>"

definition revoked_ids :: "runtime_store \<Rightarrow> entity_ref \<Rightarrow> RuntimeTarget \<Rightarrow> ApplicationRuntimeSnapshot \<Rightarrow> int set" where
  "revoked_ids store ref t s = bw_id ` {w \<in> set (rs_workers store). bw_application w = ref \<and>
     (fst (bt_generations t) < fst (runtime_snapshot_order s) \<or> fst (snd (bt_generations t)) < fst (snd (runtime_snapshot_order s)) \<or> loses_tokens s w)}"

definition revoke_workers :: "entity_ref \<Rightarrow> ApplicationRuntimeSnapshot \<Rightarrow> int \<Rightarrow> BotWorker list \<Rightarrow> BotWorker list" where
  "revoke_workers ref s current = update_where (\<lambda>w. bw_application w = ref \<and> authority_revoked s w \<and> bw_revoked_at w = None)
     (\<lambda>w. w\<lparr>bw_revoked_at := Some current\<rparr>)"

lemma current_opened:
  "apply_current_snapshot digest d store a actor t s ar current =
     rbind (announce_changed d (current_updated digest store a t s ar) a actor
       (fst (set_application_installations_enabled (ba_ref a) (sn_status s = ''active'' \<and> sn_target_allowed s)
         (ar \<and> sn_status s = ''active'' \<and> sn_target_allowed s) (rs_installations store))) current) (\<lambda>store2.
       Inr (\<lparr>re_changed = True, re_invalidated_worker_ids = revoked_ids store (ba_ref a) t s,
              re_access_revoked_targets = (if ar then {sn_target_domain s} else {}),
              re_updated_installations = fst (set_application_installations_enabled (ba_ref a) (sn_status s = ''active'' \<and> sn_target_allowed s)
                (ar \<and> sn_status s = ''active'' \<and> sn_target_allowed s) (rs_installations store))\<rparr>,
            store2\<lparr>rs_workers := revoke_workers (ba_ref a) s current (rs_workers store),
                   rs_tokens := revoke_tokens (ba_ref a) (revoked_ids store (ba_ref a) t s) current (rs_tokens store)\<rparr>))"
proof -
  have "(if fst (bt_generations t) < fst (runtime_snapshot_order s) \<or> fst (snd (bt_generations t)) < fst (snd (runtime_snapshot_order s))
      then bw_id ` set (filter (\<lambda>w. bw_application w = ba_ref a) (rs_workers store)) else {}) \<union>
      bw_id ` set (filter (loses_tokens s) (filter (\<lambda>w. bw_application w = ba_ref a) (rs_workers store))) = revoked_ids store (ba_ref a) t s"
    by (auto simp: revoked_ids_def)
  then show ?thesis
    by (simp add: apply_current_snapshot_def current_updated_def revoke_workers_def Let_def case_prod_beta)
qed

lemma current_result:
  assumes "apply_current_snapshot digest d store a actor t s ar current = Inr (effects, store1)"
  obtains store2 where "same_runtime (current_updated digest store a t s ar) store2"
    "store1 = store2\<lparr>rs_workers := revoke_workers (ba_ref a) s current (rs_workers store),
       rs_tokens := revoke_tokens (ba_ref a) (revoked_ids store (ba_ref a) t s) current (rs_tokens store)\<rparr>"
    "re_changed effects" "re_access_revoked_targets effects = (if ar then {sn_target_domain s} else {})"
  using assms unfolding current_opened by (auto simp: rbind_def split: sum.splits dest: announce_same)

lemma current_succeeds:
  assumes "bot_identity_ok a actor"
  obtains effects store1 where "apply_current_snapshot digest d store a actor t s ar current = Inr (effects, store1)"
proof -
  obtain store2 where "announce_changed d (current_updated digest store a t s ar) a actor
       (fst (set_application_installations_enabled (ba_ref a) (sn_status s = ''active'' \<and> sn_target_allowed s)
         (ar \<and> sn_status s = ''active'' \<and> sn_target_allowed s) (rs_installations store))) current = Inr store2"
    using announce_succeeds [OF assms] .
  then show thesis using that unfolding current_opened rbind_def by simp
qed

lemma behind_row:
  assumes "apply_behind_application digest d store a actor t s ar current = Inr (effects, store1)" "bt_key t = (ref, td)"
  shows "\<exists>u. find_target store1 ref td = Some u \<and>
     runtime_view u = (runtime_snapshot_order s, Some (digest s), bt_runtime_status t, bt_runtime_target_allowed t) \<and> bt_generation t \<le> bt_generation u"
    "rs_applications store1 = rs_applications store"
proof -
  from assms(1) obtain store2 where st: "same_runtime (behind_updated digest store a t s ar) store2"
    "\<exists>ts. store1 = store2\<lparr>rs_tokens := ts\<rparr>" by (rule behind_result) blast
  define u where "u = accept_generations (runtime_snapshot_order s) (digest s) t"
  have "find_target (behind_updated digest store a t s ar) ref td = Some u"
    by (subst find_target_put [of _ u store]) (use assms(2) in \<open>simp_all add: u_def behind_updated_def\<close>)
  from same_runtimeD [OF st(1) this] st(2)
  show "\<exists>u. find_target store1 ref td = Some u \<and>
     runtime_view u = (runtime_snapshot_order s, Some (digest s), bt_runtime_status t, bt_runtime_target_allowed t) \<and> bt_generation t \<le> bt_generation u"
    by (auto simp: find_target_def u_def runtime_view_def)
  show "rs_applications store1 = rs_applications store" using st by (auto simp: same_runtime_def behind_updated_def)
qed

lemma current_row:
  assumes "apply_current_snapshot digest d store a actor t s ar current = Inr (effects, store1)" "bt_key t = (ref, td)"
  shows "\<exists>u. find_target store1 ref td = Some u \<and>
     runtime_view u = (runtime_snapshot_order s, Some (digest s), sn_status s, sn_target_allowed s) \<and> bt_generation t \<le> bt_generation u"
    "rs_applications store1 = put_row ba_ref (a\<lparr>ba_status := sn_status s,
       ba_revocation_generation := max (ba_revocation_generation a) (fst (snd (runtime_snapshot_order s)))\<rparr>) (rs_applications store)"
proof -
  from assms(1) obtain store2 where st: "same_runtime (current_updated digest store a t s ar) store2"
    "\<exists>ws ts. store1 = store2\<lparr>rs_workers := ws, rs_tokens := ts\<rparr>" by (rule current_result) blast
  define u where "u = (accept_generations (runtime_snapshot_order s) (digest s) t)
      \<lparr>bt_runtime_status := sn_status s, bt_runtime_target_allowed := sn_target_allowed s\<rparr>"
  have "find_target (current_updated digest store a t s ar) ref td = Some u"
    by (subst find_target_put [of _ u store]) (use assms(2) in \<open>simp_all add: u_def current_updated_def\<close>)
  from same_runtimeD [OF st(1) this] st(2)
  show "\<exists>u. find_target store1 ref td = Some u \<and>
     runtime_view u = (runtime_snapshot_order s, Some (digest s), sn_status s, sn_target_allowed s) \<and> bt_generation t \<le> bt_generation u"
    by (auto simp: find_target_def u_def runtime_view_def)
  show "rs_applications store1 = put_row ba_ref (a\<lparr>ba_status := sn_status s,
       ba_revocation_generation := max (ba_revocation_generation a) (fst (snd (runtime_snapshot_order s)))\<rparr>) (rs_applications store)"
    using st by (auto simp: same_runtime_def current_updated_def)
qed

section \<open>The ledger of a target\<close>

text \<open>A delivery of a signed snapshot: the snapshot, whether the caller may create the ledger row, and the time.\<close>

type_synonym delivery = "ApplicationRuntimeSnapshot \<times> bool \<times> int"

definition deliver_runtime :: "(ApplicationRuntimeSnapshot \<Rightarrow> ustr) \<Rightarrow> string \<Rightarrow> string \<Rightarrow> User \<Rightarrow> delivery \<Rightarrow> runtime_store \<Rightarrow> runtime_store" where
  "deliver_runtime digest settings_domain origin actor ev store =
     (case apply_application_runtime_snapshot digest settings_domain store origin actor (fst ev) (fst (snd ev)) (snd (snd ev)) of
        Inl _ \<Rightarrow> store | Inr (_, store1) \<Rightarrow> store1)"

definition known_application :: "entity_ref \<Rightarrow> User \<Rightarrow> runtime_store \<Rightarrow> RuntimeApplication option" where
  "known_application ref actor store =
     find (\<lambda>a. ba_ref a = ref \<and> (ba_bot_user_id a, ba_bot_user_domain a) = u_ref actor) (rs_applications store)"

definition tracked :: "string \<Rightarrow> entity_ref \<Rightarrow> User \<Rightarrow> runtime_store \<Rightarrow> bool" where
  "tracked settings_domain ref actor store \<longleftrightarrow> known_application ref actor store \<noteq> None \<and> find_target store ref settings_domain \<noteq> None"

definition addressed :: "string \<Rightarrow> entity_ref \<Rightarrow> User \<Rightarrow> ApplicationRuntimeSnapshot \<Rightarrow> bool" where
  "addressed settings_domain ref actor s \<longleftrightarrow>
     snapshot_validate s = Inr s \<and> (sn_application_id s, sn_application_domain s) = ref \<and> sn_target_domain s = settings_domain \<and>
     (sn_bot_user_id s, sn_bot_user_domain s) = u_ref actor \<and> u_account_type actor = ''bot'' \<and> u_disabled_at actor = None"

definition target_generations :: "string \<Rightarrow> entity_ref \<Rightarrow> runtime_store \<Rightarrow> generations" where
  "target_generations settings_domain ref store =
     (case find_target store ref settings_domain of Some t \<Rightarrow> bt_generations t | None \<Rightarrow> (0, 0, 0))"

text \<open>The outcome for a tracked application, in terms of the two branches.\<close>

lemma apply_tracked:
  assumes "known_application ref actor store = Some a" "find_target store ref d = Some t" "addressed d ref actor s"
  shows "apply_application_runtime_snapshot digest d store (snd ref) actor s boot current =
     rbind (runtime_snapshot_is_stale (runtime_snapshot_order s) (bt_generations t)) (\<lambda>stale.
       if stale
       then if runtime_snapshot_order s = bt_generations t \<and> bt_runtime_fingerprint t \<noteq> Some (digest s)
            then Inl (ValueError ''application runtime generation conflicts with stored state'')
            else Inr (unchanged, store\<lparr>rs_targets := put_row bt_key t (rs_targets store)\<rparr>)
       else let access_revoked = snd (snd (bt_generations t)) < snd (snd (runtime_snapshot_order s))
         in if fst (runtime_snapshot_order s) < ba_manifest_generation a \<or> fst (snd (runtime_snapshot_order s)) < ba_revocation_generation a
            then apply_behind_application digest d store a actor t s access_revoked current
            else apply_current_snapshot digest d store a actor t s access_revoked current)"
proof -
  have a: "ba_ref a = ref" using assms(1) by (auto simp: known_application_def dest: find_SomeD)
  have ref: "ref = (sn_application_id s, sn_application_domain s)" and valid: "snapshot_validate s = Inr s"
    using assms(3) by (auto simp: addressed_def)
  have look: "find (\<lambda>a. ba_ref a = (sn_application_id s, snd ref) \<and> (ba_bot_user_id a, ba_bot_user_domain a) = u_ref actor)
      (rs_applications store) = Some a"
    using assms(1) unfolding known_application_def ref by simp
  have auth: "\<not> (sn_application_domain s \<noteq> snd ref \<or> sn_target_domain s \<noteq> d \<or> sn_bot_user_id s \<noteq> u_id actor \<or>
      sn_bot_user_domain s \<noteq> u_origin_domain actor \<or> u_account_type actor \<noteq> ''bot'')"
    using assms(3) by (auto simp: addressed_def)
  show ?thesis
    unfolding apply_application_runtime_snapshot_def valid rbind_def sum.case if_not_P [OF auth] look option.case a target_row_def assms(2) Let_def
    by simp
qed

lemma snapshot_authority: "snapshot_validate raw = Inr s \<Longrightarrow> s = raw \<and> sn_bot_user_domain s = sn_application_domain s"
  by (auto simp: snapshot_validate_def coherent_authority_def split: if_splits)

text \<open>One delivery to a tracked application, as the ledger sees it.\<close>

lemma deliver_tracked:
  assumes "tracked d ref actor store" "addressed d ref actor (fst ev)"
  shows "tracked d ref actor (deliver_runtime digest d (snd ref) actor ev store) \<and>
     target_generations d ref (deliver_runtime digest d (snd ref) actor ev store) =
       (if covered (target_generations d ref store) (runtime_snapshot_order (fst ev)) then runtime_snapshot_order (fst ev)
        else target_generations d ref store)"
proof -
  obtain a t where a: "known_application ref actor store = Some a" and t: "find_target store ref d = Some t"
    using assms(1) by (auto simp: tracked_def)
  define g where "g = runtime_snapshot_order (fst ev)"
  have key: "bt_key t = (ref, d)" by (rule find_targetD [OF t])
  have aP: "ba_ref a = ref \<and> (ba_bot_user_id a, ba_bot_user_domain a) = u_ref actor"
    using a by (auto simp: known_application_def dest: find_SomeD)
  note applied = apply_tracked [OF a t assms(2), of digest "fst (snd ev)" "snd (snd ev)", folded g_def]
  have tg: "target_generations d ref store = bt_generations t" by (simp add: target_generations_def t)
  consider (crosses) e where "runtime_snapshot_is_stale g (bt_generations t) = Inl e"
    | (stale) "runtime_snapshot_is_stale g (bt_generations t) = Inr True" "covered g (bt_generations t)"
    | (newer) "runtime_snapshot_is_stale g (bt_generations t) = Inr False" "covered (bt_generations t) g" "\<not> covered g (bt_generations t)"
    using stale_Inr [of g "bt_generations t"] by (cases "runtime_snapshot_is_stale g (bt_generations t)") auto
  then show ?thesis
  proof cases
    case crosses
    then have "\<not> covered (bt_generations t) g" using stale_Inl by blast
    moreover have "deliver_runtime digest d (snd ref) actor ev store = store"
      using applied crosses by (simp add: deliver_runtime_def rbind_def)
    ultimately show ?thesis using assms(1) by (simp add: tg g_def [symmetric])
  next
    case stale
    define store1 where "store1 = store\<lparr>rs_targets := put_row bt_key t (rs_targets store)\<rparr>"
    have "find_target store1 ref d = Some t" by (subst find_target_put [of _ t store]) (simp_all add: store1_def key)
    moreover have "known_application ref actor store1 = Some a" using a by (simp add: known_application_def store1_def)
    moreover have "deliver_runtime digest d (snd ref) actor ev store \<in> {store, store1}"
      using applied stale(1) by (auto simp: deliver_runtime_def rbind_def store1_def)
    ultimately show ?thesis
      using a t stale(2) covered_antisym [of g "bt_generations t"]
      by (auto simp: tracked_def target_generations_def g_def [symmetric])
  next
    case newer
    define ar where "ar = (snd (snd (bt_generations t)) < snd (snd g))"
    define behind where "behind = (fst g < ba_manifest_generation a \<or> fst (snd g) < ba_revocation_generation a)"
    have ok: "bot_identity_ok a actor" using aP assms(2) snapshot_authority [of "fst ev" "fst ev"] by (auto simp: bot_identity_ok_def addressed_def)
    obtain effects store1 where res: "(if behind then apply_behind_application digest d store a actor t (fst ev) ar (snd (snd ev))
        else apply_current_snapshot digest d store a actor t (fst ev) ar (snd (snd ev))) = Inr (effects, store1)"
    proof (cases behind)
      case True
      obtain effects store1 where "apply_behind_application digest d store a actor t (fst ev) ar (snd (snd ev)) = Inr (effects, store1)"
        using behind_succeeds [OF ok] .
      then show thesis using that True by simp
    next
      case False
      obtain effects store1 where "apply_current_snapshot digest d store a actor t (fst ev) ar (snd (snd ev)) = Inr (effects, store1)"
        using current_succeeds [OF ok] .
      then show thesis using that False by simp
    qed
    have deliver: "deliver_runtime digest d (snd ref) actor ev store = store1"
      using res unfolding deliver_runtime_def applied newer(1) rbind_def sum.case Let_def behind_def ar_def by simp
    have rows: "\<exists>t'. find_target store1 ref d = Some t' \<and> bt_generations t' = g"
    proof (cases behind)
      case True
      with behind_row(1) [OF _ key] res show ?thesis by (fastforce simp: runtime_view_def g_def)
    next
      case False
      with current_row(1) [OF _ key] res show ?thesis by (fastforce simp: runtime_view_def g_def)
    qed
    have "rs_applications store1 = rs_applications store \<or> (\<exists>a'. ba_ref a' = ref \<and> (ba_bot_user_id a', ba_bot_user_domain a') = u_ref actor \<and>
        rs_applications store1 = put_row ba_ref a' (rs_applications store))"
    proof (cases behind)
      case True
      then show ?thesis using behind_row(2) [OF _ key] res by simp
    next
      case False
      then have "rs_applications store1 = put_row ba_ref (a\<lparr>ba_status := sn_status (fst ev),
          ba_revocation_generation := max (ba_revocation_generation a) (fst (snd (runtime_snapshot_order (fst ev))))\<rparr>) (rs_applications store)"
        using current_row(2) [OF _ key] res by simp
      then show ?thesis using aP by (intro disjI2 exI) (rule conjI [rotated], rule conjI [rotated], assumption, simp_all)
    qed
    then have apps: "known_application ref actor store1 \<noteq> None"
      unfolding known_application_def using a [unfolded known_application_def] by (elim disjE exE conjE) (simp, metis (mono_tags, lifting) find_put_row_P)
    show ?thesis
      using apps rows newer(2) unfolding deliver by (auto simp: tracked_def target_generations_def t g_def [symmetric])
  qed
qed

interpretation target_ledger: generation_ledger "tracked d ref actor" "\<lambda>ev. addressed d ref actor (fst ev)"
    "target_generations d ref" "\<lambda>ev. runtime_snapshot_order (fst ev)" "deliver_runtime digest d (snd ref) actor"
  for d ref actor digest
  using deliver_tracked [of d ref actor _ _ digest] by unfold_locales auto


section \<open>The ledger of pending rows\<close>

definition deliver_pending :: "(ApplicationRuntimeSnapshot \<Rightarrow> ustr) \<Rightarrow> ApplicationRuntimeSnapshot \<times> int \<Rightarrow>
    BotApplicationRuntimeHighwater list \<Rightarrow> BotApplicationRuntimeHighwater list" where
  "deliver_pending digest ev rows =
     (case apply_pending_application_runtime_proof digest rows (fst ev) (snd ev) of Inl _ \<Rightarrow> rows | Inr (_, _, rows1) \<Rightarrow> rows1)"

text \<open>A pending row of a bot that lives at least until the horizon, and deliveries before it that extend a row beyond it.\<close>

definition pending :: "entity_ref \<times> string \<Rightarrow> entity_ref \<Rightarrow> int \<Rightarrow> BotApplicationRuntimeHighwater list \<Rightarrow> bool" where
  "pending key bot_ref horizon rows \<longleftrightarrow>
     (\<exists>h. find (\<lambda>h. hw_key h = key) rows = Some h \<and> horizon \<le> hw_expires_at h \<and> (hw_bot_user_id h, hw_bot_user_domain h) = bot_ref)"

definition pending_event :: "entity_ref \<times> string \<Rightarrow> entity_ref \<Rightarrow> int \<Rightarrow> ApplicationRuntimeSnapshot \<times> int \<Rightarrow> bool" where
  "pending_event key bot_ref horizon ev \<longleftrightarrow>
     ((sn_application_id (fst ev), sn_application_domain (fst ev)), sn_target_domain (fst ev)) = key \<and>
     (sn_bot_user_id (fst ev), sn_bot_user_domain (fst ev)) = bot_ref \<and>
     horizon - APPLICATION_RUNTIME_HIGHWATER_TTL \<le> snd ev \<and> snd ev < horizon"

definition pending_generations :: "entity_ref \<times> string \<Rightarrow> BotApplicationRuntimeHighwater list \<Rightarrow> generations" where
  "pending_generations key rows = (case find (\<lambda>h. hw_key h = key) rows of Some h \<Rightarrow> hw_generations h | None \<Rightarrow> (0, 0, 0))"

lemma find_filter_kept: "find p rows = Some h \<Longrightarrow> q h \<Longrightarrow> find p (filter q rows) = Some h"
  by (induction rows) (auto split: if_splits)

lemma deliver_pending_ledger:
  assumes "pending key bot_ref horizon rows" "pending_event key bot_ref horizon ev"
  shows "pending key bot_ref horizon (deliver_pending digest ev rows) \<and>
     pending_generations key (deliver_pending digest ev rows) =
       (if covered (pending_generations key rows) (runtime_snapshot_order (fst ev)) then runtime_snapshot_order (fst ev)
        else pending_generations key rows)"
proof -
  obtain h where h: "find (\<lambda>h. hw_key h = key) rows = Some h" "horizon \<le> hw_expires_at h" "(hw_bot_user_id h, hw_bot_user_domain h) = bot_ref"
    using assms(1) by (auto simp: pending_def)
  define g where "g = runtime_snapshot_order (fst ev)"
  define row where "row = accept_highwater digest (fst ev) (snd ev + APPLICATION_RUNTIME_HIGHWATER_TTL)"
  define live where "live = filter (\<lambda>h. \<not> (hw_application_domain h = sn_application_domain (fst ev) \<and> hw_expires_at h \<le> snd ev)) rows"
  have ev: "hw_key row = key" "horizon \<le> hw_expires_at row" "(hw_bot_user_id row, hw_bot_user_domain row) = bot_ref" "hw_generations row = g"
    "\<not> (hw_bot_user_id h \<noteq> sn_bot_user_id (fst ev) \<or> hw_bot_user_domain h \<noteq> sn_bot_user_domain (fst ev))"
    using assms(2) h(3) by (auto simp: pending_event_def row_def accept_highwater_def hw_generations_def g_def runtime_snapshot_order_def)
  have find_live: "find (\<lambda>h. hw_key h = key) live = Some h"
    unfolding live_def using assms(2) h(2) by (intro find_filter_kept h(1)) (auto simp: pending_event_def)
  have keyh: "hw_key h = key" using h(1) by (auto dest: find_SomeD)
  have put: "find (\<lambda>h. hw_key h = key) (put_row hw_key r live) = Some r" if "hw_key r = key" for r
    using find_put_row [of hw_key key r live] that by simp
  have pg: "pending_generations key rows = hw_generations h" by (simp add: pending_generations_def h(1))
  note open1 = apply_pending_application_runtime_proof_def [of digest rows "fst ev" "snd ev", unfolded Let_def,
      folded g_def row_def live_def, unfolded ev(1) find_live option.case if_not_P [OF ev(5)]]
  consider (crosses) e where "runtime_snapshot_is_stale g (hw_generations h) = Inl e"
    | (stale) "runtime_snapshot_is_stale g (hw_generations h) = Inr True" "covered g (hw_generations h)"
    | (newer) "runtime_snapshot_is_stale g (hw_generations h) = Inr False" "covered (hw_generations h) g" "\<not> covered g (hw_generations h)"
    using stale_Inr [of g "hw_generations h"] by (cases "runtime_snapshot_is_stale g (hw_generations h)") auto
  then show ?thesis
  proof cases
    case crosses
    then have "\<not> covered (hw_generations h) g" using stale_Inl by blast
    moreover have "deliver_pending digest ev rows = rows" using open1 crosses by (simp add: deliver_pending_def rbind_def)
    ultimately show ?thesis using assms(1) by (simp add: pg g_def [symmetric])
  next
    case stale
    define h' where "h' = h\<lparr>hw_expires_at := hw_expires_at row\<rparr>"
    have h': "hw_key h' = key" "hw_generations h' = hw_generations h" "horizon \<le> hw_expires_at h'"
        "(hw_bot_user_id h', hw_bot_user_domain h') = bot_ref"
      using keyh ev(2) h(3) by (simp_all add: h'_def hw_generations_def)
    have "deliver_pending digest ev rows \<in> {rows, live, put_row hw_key h' live}"
      using open1 stale(1) by (auto simp: deliver_pending_def rbind_def h'_def)
    moreover have "find (\<lambda>h. hw_key h = key) (put_row hw_key h' live) = Some h'" using put h'(1) by blast
    ultimately show ?thesis
      using h find_live h' stale(2) covered_antisym [of g "hw_generations h"]
      by (auto simp: pending_def pending_generations_def g_def [symmetric] simp del: prod.inject)
  next
    case newer
    have "deliver_pending digest ev rows = put_row hw_key row live"
      using open1 newer(1) by (simp add: deliver_pending_def rbind_def)
    then show ?thesis
      using put [OF ev(1)] ev newer(2) by (simp add: pending_def pending_generations_def h(1) g_def [symmetric] del: prod.inject)
  qed
qed

interpretation pending_ledger: generation_ledger "pending key bot_ref horizon" "pending_event key bot_ref horizon"
    "pending_generations key" "\<lambda>ev. runtime_snapshot_order (fst ev)" "deliver_pending digest"
  for key bot_ref horizon digest
  using deliver_pending_ledger [of key bot_ref horizon _ _ digest] by unfold_locales auto

section \<open>Revocations are permanent\<close>

text \<open>The steps a runtime target takes: signed snapshots, the promotion of a pending row, and announcements of its own.\<close>

inductive runtime_step :: "(ApplicationRuntimeSnapshot \<Rightarrow> ustr) \<Rightarrow> string \<Rightarrow> runtime_store \<Rightarrow> runtime_store \<Rightarrow> bool" for digest d where
  deliver: "apply_application_runtime_control digest d store origin actor raw bootstrap current = Inr (changed, fence1, store1) \<Longrightarrow>
      runtime_step digest d store store1"
| promote: "promote_application_runtime_highwater store ref target_domain current = Inr (target, store1) \<Longrightarrow>
      runtime_step digest d store store1"
| announce: "queue_application_target_snapshot d store application bot_user force current = Inr (destination, store1) \<Longrightarrow>
      runtime_step digest d store store1"

definition keeps_tokens :: "BotToken list \<Rightarrow> BotToken list \<Rightarrow> bool" where
  "keeps_tokens = list_all2 (\<lambda>t t'. tk_id t' = tk_id t \<and> (tk_revoked_at t \<noteq> None \<longrightarrow> tk_revoked_at t' = tk_revoked_at t))"

definition keeps_workers :: "BotWorker list \<Rightarrow> BotWorker list \<Rightarrow> bool" where
  "keeps_workers = list_all2 (\<lambda>w w'. bw_id w' = bw_id w \<and> (bw_revoked_at w \<noteq> None \<longrightarrow> bw_revoked_at w' = bw_revoked_at w))"

definition keeps_targets :: "runtime_store \<Rightarrow> runtime_store \<Rightarrow> bool" where
  "keeps_targets store store1 \<longleftrightarrow>
     (\<forall>ref td t. find_target store ref td = Some t \<longrightarrow>
        (\<exists>t'. find_target store1 ref td = Some t' \<and> covered (bt_generations t) (bt_generations t') \<and> bt_generation t \<le> bt_generation t'))"

definition monotone_state :: "runtime_store \<Rightarrow> runtime_store \<Rightarrow> bool" where
  "monotone_state store store1 \<longleftrightarrow>
     keeps_targets store store1 \<and> keeps_tokens (rs_tokens store) (rs_tokens store1) \<and> keeps_workers (rs_workers store) (rs_workers store1)"

lemma keeps_refl [simp]: "keeps_tokens ts ts" "keeps_workers ws ws" "keeps_targets store store" "monotone_state store store"
  by (auto simp: keeps_tokens_def keeps_workers_def keeps_targets_def monotone_state_def list_all2_refl)

lemma keeps_tokens_trans: "keeps_tokens xs ys \<Longrightarrow> keeps_tokens ys zs \<Longrightarrow> keeps_tokens xs zs"
  unfolding keeps_tokens_def by (erule (1) list_all2_trans [rotated]) auto

lemma keeps_workers_trans: "keeps_workers xs ys \<Longrightarrow> keeps_workers ys zs \<Longrightarrow> keeps_workers xs zs"
  unfolding keeps_workers_def by (erule (1) list_all2_trans [rotated]) auto

lemma keeps_targets_trans: "keeps_targets s1 s2 \<Longrightarrow> keeps_targets s2 s3 \<Longrightarrow> keeps_targets s1 s3"
  unfolding keeps_targets_def by (meson covered_trans order_trans)

lemma monotone_state_trans: "monotone_state s1 s2 \<Longrightarrow> monotone_state s2 s3 \<Longrightarrow> monotone_state s1 s3"
  unfolding monotone_state_def by (blast intro: keeps_targets_trans keeps_tokens_trans keeps_workers_trans)

lemma keeps_update_tokens: "keeps_tokens ts (revoke_tokens ref ids current ts)"
  by (simp add: keeps_tokens_def revoke_tokens_def update_where_def list_all2_map2 list_all2_same)

lemma keeps_update_workers:
  "keeps_workers ws (update_where (\<lambda>w. p w \<and> bw_revoked_at w = None) (\<lambda>w. w\<lparr>bw_revoked_at := Some current\<rparr>) ws)"
  by (simp add: keeps_workers_def update_where_def list_all2_map2 list_all2_same)

lemma keeps_targets_put:
  assumes "rs_targets store1 = put_row bt_key t (rs_targets store)"
    and "\<And>u. find_target store (fst (bt_key t)) (snd (bt_key t)) = Some u \<Longrightarrow>
      covered (bt_generations u) (bt_generations t) \<and> bt_generation u \<le> bt_generation t"
  shows "keeps_targets store store1"
  unfolding keeps_targets_def
proof (intro allI impI)
  fix ref td u assume u: "find_target store ref td = Some u"
  show "\<exists>t'. find_target store1 ref td = Some t' \<and> covered (bt_generations u) (bt_generations t') \<and> bt_generation u \<le> bt_generation t'"
  proof (cases "bt_key t = (ref, td)")
    case True
    then show ?thesis using find_target_put [OF assms(1), of ref td] assms(2) u by simp
  next
    case False
    then show ?thesis using find_target_put [OF assms(1), of ref td] u by (auto simp del: prod.inject)
  qed
qed

lemma same_runtime_keeps: "same_runtime store store1 \<Longrightarrow> keeps_targets store store1"
  unfolding same_runtime_def keeps_targets_def runtime_view_def by (metis covered_refl prod.inject)

lemma same_runtime_monotone: "same_runtime store store1 \<Longrightarrow> monotone_state store store1"
  using same_runtime_keeps [of store store1] by (simp add: monotone_state_def same_runtime_def)

lemma keeps_targets_frame: "keeps_targets store store1 \<Longrightarrow> rs_targets store2 = rs_targets store1 \<Longrightarrow> keeps_targets store store2"
  unfolding keeps_targets_def find_target_def by simp

lemma monotone_behind:
  assumes "covered (bt_generations t) (runtime_snapshot_order s)"
    and "\<And>u. find_target store (fst (bt_key t)) (snd (bt_key t)) = Some u \<Longrightarrow> u = t"
    and "apply_behind_application digest d store a actor t s ar current = Inr (effects, store1)"
  shows "monotone_state store store1"
proof -
  from assms(3) obtain store2 where st: "same_runtime (behind_updated digest store a t s ar) store2"
    "store1 = store2\<lparr>rs_tokens := if ar then revoke_tokens (ba_ref a) (bw_id ` set (filter (\<lambda>w. bw_application w = ba_ref a) (rs_workers store))) current
       (rs_tokens store) else rs_tokens store\<rparr>" by (rule behind_result)
  have "keeps_targets store (behind_updated digest store a t s ar)"
    by (rule keeps_targets_put [of _ "accept_generations (runtime_snapshot_order s) (digest s) t"])
       (use assms(1,2) in \<open>auto simp: behind_updated_def\<close>)
  then have "keeps_targets store store1"
    using keeps_targets_trans [OF _ same_runtime_keeps [OF st(1)]] keeps_targets_frame [of store store2 store1] by (simp add: st(2))
  then show ?thesis
    using st by (simp add: monotone_state_def keeps_update_tokens same_runtime_def behind_updated_def)
qed

lemma monotone_current:
  assumes "covered (bt_generations t) (runtime_snapshot_order s)"
    and "\<And>u. find_target store (fst (bt_key t)) (snd (bt_key t)) = Some u \<Longrightarrow> u = t"
    and "apply_current_snapshot digest d store a actor t s ar current = Inr (effects, store1)"
  shows "monotone_state store store1"
proof -
  from assms(3) obtain store2 where st: "same_runtime (current_updated digest store a t s ar) store2"
    "store1 = store2\<lparr>rs_workers := revoke_workers (ba_ref a) s current (rs_workers store),
       rs_tokens := revoke_tokens (ba_ref a) (revoked_ids store (ba_ref a) t s) current (rs_tokens store)\<rparr>" by (rule current_result)
  have "keeps_targets store (current_updated digest store a t s ar)"
    by (rule keeps_targets_put [of _ "(accept_generations (runtime_snapshot_order s) (digest s) t)
        \<lparr>bt_runtime_status := sn_status s, bt_runtime_target_allowed := sn_target_allowed s\<rparr>"])
       (use assms(1,2) in \<open>auto simp: current_updated_def\<close>)
  then have "keeps_targets store store1"
    using keeps_targets_trans [OF _ same_runtime_keeps [OF st(1)]] keeps_targets_frame [of store store2 store1] by (simp add: st(2))
  then show ?thesis
    using keeps_update_workers [of "rs_workers store" "\<lambda>w. bw_application w = ba_ref a \<and> authority_revoked s w" current]
    by (simp add: monotone_state_def keeps_update_tokens st(2) revoke_workers_def conj_assoc)
qed

lemma monotone_same: "rs_targets store1 = rs_targets store \<Longrightarrow> rs_tokens store1 = rs_tokens store \<Longrightarrow> rs_workers store1 = rs_workers store \<Longrightarrow>
    monotone_state store store1"
  by (auto simp: monotone_state_def keeps_targets_def find_target_def)

lemma monotone_put:
  assumes "rs_targets store1 = put_row bt_key t (rs_targets store)" "rs_tokens store1 = rs_tokens store" "rs_workers store1 = rs_workers store"
    and "\<And>u. find_target store (fst (bt_key t)) (snd (bt_key t)) = Some u \<Longrightarrow>
      covered (bt_generations u) (bt_generations t) \<and> bt_generation u \<le> bt_generation t"
  shows "monotone_state store store1"
  using assms keeps_targets_put [OF assms(1)] by (simp add: monotone_state_def)

lemma apply_snapshot_monotone:
  assumes "apply_application_runtime_snapshot digest d store origin actor raw bootstrap current = Inr (effects, store1)"
  shows "monotone_state store store1"
proof -
  obtain s where s: "snapshot_validate raw = Inr s"
    using assms by (cases "snapshot_validate raw") (auto simp: apply_application_runtime_snapshot_def rbind_def)
  define app where "app = find (\<lambda>a. ba_ref a = (sn_application_id s, origin) \<and> (ba_bot_user_id a, ba_bot_user_domain a) = u_ref actor) (rs_applications store)"
  define g where "g = runtime_snapshot_order s"
  note open1 = assms [unfolded apply_application_runtime_snapshot_def s rbind_def sum.case Let_def, folded app_def g_def]
  show ?thesis
  proof (cases app)
    case None
    then show ?thesis
      using open1 by (intro monotone_same) (auto split: if_splits sum.splits)
  next
    case (Some a)
    define t where "t = target_row 1 store (ba_ref a) d"
    note stored = target_row_stored [of store 1 "ba_ref a" d, folded t_def]
    have out: "store1 = store\<lparr>rs_targets := put_row bt_key t (rs_targets store)\<rparr> \<or>
        covered (bt_generations t) g \<and> (\<exists>ar. apply_behind_application digest d store a actor t s ar current = Inr (effects, store1)) \<or>
        covered (bt_generations t) g \<and> (\<exists>ar. apply_current_snapshot digest d store a actor t s ar current = Inr (effects, store1))"
    proof (cases "runtime_snapshot_is_stale g (bt_generations t)")
      case (Inl e)
      then show ?thesis using open1 unfolding Some option.case t_def [symmetric] by (simp split: if_splits)
    next
      case (Inr stale)
      note le = Inr [unfolded stale_Inr]
      show ?thesis
      proof (cases stale)
        case True
        then show ?thesis using open1 Inr unfolding Some option.case t_def [symmetric] by (simp split: if_splits)
      next
        case False
        with le have "covered (bt_generations t) g" by blast
        then show ?thesis
          using open1 Inr False unfolding Some option.case t_def [symmetric] by (simp split: if_splits) blast+
      qed
    qed
    then show ?thesis
    proof (elim disjE conjE exE)
      assume "store1 = store\<lparr>rs_targets := put_row bt_key t (rs_targets store)\<rparr>"
      then show ?thesis using stored by (intro monotone_put [of _ t]) auto
    next
      fix ar assume "covered (bt_generations t) g" "apply_behind_application digest d store a actor t s ar current = Inr (effects, store1)"
      then show ?thesis using monotone_behind [of t s store] stored by (simp add: g_def)
    next
      fix ar assume "covered (bt_generations t) g" "apply_current_snapshot digest d store a actor t s ar current = Inr (effects, store1)"
      then show ?thesis using monotone_current [of t s store] stored by (simp add: g_def)
    qed
  qed
qed

lemma promote_monotone:
  assumes "promote_application_runtime_highwater store ref td current = Inr (target, store1)"
  shows "monotone_state store store1"
proof -
  define row where "row = target_row 1 store ref td"
  note stored = target_row_stored [of store 1 ref td, folded row_def]
  obtain a where a: "find (\<lambda>a. ba_ref a = ref) (rs_applications store) = Some a"
    using assms by (auto simp: promote_application_runtime_highwater_def split: option.splits)
  note open1 = assms [unfolded promote_application_runtime_highwater_def a option.case Let_def, folded row_def]
  have "rs_tokens store1 = rs_tokens store \<and> rs_workers store1 = rs_workers store \<and>
      (rs_targets store1 = rs_targets store \<or>
       (\<exists>t. rs_targets store1 = put_row bt_key t (rs_targets store) \<and> bt_key t = bt_key row \<and> covered (bt_generations row) (bt_generations t) \<and> bt_generation row \<le> bt_generation t))"
  proof (cases "find (\<lambda>h. hw_key h = (ref, td)) (rs_highwaters store)")
    case None
    then show ?thesis using open1 by simp
  next
    case (Some h)
    show ?thesis
    proof (cases "hw_expires_at h \<le> current \<or> hw_bot_user_id h \<noteq> ba_bot_user_id a \<or> hw_bot_user_domain h \<noteq> ba_bot_user_domain a \<or>
        hw_manifest_generation h \<noteq> ba_manifest_generation a \<or> hw_revocation_generation h \<noteq> ba_revocation_generation a \<or> hw_status h \<noteq> ba_status a")
      case True
      then show ?thesis using open1 Some by (auto split: if_splits)
    next
      case False
      then obtain stale where stale: "runtime_snapshot_is_stale (hw_generations h) (bt_generations row) = Inr stale"
        using open1 Some by (auto simp: rbind_def split: sum.splits)
      note le = stale [unfolded stale_Inr]
      define merged where "merged = (if stale then row else (accept_generations (hw_generations h) (hw_runtime_fingerprint h) row)
          \<lparr>bt_runtime_status := hw_status h, bt_runtime_target_allowed := hw_target_allowed h\<rparr>)"
      have "rs_targets store1 = put_row bt_key merged (rs_targets store) \<and> rs_tokens store1 = rs_tokens store \<and> rs_workers store1 = rs_workers store"
        using open1 Some False stale by (auto simp: rbind_def merged_def split: if_splits)
      moreover have "bt_key merged = bt_key row" "covered (bt_generations row) (bt_generations merged)" "bt_generation row \<le> bt_generation merged"
        using le by (auto simp: merged_def)
      ultimately show ?thesis by blast
    qed
  qed
  then show ?thesis
  proof (elim conjE disjE exE)
    fix t assume t: "rs_targets store1 = put_row bt_key t (rs_targets store)" "bt_key t = bt_key row" "covered (bt_generations row) (bt_generations t)" "bt_generation row \<le> bt_generation t"
      and same: "rs_tokens store1 = rs_tokens store" "rs_workers store1 = rs_workers store"
    show ?thesis using stored t(3,4) unfolding t(2) [symmetric] by (intro monotone_put [OF t(1) same]) auto
  qed (rule monotone_same)
qed


lemma snapshot_validate_id: "snapshot_validate raw = Inr s \<Longrightarrow> s = raw"
  by (auto simp: snapshot_validate_def split: if_splits option.splits)

lemma apply_changed:
  fixes store a d s
  defines "t \<equiv> target_row 1 store (ba_ref a) d"
  assumes "apply_application_runtime_snapshot digest d store origin actor s boot current = Inr (effects, store1)" "re_changed effects"
    and known: "known_application (sn_application_id s, origin) actor store = Some a"
  shows "sn_application_domain s = origin \<and> sn_target_domain s = d \<and> covered (bt_generations t) (runtime_snapshot_order s) \<and>
     Inr (effects, store1) =
       (let ar = snd (snd (bt_generations t)) < snd (snd (runtime_snapshot_order s))
        in if fst (runtime_snapshot_order s) < ba_manifest_generation a \<or> fst (snd (runtime_snapshot_order s)) < ba_revocation_generation a
           then apply_behind_application digest d store a actor t s ar current
           else apply_current_snapshot digest d store a actor t s ar current)"
proof -
  obtain s' where s': "snapshot_validate s = Inr s'"
    using assms(2) by (cases "snapshot_validate s") (auto simp: apply_application_runtime_snapshot_def rbind_def)
  note valid = s' [unfolded snapshot_validate_id [OF s']]
  define g where "g = runtime_snapshot_order s"
  note open1 = assms(2) [unfolded apply_application_runtime_snapshot_def valid rbind_def sum.case Let_def, folded known_application_def,
      unfolded known option.case, folded t_def g_def]
  have auth: "sn_application_domain s = origin" "sn_target_domain s = d" using open1 by (auto split: if_splits)
  obtain stale where stale: "runtime_snapshot_is_stale g (bt_generations t) = Inr stale"
    using open1 by (auto split: if_splits sum.splits)
  have "\<not> stale"
    using open1 stale assms(3) by (auto simp: unchanged_def split: if_splits)
  then show ?thesis
    using open1 stale stale_Inr [of g "bt_generations t" stale] auth by (auto simp: g_def [symmetric] Let_def split: if_splits)
qed

lemma control_changed:
  assumes "apply_application_runtime_control digest d store origin actor s boot current = Inr (True, fence1, store1)"
  obtains effects where "apply_application_runtime_snapshot digest d store origin actor s boot current = Inr (effects, store1)" "re_changed effects"
    "fence1 = (if sn_status s \<noteq> ''active'' \<or> \<not> sn_target_allowed s \<or> re_access_revoked_targets effects \<noteq> {}
               then RevokeE2eeAccess (sn_application_id s, sn_application_domain s)
               else if re_invalidated_worker_ids effects \<noteq> {}
               then EvictVoiceSessions (sn_application_id s, sn_application_domain s) (re_invalidated_worker_ids effects) else NoFence)"
proof -
  obtain s' where s': "snapshot_validate s = Inr s'"
    using assms by (cases "snapshot_validate s") (auto simp: apply_application_runtime_control_def rbind_def)
  note valid = s' [unfolded snapshot_validate_id [OF s']]
  obtain effects st where ap: "apply_application_runtime_snapshot digest d store origin actor s boot current = Inr (effects, st)"
    using assms by (cases "apply_application_runtime_snapshot digest d store origin actor s boot current")
       (auto simp: apply_application_runtime_control_def rbind_def valid)
  note open1 = assms [unfolded apply_application_runtime_control_def valid rbind_def sum.case ap prod.case Let_def]
  show thesis using open1 by (intro that [of effects]) (auto simp: ap split: if_splits)
qed

lemma revoked_tokens:
  assumes "t \<in> set (revoke_tokens ref ids current ts)" "tk_application t = ref" "tk_worker_id t \<in> ids"
  shows "tk_revoked_at t \<noteq> None"
proof -
  define p where "p = (\<lambda>t. tk_application t = ref \<and> tk_worker_id t \<in> ids \<and> tk_revoked_at t = None)"
  obtain u where "t = (if p u then u\<lparr>tk_revoked_at := Some current\<rparr> else u)"
    using assms(1) unfolding revoke_tokens_def in_update_where p_def by blast
  then show ?thesis using assms(2,3)
  proof (cases "p u")
    case False
    with \<open>t = _\<close> have "t = u" by simp
    with False assms(2,3) show ?thesis by (auto simp: p_def)
  qed simp
qed

lemma disabled_installations:
  assumes "i \<in> set (snd (set_application_installations_enabled ref False rot rows))" "of_application ref i" "bi_revoked_at i = None"
  shows "bi_status i \<noteq> ''active''"
proof -
  define p where "p = (\<lambda>i. of_application ref i \<and> bi_status i = ''active'' \<and> bi_revoked_at i = None)"
  obtain u where "i = (if p u then u\<lparr>bi_status := ''suspended'', bi_grant_revision := bi_grant_revision u + 1\<rparr> else u)"
    using assms(1) by (auto simp: set_application_installations_enabled_def Let_def in_update_where p_def)
  then show ?thesis using assms(2,3)
  proof (cases "p u")
    case False
    with \<open>i = _\<close> have "i = u" by simp
    with False assms(2,3) show ?thesis by (auto simp: p_def)
  qed simp
qed


lemma current_disables:
  assumes "apply_current_snapshot digest d store a actor t s ar current = Inr (effects, store1)" "bt_key t = (ref, d)" "ba_ref a = ref"
    and off: "\<not> (sn_status s = ''active'' \<and> sn_target_allowed s)"
  shows "\<forall>t\<in>set (rs_tokens store1). tk_application t = ref \<and> (\<exists>w\<in>set (rs_workers store). bw_application w = ref \<and> bw_id w = tk_worker_id t) \<longrightarrow>
       tk_revoked_at t \<noteq> None"
    "\<forall>i\<in>set (rs_installations store1). of_application ref i \<and> bi_revoked_at i = None \<longrightarrow> bi_status i \<noteq> ''active''"
    "\<not> target_runtime_projection_ready (find_target store1 ref d) m r"
proof -
  from assms(1) obtain store2 where st: "same_runtime (current_updated digest store a t s ar) store2"
    "store1 = store2\<lparr>rs_workers := revoke_workers ref s current (rs_workers store),
       rs_tokens := revoke_tokens ref (revoked_ids store ref t s) current (rs_tokens store)\<rparr>" unfolding assms(3) [symmetric] by (rule current_result)
  have ids: "bw_id ` {w \<in> set (rs_workers store). bw_application w = ref} \<subseteq> revoked_ids store ref t s"
    using off by (auto simp: revoked_ids_def loses_tokens_def)
  have "tk_revoked_at u \<noteq> None" if "u \<in> set (rs_tokens store1)" "tk_application u = ref"
    "\<exists>w\<in>set (rs_workers store). bw_application w = ref \<and> bw_id w = tk_worker_id u" for u
  proof -
    have "tk_worker_id u \<in> revoked_ids store ref t s" using that(3) ids by force
    then show ?thesis using revoked_tokens [of u ref "revoked_ids store ref t s" current "rs_tokens store"] that(1,2) by (simp add: st(2))
  qed
  then show "\<forall>t\<in>set (rs_tokens store1). tk_application t = ref \<and> (\<exists>w\<in>set (rs_workers store). bw_application w = ref \<and> bw_id w = tk_worker_id t) \<longrightarrow>
       tk_revoked_at t \<noteq> None" by blast
  have "rs_installations store1 = snd (set_application_installations_enabled ref False False (rs_installations store))"
    using st off by (simp add: same_runtime_def current_updated_def assms(3))
  then show "\<forall>i\<in>set (rs_installations store1). of_application ref i \<and> bi_revoked_at i = None \<longrightarrow> bi_status i \<noteq> ''active''"
    using disabled_installations [of _ ref False "rs_installations store"] by metis
  show "\<not> target_runtime_projection_ready (find_target store1 ref d) m r"
    using current_row(1) [OF assms(1,2)] off by (auto simp: runtime_view_def target_runtime_projection_ready_def)
qed

section \<open>Revocations survive coalescing\<close>

definition enabled_at :: "string \<Rightarrow> RuntimeApplication \<Rightarrow> (string \<rightharpoonup> string) \<Rightarrow> string \<Rightarrow> bool" where
  "enabled_at home application rules td \<longleftrightarrow>
     ba_status application = ''active'' \<and> (td = home \<or> target_policy_allows (ra_target_policy application) rules td)"

definition outbox_entries :: "entity_ref \<Rightarrow> string \<Rightarrow> runtime_store \<Rightarrow> (string \<times> ApplicationRuntimeSnapshot) list" where
  "outbox_entries ref td store =
     filter (\<lambda>(dest, s). dest = td \<and> (sn_application_id s, sn_application_domain s) = ref \<and> sn_target_domain s = td) (rs_outbox store)"

text \<open>One publication: the ledger row of the home, and the single queued snapshot.\<close>

lemma publish_target_effect:
  fixes application home rules td store
  defines "t \<equiv> target_row 0 store (ba_ref application) td"
  assumes "td \<noteq> home"
  shows "\<exists>s. find_target (fst (publish_target digest home application bot_user workers rules td (store, ds))) (ba_ref application) td =
       Some ((accept_generations (runtime_snapshot_order s) (digest s) t)\<lparr>bt_runtime_status := ba_status application,
               bt_runtime_target_allowed := target_policy_allows (ra_target_policy application) rules td\<rparr>) \<and>
     outbox_entries (ba_ref application) td (fst (publish_target digest home application bot_user workers rules td (store, ds))) = [(td, s)] \<and>
     sn_access_revocation_generation s = bt_runtime_access_revocation_generation t +
       (if bt_runtime_status t = ''active'' \<and> bt_runtime_target_allowed t \<and> \<not> enabled_at home application rules td then 1 else 0) \<and>
     (sn_application_id s, sn_application_domain s) = ba_ref application \<and> (sn_bot_user_id s, sn_bot_user_domain s) = u_ref bot_user \<and>
     sn_target_domain s = td \<and> sn_status s = ba_status application \<and>
     sn_target_allowed s = target_policy_allows (ra_target_policy application) rules td \<and>
     sn_manifest_generation s = ba_manifest_generation application \<and> sn_revocation_generation s = ba_revocation_generation application"
proof -
  define allowed1 where "allowed1 = (td = home \<or> target_policy_allows (ra_target_policy application) rules td)"
  have al: "allowed1 = target_policy_allows (ra_target_policy application) rules td" using assms(2) by (simp add: allowed1_def)
  define access where "access = bt_runtime_access_revocation_generation t +
      (if (bt_runtime_status t = ''active'' \<and> bt_runtime_target_allowed t) \<and> \<not> (ba_status application = ''active'' \<and> allowed1) then 1 else 0)"
  define s where "s = runtime_snapshot application bot_user workers td allowed1 access"
  define u where "u = (accept_generations (runtime_snapshot_order s) (digest s) t)\<lparr>bt_runtime_status := ba_status application,
      bt_runtime_target_allowed := allowed1\<rparr>"
  define st where "st = fst (publish_target digest home application bot_user workers rules td (store, ds))"
  note open1 = st_def [unfolded publish_target_def Let_def prod.case, folded t_def, folded allowed1_def, folded access_def,
      folded s_def, folded u_def, unfolded if_not_P [OF assms(2)]]
  have targets: "rs_targets st = put_row bt_key u (rs_targets store)" unfolding open1 by simp
  have key: "bt_key u = (ba_ref application, td)" using target_row_key [of 0 store "ba_ref application" td] by (simp add: u_def t_def)
  have sref: "(sn_application_id s, sn_application_domain s) = ba_ref application" "sn_target_domain s = td" "sn_access_revocation_generation s = access"
    by (simp_all add: s_def runtime_snapshot_def)
  have "outbox_entries (ba_ref application) td st = [(td, s)]"
    unfolding open1 outbox_entries_def using sref by (auto simp: filter_empty_conv)
  moreover have "find_target st (ba_ref application) td = Some u" using find_target_put [OF targets] key by simp
  ultimately show ?thesis
    unfolding st_def [symmetric] by (intro exI [of _ s]) (use sref al in \<open>auto simp: u_def access_def enabled_at_def allowed1_def s_def runtime_snapshot_def\<close>)
qed

lemma list_all2_update_where: "(\<And>x. P x (if p x then f x else x)) \<Longrightarrow> list_all2 P xs (update_where p f xs)"
  by (simp add: update_where_def list_all2_map2 list_all2_same)

definition rotated :: "entity_ref \<Rightarrow> BotInstallation \<Rightarrow> BotInstallation \<Rightarrow> bool" where
  "rotated ref i i' \<longleftrightarrow> bi_id i' = bi_id i \<and>
     (of_application ref i \<and> bi_status i = ''active'' \<and> bi_revoked_at i = None \<longrightarrow> bi_grant_revision i' = bi_grant_revision i + 1)"

lemma rotate_rotated: "list_all2 (rotated ref) rows (snd (rotate_active_application_grants ref rows))"
  unfolding rotate_active_application_grants_def Let_def snd_conv by (rule list_all2_update_where) (simp add: rotated_def)

lemma enabled_rotated: "(en \<longrightarrow> rot) \<Longrightarrow> list_all2 (rotated ref) rows (snd (set_application_installations_enabled ref en rot rows))"
  unfolding set_application_installations_enabled_def Let_def snd_conv by (rule list_all2_update_where) (cases en; simp add: rotated_def)

lemma rotated_grants:
  assumes "ar" "Inr (effects, store1) =
       (if behind then apply_behind_application digest d store a actor t s ar current else apply_current_snapshot digest d store a actor t s ar current)"
  shows "re_access_revoked_targets effects \<noteq> {} \<and>
     list_all2 (\<lambda>i i'. bi_id i' = bi_id i \<and> (of_application (ba_ref a) i \<and> bi_status i = ''active'' \<and> bi_revoked_at i = None \<longrightarrow>
        bi_grant_revision i' = bi_grant_revision i + 1)) (rs_installations store) (rs_installations store1)"
proof -
  have "re_access_revoked_targets effects \<noteq> {} \<and>
      (rs_installations store1 = snd (rotate_active_application_grants (ba_ref a) (rs_installations store)) \<or>
       (\<exists>en rot. (en \<longrightarrow> rot) \<and> rs_installations store1 = snd (set_application_installations_enabled (ba_ref a) en rot (rs_installations store))))"
  proof (cases behind)
    case True
    with assms(2) have "apply_behind_application digest d store a actor t s ar current = Inr (effects, store1)" by simp
    then show ?thesis by (rule behind_result) (use assms(1) in \<open>auto simp: same_runtime_def behind_updated_def\<close>)
  next
    case False
    with assms(2) have "apply_current_snapshot digest d store a actor t s ar current = Inr (effects, store1)" by simp
    then show ?thesis by (rule current_result) (use assms(1) in \<open>auto simp: same_runtime_def current_updated_def\<close>)
  qed
  then show ?thesis unfolding rotated_def [symmetric] using rotate_rotated enabled_rotated by metis
qed


text \<open>A target that takes over a snapshot with a newer access generation revokes and rotates, also when it is behind the stored application.\<close>

lemma accepted_revocation:
  assumes known: "known_application ref actor store = Some a" and s: "(sn_application_id s, sn_application_domain s) = ref"
    and newer: "bt_runtime_access_revocation_generation (target_row 1 store ref td) < sn_access_revocation_generation s"
    and control: "apply_application_runtime_control digest td store (snd ref) actor s boot current = Inr (True, fence1, store1)"
  shows "fence1 = RevokeE2eeAccess ref \<and>
     list_all2 (\<lambda>i i'. bi_id i' = bi_id i \<and> (of_application ref i \<and> bi_status i = ''active'' \<and> bi_revoked_at i = None \<longrightarrow>
        bi_grant_revision i' = bi_grant_revision i + 1)) (rs_installations store) (rs_installations store1)"
proof -
  from control obtain effects where ap: "apply_application_runtime_snapshot digest td store (snd ref) actor s boot current = Inr (effects, store1)" "re_changed effects"
    and fence: "fence1 = (if sn_status s \<noteq> ''active'' \<or> \<not> sn_target_allowed s \<or> re_access_revoked_targets effects \<noteq> {}
             then RevokeE2eeAccess (sn_application_id s, sn_application_domain s)
             else if re_invalidated_worker_ids effects \<noteq> {}
             then EvictVoiceSessions (sn_application_id s, sn_application_domain s) (re_invalidated_worker_ids effects) else NoFence)"
    by (rule control_changed)
  have a: "ba_ref a = ref" using known by (auto simp: known_application_def dest: find_SomeD)
  have ref: "(sn_application_id s, snd ref) = ref" using s by (metis fst_conv prod.collapse)
  have known1: "known_application (sn_application_id s, snd ref) actor store = Some a" using known by (simp only: ref)
  have ar: "snd (snd (bt_generations (target_row 1 store (ba_ref a) td))) < snd (snd (runtime_snapshot_order s))"
    using newer a by (simp add: bt_generations_def runtime_snapshot_order_def)
  have out: "Inr (effects, store1) =
     (if fst (runtime_snapshot_order s) < ba_manifest_generation a \<or> fst (snd (runtime_snapshot_order s)) < ba_revocation_generation a
      then apply_behind_application digest td store a actor (target_row 1 store (ba_ref a) td) s
        (snd (snd (bt_generations (target_row 1 store (ba_ref a) td))) < snd (snd (runtime_snapshot_order s))) current
      else apply_current_snapshot digest td store a actor (target_row 1 store (ba_ref a) td) s
        (snd (snd (bt_generations (target_row 1 store (ba_ref a) td))) < snd (snd (runtime_snapshot_order s))) current)"
    using apply_changed [OF ap known1] unfolding Let_def by blast
  show ?thesis using rotated_grants [OF ar out] fence s unfolding a by simp
qed

section \<open>Samples\<close>

definition sample_actor :: User where
  "sample_actor = \<lparr>u_id = 7, u_origin_domain = ''a.example'', u_account_type = ''bot'', u_disabled_at = None\<rparr>"

definition sample_application :: "string \<Rightarrow> int \<Rightarrow> RuntimeApplication" where
  "sample_application status revocation = \<lparr>ba_id = 5, ba_origin_domain = ''a.example'', ba_bot_user_id = 7, ba_bot_user_domain = ''a.example'',
     ba_status = status, ba_manifest_generation = 1, ba_revocation_generation = revocation, ra_target_policy = ''open''\<rparr>"

definition sample_target :: RuntimeTarget where
  "sample_target = accept_generations (1, 1, 0) [] (fresh_target 1 (5, ''a.example'') ''b.example'')"

definition sample_store :: runtime_store where
  "sample_store = \<lparr>rs_applications = [sample_application ''active'' 1], rs_targets = [sample_target], rs_highwaters = [],
     rs_workers = [\<lparr>bw_id = 3, bw_authority_id = 3, bw_application_id = 5, bw_application_domain = ''a.example'', bw_target_domains = [],
        bw_generation = 1, bw_revoked_at = None\<rparr>],
     rs_tokens = [\<lparr>tk_id = 9, tk_application_id = 5, tk_application_domain = ''a.example'', tk_worker_id = 3, tk_revoked_at = None\<rparr>],
     rs_installations = [\<lparr>bi_id = 6, bi_application_id = 5, bi_application_domain = ''a.example'', bi_guild_id = 1, bi_guild_domain = ''b.example'',
        bi_bot_user_id = 7, bi_bot_user_domain = ''a.example'', bi_status = ''active'', bi_revoked_at = None, bi_grant_revision = 4,
        bi_granted_permissions = 0, bi_channel_restrictions = []\<rparr>],
     rs_members = [], rs_user_installations = [], rs_outbox = [], rs_target_outbox = []\<rparr>"

definition sample_snapshot :: "string \<Rightarrow> int \<Rightarrow> int \<Rightarrow> ApplicationRuntimeSnapshot" where
  "sample_snapshot status revocation access =
     \<lparr>sn_application_id = 5, sn_application_domain = ''a.example'', sn_bot_user_id = 7, sn_bot_user_domain = ''a.example'',
      sn_target_domain = ''b.example'', sn_manifest_generation = 1, sn_revocation_generation = revocation,
      sn_access_revocation_generation = access, sn_status = status, sn_target_allowed = True, sn_workers = []\<rparr>"

definition sample_after :: "string \<Rightarrow> int \<Rightarrow> runtime_store" where
  "sample_after status revocation =
     deliver_runtime (\<lambda>_. []) ''b.example'' ''a.example'' sample_actor (sample_snapshot status revocation 1, False, 0) sample_store"

lemma sample_domain: "DOMAIN_RE (ucs ''a.example'')" "DOMAIN_RE (ucs ''b.example'')"
  by code_simp+

lemma sample_valid: "status = ''suspended'' \<or> status = ''active'' \<Longrightarrow> 1 \<le> r \<Longrightarrow> r \<le> 9 \<Longrightarrow> 0 \<le> ac \<Longrightarrow> ac \<le> 9 \<Longrightarrow>
    snapshot_validate (sample_snapshot status r ac) = Inr (sample_snapshot status r ac)"
  by (auto simp: snapshot_validate_def snapshot_fields_ok_def coherent_authority_def sample_snapshot_def sample_domain positive_range_def MAX_SNOWFLAKE_def)

lemma sample_known: "known_application (5, ''a.example'') sample_actor sample_store = Some (sample_application ''active'' 1)"
  by (simp add: known_application_def sample_store_def sample_application_def sample_actor_def)

lemma sample_row_found: "find_target sample_store (5, ''a.example'') ''b.example'' = Some sample_target"
  by (simp add: find_target_def sample_store_def sample_target_def fresh_target_def)

lemma sample_gens: "bt_generations sample_target = (1, 1, 0)" "runtime_snapshot_order (sample_snapshot st r ac) = (1, r, ac)"
  by (simp_all add: sample_target_def runtime_snapshot_order_def sample_snapshot_def)

lemma sample_addressed: "status = ''suspended'' \<or> status = ''active'' \<Longrightarrow> 1 \<le> r \<Longrightarrow> r \<le> 9 \<Longrightarrow> 0 \<le> ac \<Longrightarrow> ac \<le> 9 \<Longrightarrow>
    addressed ''b.example'' (5, ''a.example'') sample_actor (sample_snapshot status r ac)"
  unfolding addressed_def by (simp add: sample_valid) (simp add: sample_snapshot_def sample_actor_def)

lemma sample_control:
  assumes "status = ''suspended'' \<or> status = ''active''" "1 < r" "r \<le> 9"
  shows "apply_application_runtime_control (\<lambda>_. []) ''b.example'' sample_store ''a.example'' sample_actor (sample_snapshot status r 1) False 0 =
     Inr (True, RevokeE2eeAccess (5, ''a.example''), sample_after status r)"
proof -
  have ok: "bot_identity_ok (sample_application ''active'' 1) sample_actor"
    by (simp add: bot_identity_ok_def sample_application_def sample_actor_def)
  obtain effects store1 where out: "apply_current_snapshot (\<lambda>_. []) ''b.example'' sample_store (sample_application ''active'' 1) sample_actor sample_target
      (sample_snapshot status r 1) True 0 = Inr (effects, store1)"
    using current_succeeds [OF ok] .
  have ad: "addressed ''b.example'' (5, ''a.example'') sample_actor (sample_snapshot status r 1)" using assms by (intro sample_addressed) auto
  note app = apply_tracked [OF sample_known sample_row_found ad, of "\<lambda>_. []" False 0, unfolded sample_gens snd_conv fst_conv]
  have gens: "ba_manifest_generation (sample_application ''active'' 1) = 1" "ba_revocation_generation (sample_application ''active'' 1) = 1"
    by (simp_all add: sample_application_def)
  from app gens assms(2) out have applied: "apply_application_runtime_snapshot (\<lambda>_. []) ''b.example'' sample_store ''a.example'' sample_actor
      (sample_snapshot status r 1) False 0 = Inr (effects, store1)"
    by (simp add: rbind_def)
  have after: "store1 = sample_after status r" by (simp add: sample_after_def deliver_runtime_def applied)
  have valid: "snapshot_validate (sample_snapshot status r 1) = Inr (sample_snapshot status r 1)" using assms by (intro sample_valid) auto
  from out obtain "re_changed effects" "re_access_revoked_targets effects = {sn_target_domain (sample_snapshot status r 1)}"
    by (rule current_result) simp
  moreover have "sn_application_id (sample_snapshot status r 1) = 5" "sn_application_domain (sample_snapshot status r 1) = ''a.example''"
    by (simp_all add: sample_snapshot_def)
  ultimately show ?thesis
    unfolding apply_application_runtime_control_def valid rbind_def sum.case applied prod.case Let_def after by simp
qed

lemmas sample_suspended = sample_control [of "''suspended''" 2, simplified]

lemma sample_published: "outbox_entries (5, ''a.example'') ''b.example''
      (fst (publish_target (\<lambda>_. []) ''a.example'' (sample_application ''active'' 3) sample_actor [] Map.empty ''b.example''
        (fst (publish_target (\<lambda>_. []) ''a.example'' (sample_application ''suspended'' 2) sample_actor [] Map.empty ''b.example'' (sample_store, {})), {}))) =
      [(''b.example'', sample_snapshot ''active'' 3 1)]"
  by (simp add: publish_target_def outbox_entries_def find_target_def put_row_def target_row_def sample_store_def sample_application_def sample_target_def
      sample_actor_def sample_snapshot_def fresh_target_def accept_generations_def target_policy_allows_def runtime_snapshot_def runtime_snapshot_order_def Let_def)

section \<open>Properties\<close>

text \<open>
  C27: The signed snapshots of one application may arrive at a target in any order and any number of times: as long as their
  generations form a chain with the stored ones, the target ends with the same generations, and these cover every delivered snapshot.
\<close>

theorem runtime_delivery_converges:
  assumes "tracked d ref actor store" "\<forall>ev\<in>set evs. addressed d ref actor (fst ev)" "set evs = set evs'"
    and "\<forall>g\<in>insert (target_generations d ref store) ((runtime_snapshot_order \<circ> fst) ` set evs).
           \<forall>h\<in>insert (target_generations d ref store) ((runtime_snapshot_order \<circ> fst) ` set evs). covered g h \<or> covered h g"
  shows "target_generations d ref (fold (deliver_runtime digest d (snd ref) actor) evs store) =
           target_generations d ref (fold (deliver_runtime digest d (snd ref) actor) evs' store) \<and>
     (\<forall>ev\<in>set evs. covered (runtime_snapshot_order (fst ev))
        (target_generations d ref (fold (deliver_runtime digest d (snd ref) actor) evs store)))"
  using target_ledger.fold_chain [of d ref actor store evs digest] target_ledger.fold_chain_order_independent [of d ref actor store evs evs' digest] assms
  by (simp add: image_image o_def)

theorem runtime_delivery_converges_witness:
  "target_generations ''b.example'' (5, ''a.example'')
     (fold (deliver_runtime (\<lambda>_. []) ''b.example'' ''a.example'' sample_actor)
        [(sample_snapshot ''active'' 3 1, False, 0), (sample_snapshot ''suspended'' 2 1, False, 1)] sample_store) =
   target_generations ''b.example'' (5, ''a.example'')
     (fold (deliver_runtime (\<lambda>_. []) ''b.example'' ''a.example'' sample_actor)
        [(sample_snapshot ''suspended'' 2 1, False, 1), (sample_snapshot ''active'' 3 1, False, 0)] sample_store)"
proof -
  have "tracked ''b.example'' (5, ''a.example'') sample_actor sample_store" by (simp add: tracked_def sample_known sample_row_found)
  moreover have "target_generations ''b.example'' (5, ''a.example'') sample_store = (1, 1, 0)"
    by (simp add: target_generations_def sample_row_found sample_gens)
  ultimately show ?thesis
    using runtime_delivery_converges [of "''b.example''" "(5, ''a.example'')" sample_actor sample_store
      "[(sample_snapshot ''active'' 3 1, False, 0), (sample_snapshot ''suspended'' 2 1, False, 1)]"
      "[(sample_snapshot ''suspended'' 2 1, False, 1), (sample_snapshot ''active'' 3 1, False, 0)]" "\<lambda>_. []"]
    by (simp add: sample_addressed sample_gens insert_commute del: fold_simps)
qed

text \<open>
  C26: Whatever sequence of snapshots, stale, crossing or bootstrapping ones included, of promotions and of announcements a target processes, no ledger row
  disappears, no stored generation decreases in any component, announcements keep counting up, and a revoked token or worker stays revoked since the same moment.
\<close>

theorem runtime_state_monotone:
  assumes "(runtime_step digest d)\<^sup>*\<^sup>* store store1"
  shows "(\<forall>ref td t. find_target store ref td = Some t \<longrightarrow>
        (\<exists>t'. find_target store1 ref td = Some t' \<and> covered (bt_generations t) (bt_generations t') \<and> bt_generation t \<le> bt_generation t')) \<and>
     list_all2 (\<lambda>t t'. tk_id t' = tk_id t \<and> (tk_revoked_at t \<noteq> None \<longrightarrow> tk_revoked_at t' = tk_revoked_at t)) (rs_tokens store) (rs_tokens store1) \<and>
     list_all2 (\<lambda>w w'. bw_id w' = bw_id w \<and> (bw_revoked_at w \<noteq> None \<longrightarrow> bw_revoked_at w' = bw_revoked_at w)) (rs_workers store) (rs_workers store1)"
proof -
  have "monotone_state store store1"
    using assms
  proof (induction rule: rtranclp_induct)
    case (step y z)
    from step.hyps(2) have "monotone_state y z"
    proof cases
      case (deliver origin actor raw bootstrap current changed fence1)
      then show ?thesis
        by (auto simp: apply_application_runtime_control_def rbind_def Let_def split: sum.splits if_splits dest!: apply_snapshot_monotone)
    next
      case promote
      then show ?thesis by (rule promote_monotone)
    next
      case announce
      then show ?thesis by (intro same_runtime_monotone) (rule queue_same_runtime)
    qed
    with step.IH show ?case by (rule monotone_state_trans)
  qed simp
  then show ?thesis unfolding monotone_state_def keeps_targets_def keeps_tokens_def keeps_workers_def .
qed

theorem runtime_state_monotone_witness:
  "\<exists>t. find_target (sample_after ''suspended'' 2) (5, ''a.example'') ''b.example'' = Some t \<and> covered (1, 1, 0) (bt_generations t)"
proof -
  have "(runtime_step (\<lambda>_. []) ''b.example'')\<^sup>*\<^sup>* sample_store (sample_after ''suspended'' 2)"
    by (rule r_into_rtranclp) (rule runtime_step.deliver [OF sample_suspended])
  from conjunct1 [OF runtime_state_monotone [OF this]] sample_row_found show ?thesis by (force simp: sample_gens)
qed

text \<open>
  C29: A snapshot that disables the application at a target and is not behind the stored application closes every path at once: the
  bot's E2EE access is revoked, every token of its workers is revoked, no installation stays active, and the target is not ready for any generation.
\<close>

theorem disabled_snapshot_fences:
  fixes origin s
  defines "ref \<equiv> (sn_application_id s, origin)"
  assumes "apply_application_runtime_control digest d store origin actor s boot current = Inr (True, fence1, store1)"
    and "known_application ref actor store = Some a" "sn_status s \<noteq> ''active'' \<or> \<not> sn_target_allowed s"
    and "ba_manifest_generation a \<le> sn_manifest_generation s" "ba_revocation_generation a \<le> sn_revocation_generation s"
  shows "fence1 = RevokeE2eeAccess ref \<and>
     (\<forall>t\<in>set (rs_tokens store1). tk_application t = ref \<and> (\<exists>w\<in>set (rs_workers store). bw_application w = ref \<and> bw_id w = tk_worker_id t) \<longrightarrow>
        tk_revoked_at t \<noteq> None) \<and>
     (\<forall>i\<in>set (rs_installations store1). of_application ref i \<and> bi_revoked_at i = None \<longrightarrow> bi_status i \<noteq> ''active'') \<and>
     \<not> target_runtime_projection_ready (find_target store1 ref d) m r"
proof -
  from assms(2) obtain effects where ap: "apply_application_runtime_snapshot digest d store origin actor s boot current = Inr (effects, store1)" "re_changed effects"
    and fence: "fence1 = (if sn_status s \<noteq> ''active'' \<or> \<not> sn_target_allowed s \<or> re_access_revoked_targets effects \<noteq> {}
               then RevokeE2eeAccess (sn_application_id s, sn_application_domain s)
               else if re_invalidated_worker_ids effects \<noteq> {}
               then EvictVoiceSessions (sn_application_id s, sn_application_domain s) (re_invalidated_worker_ids effects) else NoFence)"
    by (rule control_changed)
  define t where "t = target_row 1 store (ba_ref a) d"
  define ar where "ar = (snd (snd (bt_generations t)) < snd (snd (runtime_snapshot_order s)))"
  have a: "ba_ref a = ref" using assms(3) by (auto simp: known_application_def dest: find_SomeD)
  have cur: "apply_current_snapshot digest d store a actor t s ar current = Inr (effects, store1)" and dom: "sn_application_domain s = origin"
    using apply_changed [OF ap assms(3) [unfolded ref_def]] assms(5,6) unfolding t_def ar_def
    by (simp_all add: runtime_snapshot_order_def Let_def)
  have off: "\<not> (sn_status s = ''active'' \<and> sn_target_allowed s)" using assms(4) by blast
  have key: "bt_key t = (ref, d)" using target_row_key [of 1 store ref d] by (simp add: t_def a)
  note disabled = current_disables [OF cur key a off]
  have "fence1 = RevokeE2eeAccess ref" using fence assms(4) by (auto simp: ref_def dom)
  then show ?thesis using disabled by blast
qed

theorem disabled_snapshot_fences_witness:
  "\<not> target_runtime_projection_ready (find_target (sample_after ''suspended'' 2) (5, ''a.example'') ''b.example'') 0 0 \<and>
   \<not> list_ex (\<lambda>t. tk_application t = (5, ''a.example'') \<and> tk_worker_id t = 3 \<and> tk_revoked_at t = None) (rs_tokens (sample_after ''suspended'' 2))"
proof -
  have "sn_application_id (sample_snapshot ''suspended'' 2 1) = 5" by (simp add: sample_snapshot_def)
  moreover have "\<exists>w\<in>set (rs_workers sample_store). bw_application w = (5, ''a.example'') \<and> bw_id w = 3" by (simp add: sample_store_def)
  ultimately show ?thesis
    using disabled_snapshot_fences [OF sample_suspended, of "sample_application ''active'' 1" 0 0] sample_known
    by (auto simp: sample_snapshot_def sample_application_def list_ex_iff)
qed

text \<open>
  C28: A home that disables an application at a target and enables it again before the first snapshot was sent keeps a single queued
  snapshot. The revocation survives this coalescing: a target that accepts this snapshot revokes the E2EE access of the bot and rotates every active grant.
\<close>

theorem coalesced_revocation_not_lost:
  assumes "td \<noteq> home" "ba_ref app1 = ref" "ba_ref app2 = ref" "find_target home0 ref td = Some t0"
    and "bt_runtime_status t0 = ''active''" "bt_runtime_target_allowed t0" "\<not> enabled_at home app1 rules td"
    and "home1 = fst (publish_target digest home app1 bot_user workers rules td (home0, ds))"
    and "home2 = fst (publish_target digest home app2 bot_user workers' rules' td (home1, ds'))"
  shows "\<exists>s. outbox_entries ref td home2 = [(td, s)] \<and>
     (\<forall>store actor a boot current fence1 store1.
        known_application ref actor store = Some a \<and>
        bt_runtime_access_revocation_generation (target_row 1 store ref td) \<le> bt_runtime_access_revocation_generation t0 \<and>
        apply_application_runtime_control digest td store (snd ref) actor s boot current = Inr (True, fence1, store1) \<longrightarrow>
        fence1 = RevokeE2eeAccess ref \<and>
        list_all2 (\<lambda>i i'. bi_id i' = bi_id i \<and> (of_application ref i \<and> bi_status i = ''active'' \<and> bi_revoked_at i = None \<longrightarrow>
          bi_grant_revision i' = bi_grant_revision i + 1)) (rs_installations store) (rs_installations store1))"
proof -
  have t0: "target_row 0 home0 ref td = t0" by (simp add: target_row_def assms(4))
  obtain s1 where s1: "find_target home1 ref td = Some ((accept_generations (runtime_snapshot_order s1) (digest s1) t0)
      \<lparr>bt_runtime_status := ba_status app1, bt_runtime_target_allowed := target_policy_allows (ra_target_policy app1) rules td\<rparr>)"
    "sn_access_revocation_generation s1 = bt_runtime_access_revocation_generation t0 + 1"
    using publish_target_effect [OF assms(1), where store = home0 and application = app1 and digest = digest and bot_user = bot_user and workers = workers and
        rules = rules and ds = ds] assms(5,6,7)
    unfolding assms(2) t0 assms(8) [symmetric] by auto
  have row1: "bt_runtime_access_revocation_generation (target_row 0 home1 ref td) = bt_runtime_access_revocation_generation t0 + 1"
    using s1 by (simp add: target_row_def accept_generations_def runtime_snapshot_order_def)
  obtain s where s: "outbox_entries ref td home2 = [(td, s)]" "(sn_application_id s, sn_application_domain s) = ref"
    "bt_runtime_access_revocation_generation t0 < sn_access_revocation_generation s"
    using publish_target_effect [OF assms(1), where store = home1 and application = app2 and digest = digest and bot_user = bot_user and workers = workers' and
        rules = rules' and ds = ds'] row1
    unfolding assms(3) assms(9) [symmetric] by auto
  have "fence1 = RevokeE2eeAccess ref \<and>
        list_all2 (\<lambda>i i'. bi_id i' = bi_id i \<and> (of_application ref i \<and> bi_status i = ''active'' \<and> bi_revoked_at i = None \<longrightarrow>
          bi_grant_revision i' = bi_grant_revision i + 1)) (rs_installations store) (rs_installations store1)"
    if "known_application ref actor store = Some a"
      and "bt_runtime_access_revocation_generation (target_row 1 store ref td) \<le> bt_runtime_access_revocation_generation t0"
      and "apply_application_runtime_control digest td store (snd ref) actor s boot current = Inr (True, fence1, store1)"
    for store actor a boot current fence1 store1
    using accepted_revocation [OF that(1) s(2) _ that(3)] that(2) s(3) by simp
  with s(1) show ?thesis by blast
qed

theorem coalesced_revocation_not_lost_witness:
  "\<exists>store1. apply_application_runtime_control (\<lambda>_. []) ''b.example'' sample_store ''a.example'' sample_actor (sample_snapshot ''active'' 3 1) False 0 =
       Inr (True, RevokeE2eeAccess (5, ''a.example''), store1) \<and> map bi_grant_revision (rs_installations store1) = [5]"
proof -
  have target: "bt_runtime_status sample_target = ''active''" "bt_runtime_target_allowed sample_target"
    by (simp_all add: sample_target_def fresh_target_def accept_generations_def)
  have row: "target_row 1 sample_store (5, ''a.example'') ''b.example'' = sample_target" by (simp add: target_row_def sample_row_found)
  have control: "apply_application_runtime_control (\<lambda>_. []) ''b.example'' sample_store (snd (5, ''a.example'')) sample_actor (sample_snapshot ''active'' 3 1) False 0 =
      Inr (True, RevokeE2eeAccess (5, ''a.example''), sample_after ''active'' 3)"
    using sample_control [of "''active''" 3] by simp
  have ref: "ba_ref (sample_application ''suspended'' 2) = (5, ''a.example'')" "ba_ref (sample_application ''active'' 3) = (5, ''a.example'')"
    "\<not> enabled_at ''a.example'' (sample_application ''suspended'' 2) Map.empty ''b.example''"
    by (simp_all add: sample_application_def enabled_at_def)
  from coalesced_revocation_not_lost [OF _ ref(1,2) sample_row_found target ref(3) refl refl, where digest = "\<lambda>_. []" and bot_user = sample_actor and workers = "[]" and ds = "{}" and
      workers' = "[]" and rules' = Map.empty and ds' = "{}"]
  have "list_all2 (\<lambda>i i'. bi_id i' = bi_id i \<and> (of_application (5, ''a.example'') i \<and> bi_status i = ''active'' \<and> bi_revoked_at i = None \<longrightarrow>
      bi_grant_revision i' = bi_grant_revision i + 1)) (rs_installations sample_store) (rs_installations (sample_after ''active'' 3))"
    unfolding sample_published using sample_known row control by force
  then show ?thesis using control
    by (auto simp: sample_store_def of_application_def list_all2_Cons1)
qed

end
