(* ===== verification/Target_Discovery.thy ===== *)
theory Target_Discovery
  imports Runtime_Control "HOL-Library.Product_Lexorder"
begin

text \<open>
  Discovery of runtime targets (\<open>bots/target_discovery.py\<close>): a target announces how many installations of a foreign
  application it holds; the application's home records the announcement under its generation and answers with its current
  runtime snapshot. The bot user row, the instance rules and the direct-message domains of the home are arguments.
\<close>

section \<open>Operations\<close>

definition require_application_runtime_enabled :: "runtime_store \<Rightarrow> string \<Rightarrow> RuntimeApplication \<Rightarrow> unit result" where
  "require_application_runtime_enabled store settings_domain application =
     (if ba_origin_domain application = settings_domain then Inr ()
      else case find_target store (ba_ref application) settings_domain of
             None \<Rightarrow> Inr ()
           | Some t \<Rightarrow>
               if bt_runtime_status t \<noteq> ''active'' \<or> \<not> bt_runtime_target_allowed t
               then Inl (HTTPException 403 ''APPLICATION_TARGET_NOT_ALLOWED'') else Inr ())"

text \<open>The join of an application with the row of its bot user.\<close>

definition application_with_bot :: "runtime_store \<Rightarrow> User list \<Rightarrow> entity_ref \<Rightarrow> (RuntimeApplication \<times> User) option" where
  "application_with_bot store users application_ref =
     (case find (\<lambda>a. ba_ref a = application_ref) (rs_applications store) of
        None \<Rightarrow> None
      | Some a \<Rightarrow> map_option (Pair a) (find (\<lambda>u. u_ref u = (ba_bot_user_id a, ba_bot_user_domain a)) users))"

fun queue_for_refs :: "string \<Rightarrow> User list \<Rightarrow> bool \<Rightarrow> int \<Rightarrow> entity_ref list \<Rightarrow> string set \<times> runtime_store \<Rightarrow> (string set \<times> runtime_store) result" where
  "queue_for_refs settings_domain users force current [] state = Inr state"
| "queue_for_refs settings_domain users force current (application_ref # refs) (destinations, store) =
     (case application_with_bot store users application_ref of
        None \<Rightarrow> Inl (ValueError ''installation references an unknown application identity'')
      | Some (application, bot_user) \<Rightarrow>
          rbind (queue_application_target_snapshot settings_domain store application bot_user force current) (\<lambda>(destination, store1).
            queue_for_refs settings_domain users force current refs (destinations \<union> set_option destination, store1)))"

definition queue_application_target_snapshots_for_refs ::
  "string \<Rightarrow> runtime_store \<Rightarrow> User list \<Rightarrow> entity_ref set \<Rightarrow> bool \<Rightarrow> int \<Rightarrow> (string set \<times> runtime_store) result" where
  "queue_application_target_snapshots_for_refs settings_domain store users application_refs force current =
     queue_for_refs settings_domain users force current
       (map prod.swap (sorted_list_of_set (prod.swap ` application_refs))) ({}, store)"

definition queue_current_application_runtime ::
  "(ApplicationRuntimeSnapshot \<Rightarrow> ustr) \<Rightarrow> string \<Rightarrow> runtime_store \<Rightarrow> RuntimeApplication \<Rightarrow> (User \<times> bool) option \<Rightarrow> (string \<times> string) list
   \<Rightarrow> string set \<Rightarrow> string \<Rightarrow> (string set \<times> runtime_store) result" where
  "queue_current_application_runtime digest settings_domain store application bot_user rules dm_domains target_domain =
     rbind (queue_application_runtime_snapshots digest settings_domain store (ba_ref application) bot_user rules dm_domains None (Some {target_domain}))
       (\<lambda>(store1, destinations). Inr (destinations, store1))"

text \<open>Returns whether the announcement was news, the destinations that are woken after the commit, and the store.\<close>

definition apply_application_target_snapshot ::
  "(ApplicationRuntimeSnapshot \<Rightarrow> ustr) \<Rightarrow> string \<Rightarrow> runtime_store \<Rightarrow> string \<Rightarrow> User \<Rightarrow> ApplicationTargetSnapshot \<Rightarrow> (User \<times> bool) option
   \<Rightarrow> (string \<times> string) list \<Rightarrow> string set \<Rightarrow> (bool \<times> string set \<times> runtime_store) result" where
  "apply_application_target_snapshot digest settings_domain store origin actor raw bot_user rules dm_domains =
     rbind (target_snapshot_validate raw) (\<lambda>snapshot.
       if at_application_domain snapshot \<noteq> settings_domain \<or> at_target_domain snapshot \<noteq> origin \<or>
         at_bot_user_id snapshot \<noteq> u_id actor \<or> at_bot_user_domain snapshot \<noteq> u_origin_domain actor
       then Inl (ValueError ''application target snapshot authority is invalid'')
       else case find (\<lambda>a. ba_ref a = (at_application_id snapshot, settings_domain) \<and>
              (ba_bot_user_id a, ba_bot_user_domain a) = u_ref actor) (rs_applications store) of
         None \<Rightarrow> Inl (ValueError ''application target snapshot references an unknown local application'')
       | Some application \<Rightarrow>
           let incoming = (at_generation snapshot, at_guild_installations snapshot, at_user_installations snapshot);
               accept = (\<lambda>t. t\<lparr>bt_generation := at_generation snapshot, bt_guild_installations := at_guild_installations snapshot,
                                bt_user_installations := at_user_installations snapshot\<rparr>);
               reply = (\<lambda>row. rbind (queue_current_application_runtime digest settings_domain
                   (store\<lparr>rs_targets := put_row bt_key row (rs_targets store)\<rparr>) application bot_user rules dm_domains origin)
                 (\<lambda>(destinations, store1). Inr (True, destinations, store1)))
           in case find_target store (ba_ref application) origin of
                None \<Rightarrow> reply (accept (fresh_target (at_generation snapshot) (ba_ref application) origin))
              | Some t \<Rightarrow>
                  if at_generation snapshot < bt_generation t then Inr (False, {}, store)
                  else if at_generation snapshot = bt_generation t
                  then if incoming \<noteq> (bt_generation t, bt_guild_installations t, bt_user_installations t)
                       then Inl (ValueError ''application target generation conflicts with stored state'')
                       else Inr (False, {}, store)
                  else reply (accept t))"

section \<open>Facts\<close>

text \<open>A home publishes to one target whose row it has.\<close>

lemma queue_one_target:
  assumes "find (\<lambda>a. ba_ref a = ref) (rs_applications store) = Some b" "snd ref = home"
    and "u_account_type user = ''bot''" "u_ref user = (ba_bot_user_id b, ba_bot_user_domain b)"
    and "find_target store ref td = Some t" "length (filter (\<lambda>w. bw_application w = ref) (rs_workers store)) \<le> 100"
  shows "queue_application_runtime_snapshots digest home store ref (Some (user, True)) rules dm None (Some {td}) =
     Inr (publish_target digest home b user (filter (\<lambda>w. bw_application w = ref) (rs_workers store)) (target_rule_effects rules) td (store, {}))"
proof -
  have t: "t \<in> set (rs_targets store)" "bt_key t = (ref, td)"
    using assms(5) by (auto simp: find_target_def dest: find_SomeD)
  then have ledger: "(bt_target_domain ` set (filter (\<lambda>t. (bt_application_id t, bt_application_domain t) = ref) (rs_targets store)) \<union> dm \<union> {}) \<inter> {td} = {td}"
    by force
  show ?thesis
    unfolding queue_application_runtime_snapshots_def assms(1) option.case prod.case Let_def ledger
    using assms(2-4,6) by simp
qed

lemma publish_destinations:
  "td \<noteq> home \<Longrightarrow> snd (publish_target digest home b user ws rules td (store, ds)) = insert td ds"
  by (simp add: publish_target_def Let_def)

lemma find_conj: "find p rows = Some r \<Longrightarrow> q r \<Longrightarrow> find (\<lambda>x. p x \<and> q x) rows = Some r"
  by (induction rows) (auto split: if_splits)

text \<open>The home's side of the handshake.\<close>

lemma home_replies:
  fixes store payload b origin user ref
  defines "row \<equiv> (case find_target store ref origin of
      None \<Rightarrow> fresh_target (at_generation payload) ref origin | Some t \<Rightarrow> t)
      \<lparr>bt_generation := at_generation payload, bt_guild_installations := at_guild_installations payload, bt_user_installations := at_user_installations payload\<rparr>"
  assumes "target_snapshot_validate payload = Inr payload" "(at_application_id payload, at_application_domain payload) = ref"
    and "at_target_domain payload = origin" "(at_bot_user_id payload, at_bot_user_domain payload) = u_ref user"
    and "find (\<lambda>a. ba_ref a = ref) (rs_applications store) = Some b" "u_ref user = (ba_bot_user_id b, ba_bot_user_domain b)"
    and "u_account_type user = ''bot''" "length (filter (\<lambda>w. bw_application w = ref) (rs_workers store)) \<le> 100" "origin \<noteq> snd ref"
    and "\<And>t. find_target store ref origin = Some t \<Longrightarrow> bt_generation t < at_generation payload"
  shows "apply_application_target_snapshot digest (snd ref) store origin user payload (Some (user, True)) rules dm =
     Inr (True, {origin}, fst (publish_target digest (snd ref) b user (filter (\<lambda>w. bw_application w = ref) (rs_workers store))
       (target_rule_effects rules) origin (store\<lparr>rs_targets := put_row bt_key row (rs_targets store)\<rparr>, {})))"
proof -
  have b: "ba_ref b = ref" using assms(6) by (auto dest: find_SomeD)
  have look: "find (\<lambda>a. ba_ref a = (at_application_id payload, snd ref) \<and> (ba_bot_user_id a, ba_bot_user_domain a) = u_ref user) (rs_applications store) = Some b"
  proof -
    have r: "(at_application_id payload, snd ref) = ref" using assms(3) by auto
    show ?thesis unfolding r by (rule find_conj [OF assms(6)]) (simp add: assms(7))
  qed
  have auth: "\<not> (at_application_domain payload \<noteq> snd ref \<or> at_target_domain payload \<noteq> origin \<or> at_bot_user_id payload \<noteq> u_id user \<or>
      at_bot_user_domain payload \<noteq> u_origin_domain user)"
    using assms(3-5) by auto
  define store1 where "store1 = store\<lparr>rs_targets := put_row bt_key row (rs_targets store)\<rparr>"
  have key: "bt_key row = (ref, origin)"
    using find_targetD [of store ref origin] by (cases "find_target store ref origin") (simp_all add: row_def fresh_target_def)
  have row1: "find_target store1 ref origin = Some row"
    by (subst find_target_put [of _ row store]) (simp_all add: store1_def key)
  have queue: "queue_application_runtime_snapshots digest (snd ref) store1 ref (Some (user, True)) rules dm None (Some {origin}) =
     Inr (publish_target digest (snd ref) b user (filter (\<lambda>w. bw_application w = ref) (rs_workers store)) (target_rule_effects rules) origin (store1, {}))"
    using queue_one_target [of ref store1 b "snd ref" user origin row digest rules dm] assms(6-9) row1 by (simp add: store1_def)
  have reply: "rbind (queue_current_application_runtime digest (snd ref) store1 b (Some (user, True)) rules dm origin)
      (\<lambda>(destinations, store1). Inr (True, destinations, store1)) =
     Inr (True, {origin}, fst (publish_target digest (snd ref) b user (filter (\<lambda>w. bw_application w = ref) (rs_workers store))
       (target_rule_effects rules) origin (store1, {})))"
    unfolding queue_current_application_runtime_def b queue rbind_def sum.case
    using publish_destinations [OF assms(10), of digest b user _ _ store1 "{}"] by (simp add: case_prod_beta)
  show ?thesis
  proof (cases "find_target store ref origin")
    case None
    then show ?thesis
      unfolding apply_application_target_snapshot_def assms(2) rbind_def sum.case if_not_P [OF auth] look option.case Let_def b None
      using reply by (simp add: rbind_def store1_def row_def None)
  next
    case (Some t)
    have "\<not> at_generation payload < bt_generation t" "at_generation payload \<noteq> bt_generation t" using assms(11) [OF Some] by auto
    then show ?thesis
      unfolding apply_application_target_snapshot_def assms(2) rbind_def sum.case if_not_P [OF auth] look option.case Let_def b Some
      using reply by (simp add: rbind_def store1_def row_def Some)
  qed
qed

text \<open>The answer is one snapshot of the current state of the application.\<close>

definition current_snapshot :: "entity_ref \<Rightarrow> string \<Rightarrow> User \<Rightarrow> RuntimeApplication \<Rightarrow> (string \<times> string) list \<Rightarrow> ApplicationRuntimeSnapshot \<Rightarrow> bool" where
  "current_snapshot ref td user b rules s \<longleftrightarrow>
     (sn_application_id s, sn_application_domain s) = ref \<and> (sn_bot_user_id s, sn_bot_user_domain s) = u_ref user \<and> sn_target_domain s = td \<and>
     sn_status s = ba_status b \<and> sn_target_allowed s = target_policy_allows (ra_target_policy b) (target_rule_effects rules) td \<and>
     sn_manifest_generation s = ba_manifest_generation b \<and> sn_revocation_generation s = ba_revocation_generation b"

lemma home_replies_snapshot:
  assumes "target_snapshot_validate payload = Inr payload" "(at_application_id payload, at_application_domain payload) = ref"
    and "at_target_domain payload = td" "(at_bot_user_id payload, at_bot_user_domain payload) = u_ref user"
    and "find (\<lambda>a. ba_ref a = ref) (rs_applications store) = Some b" "u_ref user = (ba_bot_user_id b, ba_bot_user_domain b)"
    and "u_account_type user = ''bot''" "length (filter (\<lambda>w. bw_application w = ref) (rs_workers store)) \<le> 100" "td \<noteq> snd ref"
    and "\<And>t. find_target store ref td = Some t \<Longrightarrow> bt_generation t < at_generation payload"
  obtains home1 s where "apply_application_target_snapshot digest (snd ref) store td user payload (Some (user, True)) rules dm = Inr (True, {td}, home1)"
    "outbox_entries ref td home1 = [(td, s)]" "current_snapshot ref td user b rules s"
proof -
  have b: "ba_ref b = ref" using assms(5) by (auto dest: find_SomeD)
  obtain home0 where reply: "apply_application_target_snapshot digest (snd ref) store td user payload (Some (user, True)) rules dm =
     Inr (True, {td}, fst (publish_target digest (snd ref) b user (filter (\<lambda>w. bw_application w = ref) (rs_workers store))
       (target_rule_effects rules) td (home0, {})))"
    using home_replies [OF assms] by blast
  show thesis
    using that [OF reply] publish_target_effect [OF assms(9), where application = b and digest = digest and bot_user = user and
        workers = "filter (\<lambda>w. bw_application w = ref) (rs_workers store)" and rules = "target_rule_effects rules" and ds = "{}" and store = home0]
    unfolding b current_snapshot_def by blast
qed

text \<open>The target's side: a current snapshot of an active application makes the target ready.\<close>

lemma target_ready:
  assumes "known_application ref actor store = Some a" "find_target store ref d = Some t" "addressed d ref actor s"
    and "covered (bt_generations t) (runtime_snapshot_order s)" "\<not> covered (runtime_snapshot_order s) (bt_generations t)"
    and "ba_manifest_generation a \<le> sn_manifest_generation s" "ba_revocation_generation a \<le> sn_revocation_generation s"
    and "sn_status s = ''active''" "sn_target_allowed s"
  obtains fence1 store1 a' where "apply_application_runtime_control digest d store (snd ref) actor s boot current = Inr (True, fence1, store1)"
    "known_application ref actor store1 = Some a'" "ba_status a' = ''active''" "application_runtime_projection_ready a' (find_target store1 ref d) d"
proof -
  have aP: "ba_ref a = ref \<and> (ba_bot_user_id a, ba_bot_user_domain a) = u_ref actor"
    using assms(1) by (auto simp: known_application_def dest: find_SomeD)
  have ok: "bot_identity_ok a actor"
    using aP assms(3) snapshot_authority [of s s] by (auto simp: bot_identity_ok_def addressed_def)
  define ar where "ar = (snd (snd (bt_generations t)) < snd (snd (runtime_snapshot_order s)))"
  obtain effects store1 where out: "apply_current_snapshot digest d store a actor t s ar current = Inr (effects, store1)"
    using current_succeeds [OF ok] .
  have stale: "runtime_snapshot_is_stale (runtime_snapshot_order s) (bt_generations t) = Inr False"
    using assms(4,5) by (simp add: stale_Inr)
  have applied: "apply_application_runtime_snapshot digest d store (snd ref) actor s boot current = Inr (effects, store1)"
    unfolding apply_tracked [OF assms(1-3)] stale rbind_def sum.case Let_def ar_def [symmetric]
    using assms(6,7) out by (simp add: runtime_snapshot_order_def)
  have valid: "snapshot_validate s = Inr s" using assms(3) by (simp add: addressed_def)
  have changed: "re_changed effects" using out by (rule current_result) simp
  obtain fence1 where control: "apply_application_runtime_control digest d store (snd ref) actor s boot current = Inr (True, fence1, store1)"
    unfolding apply_application_runtime_control_def valid rbind_def sum.case applied prod.case Let_def using changed that
    by (cases "re_access_revoked_targets effects \<noteq> {}"; cases "re_invalidated_worker_ids effects \<noteq> {}") (simp_all add: assms(8,9))
  define a' where "a' = a\<lparr>ba_status := sn_status s,
      ba_revocation_generation := max (ba_revocation_generation a) (fst (snd (runtime_snapshot_order s)))\<rparr>"
  have key: "bt_key t = (ref, d)" by (rule find_targetD [OF assms(2)])
  have known: "known_application ref actor store1 = Some a'"
    unfolding known_application_def current_row(2) [OF out key] a'_def [symmetric]
    by (rule find_put_row_unique) (use aP in \<open>auto simp: a'_def\<close>)
  obtain u where u: "find_target store1 ref d = Some u" "runtime_view u = (runtime_snapshot_order s, Some (digest s), sn_status s, sn_target_allowed s)"
    using current_row(1) [OF out key] by blast
  have "application_runtime_projection_ready a' (find_target store1 ref d) d"
    using u assms(6-9) unfolding u(1)
    by (auto simp: application_runtime_projection_ready_def target_runtime_projection_ready_def runtime_view_def a'_def runtime_snapshot_order_def bt_generations_def)
  with control known show thesis using assms(8) by (intro that) (auto simp: a'_def)
qed

lemma announced_queued:
  assumes "queue_application_target_snapshot d store a actor True current = Inr (dest, store1)" "ba_origin_domain a \<noteq> d"
  shows "(ba_origin_domain a, application_target_payload a actor (announced_row d store a True current)) \<in> set (rs_target_outbox store1)"
  using assms by (auto simp: queue_application_target_snapshot_def Let_def split: if_splits)


section \<open>Sample\<close>

definition sample_runtime_target :: runtime_store where
  "sample_runtime_target = sample_store\<lparr>rs_targets := [fresh_target 1 (5, ''a.example'') ''b.example'']\<rparr>"

definition sample_home :: runtime_store where
  "sample_home = sample_store\<lparr>rs_targets := []\<rparr>"

definition sample_payload :: ApplicationTargetSnapshot where
  "sample_payload = application_target_payload (sample_application ''active'' 1) sample_actor
     (announced_row ''b.example'' sample_runtime_target (sample_application ''active'' 1) True 0)"

lemma sample_known_target: "known_application (5, ''a.example'') sample_actor sample_runtime_target = Some (sample_application ''active'' 1)"
  using sample_known by (simp add: known_application_def sample_runtime_target_def)

lemma sample_announced: "\<exists>dest store1. queue_application_target_snapshot ''b.example'' sample_runtime_target (sample_application ''active'' 1) sample_actor True 0 =
    Inr (dest, store1)"
  by (rule queue_target_succeeds) (simp_all add: sample_actor_def sample_application_def)

lemma sample_payload_fields: "sample_payload = \<lparr>at_application_id = 5, at_application_domain = ''a.example'', at_bot_user_id = 7,
    at_bot_user_domain = ''a.example'', at_target_domain = ''b.example'', at_generation = 2, at_guild_installations = 0, at_user_installations = 0\<rparr>"
  by (simp add: sample_payload_def application_target_payload_def announced_row_def sample_runtime_target_def sample_store_def sample_application_def
      sample_actor_def find_target_def fresh_target_def application_target_counts_def installation_has_membership_def Let_def)

lemma sample_payload_valid: "target_snapshot_validate sample_payload = Inr sample_payload"
  by (simp add: sample_payload_fields target_snapshot_validate_def target_snapshot_fields_ok_def sample_domain positive_range_def nonnegative_range_def MAX_SNOWFLAKE_def)

definition sample_reply :: ApplicationRuntimeSnapshot where
  "sample_reply = (sample_snapshot ''active'' 1 0)\<lparr>sn_workers := [\<lparr>rw_id = 3, rw_generation = 1, rw_revoked = False, rw_target_allowed = True\<rparr>]\<rparr>"

lemma sample_home_facts:
  "find (\<lambda>x. ba_ref x = (5, ''a.example'')) (rs_applications sample_home) = Some (sample_application ''active'' 1)"
  "(ba_bot_user_id (sample_application ''active'' 1), ba_bot_user_domain (sample_application ''active'' 1)) = u_ref sample_actor"
  "length (filter (\<lambda>w. bw_application w = (5, ''a.example'')) (rs_workers sample_home)) \<le> 100"
  "\<forall>t. find_target sample_home (5, ''a.example'') ''b.example'' = Some t \<longrightarrow> bt_generation t < at_generation sample_payload"
  "ba_status (sample_application ''active'' 1) = ''active''" "u_account_type sample_actor = ''bot''"
  "target_policy_allows (ra_target_policy (sample_application ''active'' 1)) (target_rule_effects []) ''b.example''"
  by (simp_all add: sample_home_def sample_store_def sample_application_def sample_actor_def find_target_def target_policy_allows_def target_rule_effects_def)

lemma sample_replied: "apply_application_target_snapshot (\<lambda>_. []) ''a.example'' sample_home ''b.example'' sample_actor sample_payload (Some (sample_actor, True)) [] {} =
      Inr (True, {''b.example''}, home1) \<Longrightarrow> outbox_entries (5, ''a.example'') ''b.example'' home1 = [(''b.example'', sample_reply)]"
  by (subst (asm) home_replies [where ref = "(5, ''a.example'')" and b = "sample_application ''active'' 1" and origin = "''b.example''" and user = sample_actor,
        simplified snd_conv])
     (auto simp: sample_home_facts [simplified] sample_payload_valid [unfolded sample_payload_fields] sample_payload_fields sample_home_def sample_store_def sample_application_def sample_actor_def
        find_target_def fresh_target_def put_row_def target_row_def publish_target_def outbox_entries_def runtime_snapshot_def target_policy_allows_def
        target_rule_effects_def worker_target_allowed_def sample_reply_def sample_snapshot_def accept_generations_def Let_def)

lemma sample_reply_valid: "snapshot_validate sample_reply = Inr sample_reply"
  by (auto simp: snapshot_validate_def snapshot_fields_ok_def coherent_authority_def sample_reply_def sample_snapshot_def sample_domain positive_range_def MAX_SNOWFLAKE_def)

section \<open>Properties\<close>

text \<open>
  C30: The recovery handshake completes. Let a target know a foreign application and announce it again, as the recovery does for a target
  without a signed state, and let the announcement be a valid payload. Then it is queued for the application's home. Let the home have this application with
  the same bot account, no newer or equal announcement of this target, and at most a hundred workers of the application. Then the home takes
  the announcement as news, answers this target only, and its outbox holds exactly one snapshot for it, of the state the application has at home. When the application is
  active at home and its policy allows the target, and the snapshot is a valid payload that is newer than the generations the target holds and the home's
  manifest and revocation generations are not behind the target's, then the target accepts the snapshot and is ready to run the application.
\<close>

theorem discovery_handshake:
  assumes "known_application ref actor target = Some a" "queue_application_target_snapshot td target a actor True current = Inr (dest, target1)"
    and "p = application_target_payload a actor (announced_row td target a True current)" "target_snapshot_validate p = Inr p"
    and "snd ref \<noteq> td" "find (\<lambda>x. ba_ref x = ref) (rs_applications home) = Some b" "(ba_bot_user_id b, ba_bot_user_domain b) = u_ref actor"
    and "u_ref user = u_ref actor" "u_account_type user = ''bot''" "length (filter (\<lambda>w. bw_application w = ref) (rs_workers home)) \<le> 100"
    and "\<forall>t. find_target home ref td = Some t \<longrightarrow> bt_generation t < at_generation p"
  shows "(snd ref, p) \<in> set (rs_target_outbox target1) \<and>
     (\<exists>home1 s. apply_application_target_snapshot digest (snd ref) home td user p (Some (user, True)) rules dm = Inr (True, {td}, home1) \<and>
        outbox_entries ref td home1 = [(td, s)] \<and> current_snapshot ref td user b rules s \<and>
        (ba_status b = ''active'' \<and> target_policy_allows (ra_target_policy b) (target_rule_effects rules) td \<and>
         snapshot_validate s = Inr s \<and> covered (target_generations td ref target1) (runtime_snapshot_order s) \<and>
         target_generations td ref target1 \<noteq> runtime_snapshot_order s \<and>
         ba_manifest_generation a \<le> ba_manifest_generation b \<and> ba_revocation_generation a \<le> ba_revocation_generation b \<longrightarrow>
           (\<exists>fence1 target2 a'. apply_application_runtime_control digest td target1 (snd ref) actor s False later = Inr (True, fence1, target2) \<and>
              known_application ref actor target2 = Some a' \<and> ba_status a' = ''active'' \<and>
              application_runtime_projection_ready a' (find_target target2 ref td) td)))"
proof -
  have aP: "ba_ref a = ref \<and> (ba_bot_user_id a, ba_bot_user_domain a) = u_ref actor"
    using assms(1) by (auto simp: known_application_def dest: find_SomeD)
  have actor: "u_account_type actor = ''bot''" "u_disabled_at actor = None"
    using assms(2) by (auto simp: queue_application_target_snapshot_def split: if_splits)
  have row1: "find_target target1 ref td = Some (announced_row td target a True current)"
    using find_target_put [OF queue_target_Inr(1) [OF assms(2)], of ref td] announced_row_key [of td target a True current] aP by simp
  have pP: "(at_application_id p, at_application_domain p) = ref" "at_target_domain p = td" "(at_bot_user_id p, at_bot_user_domain p) = u_ref user"
    using announced_row_key [of td target a True current] aP assms(8) by (auto simp: assms(3) application_target_payload_def)
  obtain home1 s where reply: "apply_application_target_snapshot digest (snd ref) home td user p (Some (user, True)) rules dm = Inr (True, {td}, home1)"
    and s: "outbox_entries ref td home1 = [(td, s)]" "current_snapshot ref td user b rules s"
    by (rule home_replies_snapshot [OF assms(4) pP assms(6)]) (use assms(5,7-11) in auto)
  have "\<exists>fence1 target2 a'. apply_application_runtime_control digest td target1 (snd ref) actor s False later = Inr (True, fence1, target2) \<and>
      known_application ref actor target2 = Some a' \<and> ba_status a' = ''active'' \<and> application_runtime_projection_ready a' (find_target target2 ref td) td"
    if fresh: "snapshot_validate s = Inr s" "covered (target_generations td ref target1) (runtime_snapshot_order s)"
      "target_generations td ref target1 \<noteq> runtime_snapshot_order s"
      and home: "ba_status b = ''active''" "target_policy_allows (ra_target_policy b) (target_rule_effects rules) td"
      "ba_manifest_generation a \<le> ba_manifest_generation b" "ba_revocation_generation a \<le> ba_revocation_generation b"
  proof -
    have ad: "addressed td ref actor s" using fresh(1) s(2) actor assms(8) by (simp add: addressed_def current_snapshot_def)
    have known: "known_application ref actor target1 = Some a"
      using assms(1) queue_target_Inr(2) [OF assms(2)] by (simp add: known_application_def)
    have newer: "covered (bt_generations (announced_row td target a True current)) (runtime_snapshot_order s)"
      "\<not> covered (runtime_snapshot_order s) (bt_generations (announced_row td target a True current))"
      using fresh(2,3) covered_antisym [of "runtime_snapshot_order s" "bt_generations (announced_row td target a True current)"]
      by (auto simp: target_generations_def row1)
    have "ba_manifest_generation a \<le> sn_manifest_generation s" "ba_revocation_generation a \<le> sn_revocation_generation s"
      "sn_status s = ''active''" "sn_target_allowed s" using s(2) home by (auto simp: current_snapshot_def)
    from target_ready [OF known row1 ad newer this] show ?thesis by metis
  qed
  moreover have "(snd ref, p) \<in> set (rs_target_outbox target1)"
    using announced_queued [OF assms(2)] assms(5) aP unfolding assms(3) by auto
  ultimately show ?thesis using reply s by blast
qed

theorem discovery_handshake_witness:
  "\<exists>target1 fence1 target2 a'.
     apply_application_runtime_control (\<lambda>_. []) ''b.example'' target1 ''a.example'' sample_actor sample_reply False 0 = Inr (True, fence1, target2) \<and>
     known_application (5, ''a.example'') sample_actor target2 = Some a' \<and>
     application_runtime_projection_ready a' (find_target target2 (5, ''a.example'') ''b.example'') ''b.example''"
proof -
  obtain dest target1 where queued: "queue_application_target_snapshot ''b.example'' sample_runtime_target (sample_application ''active'' 1) sample_actor True 0 =
      Inr (dest, target1)"
    using sample_announced by blast
  obtain home1 s where out: "apply_application_target_snapshot (\<lambda>_. []) ''a.example'' sample_home ''b.example'' sample_actor sample_payload (Some (sample_actor, True)) [] {} =
      Inr (True, {''b.example''}, home1)" "outbox_entries (5, ''a.example'') ''b.example'' home1 = [(''b.example'', s)]"
    and ready: "snapshot_validate s = Inr s \<and> covered (target_generations ''b.example'' (5, ''a.example'') target1) (runtime_snapshot_order s) \<and>
         target_generations ''b.example'' (5, ''a.example'') target1 \<noteq> runtime_snapshot_order s \<longrightarrow>
           (\<exists>fence1 target2 a'. apply_application_runtime_control (\<lambda>_. []) ''b.example'' target1 ''a.example'' sample_actor s False 0 = Inr (True, fence1, target2) \<and>
              known_application (5, ''a.example'') sample_actor target2 = Some a' \<and> ba_status a' = ''active'' \<and>
              application_runtime_projection_ready a' (find_target target2 (5, ''a.example'') ''b.example'') ''b.example'')"
    using discovery_handshake [OF sample_known_target queued sample_payload_def sample_payload_valid _ sample_home_facts(1,2) refl sample_home_facts(6,3,4),
      of "\<lambda>_. []" "[]" "{}" 0] sample_home_facts(5,7) unfolding snd_conv by auto
  have s: "s = sample_reply" using sample_replied [OF out(1)] out(2) by simp
  have "find_target target1 (5, ''a.example'') ''b.example'' = Some (announced_row ''b.example'' sample_runtime_target (sample_application ''active'' 1) True 0)"
    using find_target_put [OF queue_target_Inr(1) [OF queued]] announced_row_key [of "''b.example''" sample_runtime_target "sample_application ''active'' 1" True 0]
    by (simp add: sample_application_def)
  then have "target_generations ''b.example'' (5, ''a.example'') target1 = (0, 0, 0)"
    by (simp add: target_generations_def bt_generations_def announced_row_def sample_runtime_target_def find_target_def fresh_target_def sample_application_def Let_def)
  moreover have "runtime_snapshot_order sample_reply = (1, 1, 0)" by (simp add: sample_reply_def sample_snapshot_def runtime_snapshot_order_def)
  ultimately show ?thesis using ready sample_reply_valid unfolding s by auto
qed

end
