(* ===== verification/Automod.thy ===== *)
theory Automod
  imports Entity_Refs
begin

text \<open>
  Automatic moderation: the validators of rules (\<open>automod/schemas.py\<close>) and the matcher of their triggers
  (\<open>automod/engine.py\<close>). A keyword is compiled to a regular expression over whitespace boundaries; its backtracking search is
  written out. Arguments stand for the Unicode tables of Python, for RE2, and for the operator's table of preset words.
\<close>

section \<open>Text tables\<close>

text \<open>
  \<open>tt_same c d\<close>: the pattern character \<open>c\<close> matches the text character \<open>d\<close> when case is ignored. \<open>tt_re2\<close> is the text RE2 finds.
\<close>

record text_tables =
  tt_nfkc :: "ustr \<Rightarrow> ustr"
  tt_casefold :: "ustr \<Rightarrow> ustr"
  tt_same :: "nat \<Rightarrow> nat \<Rightarrow> bool"
  tt_word :: "nat \<Rightarrow> bool"
  tt_decimal :: "nat \<Rightarrow> bool"
  tt_re2_valid :: "ustr \<Rightarrow> bool"
  tt_re2 :: "ustr \<Rightarrow> ustr \<Rightarrow> ustr option"

definition MAX_EVALUATED_CHARACTERS :: nat where
  "MAX_EVALUATED_CHARACTERS = 4000"

definition normalize_content :: "text_tables \<Rightarrow> ustr \<Rightarrow> ustr" where
  "normalize_content T s = tt_casefold T (tt_nfkc T (take MAX_EVALUATED_CHARACTERS s))"

definition strip_stars :: "ustr \<Rightarrow> ustr" where
  "strip_stars s = rev (dropWhile (\<lambda>c. c = 42) (rev (dropWhile (\<lambda>c. c = 42) s)))"

section \<open>Keyword patterns\<close>

record keyword_pattern_rec =
  kp_leading :: bool
  kp_core :: ustr
  kp_trailing :: bool

definition keyword_pattern :: "text_tables \<Rightarrow> ustr \<Rightarrow> keyword_pattern_rec option" where
  "keyword_pattern T s =
     (let keyword = strip (normalize_content T s)
      in if keyword = [] \<or> strip_stars keyword = [] then None
         else
           let leading = (hd keyword = 42); trailing = (last keyword = 42);
               core = (if leading then tl keyword else keyword)
           in Some \<lparr>kp_leading = leading, kp_core = (if trailing then butlast core else core), kp_trailing = trailing\<rparr>)"

text \<open>The characters of \<open>\S*\<close> from a position, and the core at a position.\<close>

definition run_length :: "ustr \<Rightarrow> nat \<Rightarrow> nat" where
  "run_length txt i = length (takeWhile (\<lambda>c. \<not> is_space c) (drop i txt))"

definition core_at :: "text_tables \<Rightarrow> ustr \<Rightarrow> ustr \<Rightarrow> nat \<Rightarrow> bool" where
  "core_at T core txt i = list_all2 (tt_same T) core (take (length core) (drop i txt))"

text \<open>\<open>\S*\<close> or \<open>(?!\S)\<close> after the core, the end of the match.\<close>

definition tail_at :: "keyword_pattern_rec \<Rightarrow> ustr \<Rightarrow> nat \<Rightarrow> nat option" where
  "tail_at p txt j =
     (if kp_trailing p then Some (j + run_length txt j)
      else if j < length txt \<and> \<not> is_space (txt ! j) then None else Some j)"

definition core_tail :: "text_tables \<Rightarrow> keyword_pattern_rec \<Rightarrow> ustr \<Rightarrow> nat \<Rightarrow> nat option" where
  "core_tail T p txt j = (if core_at T (kp_core p) txt j then tail_at p txt (j + length (kp_core p)) else None)"

text \<open>A greedy \<open>\S*\<close> gives characters back one at a time; \<open>(?<!\S)\<close> looks at the character before.\<close>

fun first_some :: "('a \<Rightarrow> 'b option) \<Rightarrow> 'a list \<Rightarrow> 'b option" where
  "first_some f [] = None"
| "first_some f (x # xs) = (case f x of None \<Rightarrow> first_some f xs | Some y \<Rightarrow> Some y)"

definition match_at :: "text_tables \<Rightarrow> keyword_pattern_rec \<Rightarrow> ustr \<Rightarrow> nat \<Rightarrow> nat option" where
  "match_at T p txt i =
     (if kp_leading p then first_some (\<lambda>n. core_tail T p txt (i + n)) (rev [0..<Suc (run_length txt i)])
      else if 0 < i \<and> \<not> is_space (txt ! (i - 1)) then None else core_tail T p txt i)"

definition search_from :: "text_tables \<Rightarrow> keyword_pattern_rec \<Rightarrow> ustr \<Rightarrow> nat \<Rightarrow> (nat \<times> nat) option" where
  "search_from T p txt q = first_some (\<lambda>i. map_option (Pair i) (match_at T p txt i)) [q..<Suc (length txt)]"

text \<open>The matches of \<open>finditer\<close>; an empty match, which a keyword does not have, would advance by one.\<close>

function finditer :: "text_tables \<Rightarrow> keyword_pattern_rec \<Rightarrow> ustr \<Rightarrow> nat \<Rightarrow> (nat \<times> nat) list" where
  "finditer T p txt q =
     (if length txt < q then []
      else case search_from T p txt q of
             None \<Rightarrow> []
           | Some (i, e) \<Rightarrow> (i, e) # finditer T p txt (if q < e then e else Suc q))"
  by pat_completeness auto
termination by (relation "measure (\<lambda>(T, p, txt, q). Suc (length txt) - q)") auto

definition blank_out :: "nat \<times> nat \<Rightarrow> ustr \<Rightarrow> ustr" where
  "blank_out se masked = take (fst se) masked @ replicate (snd se - fst se) 32 @ drop (snd se) masked"

definition mask_allowed :: "text_tables \<Rightarrow> ustr \<Rightarrow> ustr list \<Rightarrow> ustr" where
  "mask_allowed T content allow_list =
     fold (\<lambda>item masked. case keyword_pattern T item of
              None \<Rightarrow> masked | Some p \<Rightarrow> fold blank_out (finditer T p content 0) masked) allow_list content"

definition keyword_matched_text :: "text_tables \<Rightarrow> ustr \<Rightarrow> ustr \<Rightarrow> ustr option" where
  "keyword_matched_text T content keyword =
     (case keyword_pattern T keyword of
        None \<Rightarrow> None
      | Some p \<Rightarrow> map_option (\<lambda>(i, e). take (e - i) (drop i content)) (search_from T p content 0))"

definition safe_regex_matched_text :: "text_tables \<Rightarrow> ustr \<Rightarrow> ustr \<Rightarrow> ustr option result" where
  "safe_regex_matched_text T pattern content =
     (if tt_re2_valid T pattern then Inr (tt_re2 T pattern content) else Inl (ValueError ''unsafe regular expression''))"

section \<open>Triggers\<close>

record TriggerMetadata =
  md_keyword_filter :: "ustr list"
  md_regex_patterns :: "ustr list"
  md_presets :: "string list"
  md_allow_list :: "ustr list"
  md_mention_total_limit :: "int option"
  md_mention_raid_protection_enabled :: bool

record MatchResult =
  mt_matched :: bool
  mt_keyword :: "ustr option"
  mt_kind :: "string option"
  mt_matched_content :: "ustr option"

definition no_match :: MatchResult where
  "no_match = \<lparr>mt_matched = False, mt_keyword = None, mt_kind = None, mt_matched_content = None\<rparr>"

text \<open>\<open>found or source_content\<close>: an empty find falls back too.\<close>

definition or_source :: "ustr option \<Rightarrow> ustr \<Rightarrow> ustr" where
  "or_source found source_content = (case found of None \<Rightarrow> source_content | Some s \<Rightarrow> if s = [] then source_content else s)"

fun first_keyword :: "text_tables \<Rightarrow> ustr \<Rightarrow> ustr \<Rightarrow> ustr \<Rightarrow> string \<Rightarrow> ustr list \<Rightarrow> MatchResult option" where
  "first_keyword T candidate_content candidate_source source_content kind [] = None"
| "first_keyword T candidate_content candidate_source source_content kind (keyword # keywords) =
     (if keyword_matched_text T candidate_content keyword \<noteq> None
      then Some \<lparr>mt_matched = True, mt_keyword = Some keyword, mt_kind = Some kind,
                 mt_matched_content = Some (or_source (keyword_matched_text T candidate_source keyword) source_content)\<rparr>
      else first_keyword T candidate_content candidate_source source_content kind keywords)"

fun first_regex :: "text_tables \<Rightarrow> ustr \<Rightarrow> ustr \<Rightarrow> ustr \<Rightarrow> ustr list \<Rightarrow> MatchResult result" where
  "first_regex T candidate_content candidate_source source_content [] = Inr no_match"
| "first_regex T candidate_content candidate_source source_content (pattern # patterns) =
     rbind (safe_regex_matched_text T pattern candidate_content) (\<lambda>found.
       if found \<noteq> None
       then rbind (safe_regex_matched_text T pattern candidate_source) (\<lambda>found_source.
         Inr \<lparr>mt_matched = True, mt_keyword = Some pattern, mt_kind = Some ''regex'', mt_matched_content = Some (or_source found_source source_content)\<rparr>)
       else first_regex T candidate_content candidate_source source_content patterns)"

fun first_preset :: "text_tables \<Rightarrow> (string \<Rightarrow> ustr list) \<Rightarrow> ustr \<Rightarrow> ustr \<Rightarrow> ustr \<Rightarrow> string list \<Rightarrow> MatchResult" where
  "first_preset T preset_patterns candidate_content candidate_source source_content [] = no_match"
| "first_preset T preset_patterns candidate_content candidate_source source_content (preset # presets) =
     (case first_keyword T candidate_content candidate_source source_content (''preset:'' @ preset) (preset_patterns preset) of
        Some r \<Rightarrow> r
      | None \<Rightarrow> first_preset T preset_patterns candidate_content candidate_source source_content presets)"

text \<open>Spam: \<open>findall\<close> of words and links, and fifteen equal characters other than a newline. Links do not overlap.\<close>

fun word_runs :: "(nat \<Rightarrow> bool) \<Rightarrow> ustr \<Rightarrow> ustr \<Rightarrow> ustr list" where
  "word_runs w current [] = (if current = [] then [] else [rev current])"
| "word_runs w current (c # cs) =
     (if w c then word_runs w (c # current) cs
      else if current = [] then word_runs w [] cs else rev current # word_runs w [] cs)"

fun link_count :: "ustr \<Rightarrow> nat" where
  "link_count [] = 0"
| "link_count (c # cs) =
     (if take 7 (c # cs) = ucs ''http://'' \<or> take 8 (c # cs) = ucs ''https://'' then 1 else 0) + link_count cs"

fun excessive_repetition :: "ustr \<Rightarrow> bool" where
  "excessive_repetition [] = False"
| "excessive_repetition (c # cs) = (c \<noteq> 10 \<and> take 15 (c # cs) = replicate 15 c \<or> excessive_repetition cs)"

definition spam_matched :: "text_tables \<Rightarrow> ustr \<Rightarrow> bool" where
  "spam_matched T normalized =
     (let ws = word_runs (tt_word T) [] normalized; repeated = foldr (max \<circ> count_list ws) ws 0
      in 8 \<le> repeated \<or> 6 \<le> link_count normalized \<or> excessive_repetition normalized)"

definition evaluate_trigger ::
  "text_tables \<Rightarrow> (string \<Rightarrow> ustr list) \<Rightarrow> string \<Rightarrow> TriggerMetadata \<Rightarrow> ustr \<Rightarrow> int \<Rightarrow> MatchResult result" where
  "evaluate_trigger T preset_patterns trigger_type metadata content mention_count =
     (let source_content = take MAX_EVALUATED_CHARACTERS content;
          normalized = normalize_content T source_content;
          candidate_content = mask_allowed T normalized (md_allow_list metadata);
          candidate_source = mask_allowed T source_content (md_allow_list metadata)
      in if trigger_type = ''keyword'' \<or> trigger_type = ''member_profile''
         then (case first_keyword T candidate_content candidate_source source_content ''keyword'' (md_keyword_filter metadata) of
                 Some r \<Rightarrow> Inr r
               | None \<Rightarrow> first_regex T candidate_content candidate_source source_content (md_regex_patterns metadata))
         else if trigger_type = ''keyword_preset''
         then Inr (first_preset T preset_patterns candidate_content candidate_source source_content (md_presets metadata))
         else if trigger_type = ''mention_spam''
         then let limit = (case md_mention_total_limit metadata of None \<Rightarrow> 50 | Some l \<Rightarrow> l)
              in Inr (no_match\<lparr>mt_matched := (limit < mention_count), mt_keyword := Some (ucs (string_of_int limit)), mt_kind := Some ''mention_spam''\<rparr>)
         else if trigger_type = ''spam''
         then Inr (no_match\<lparr>mt_matched := spam_matched T normalized, mt_kind := (if spam_matched T normalized then Some ''spam'' else None)\<rparr>)
         else Inr no_match)"

section \<open>Rules\<close>

fun check_keywords :: "ustr list \<Rightarrow> error option" where
  "check_keywords [] = None"
| "check_keywords (item # items) =
     (if strip item = [] then Some (ValueError ''entries must not be blank'')
      else if strip_stars (strip item) = [] then Some (ValueError ''entries must contain a character other than a wildcard'')
      else if 60 < length item then Some (ValueError ''entries cannot exceed 60 characters'')
      else check_keywords items)"

definition validate_keywords :: "ustr list \<Rightarrow> error option" where
  "validate_keywords items =
     (if \<not> distinct items then Some (ValueError ''entries must be unique'') else check_keywords items)"

text \<open>A counted quantifier such as \<open>{2,3}\<close> followed by another one, at the start of a string.\<close>

definition nested_quantifier :: "text_tables \<Rightarrow> ustr \<Rightarrow> bool" where
  "nested_quantifier T s =
     (let digits = takeWhile (tt_decimal T) (tl s); r = dropWhile (tt_decimal T) (tl s); r2 = dropWhile (tt_decimal T) (tl r)
      in s \<noteq> [] \<and> hd s = 123 \<and> digits \<noteq> [] \<and> r \<noteq> [] \<and> hd r = 44 \<and> r2 \<noteq> [] \<and> hd r2 = 125 \<and>
         (case dropWhile is_space (tl r2) of [] \<Rightarrow> False | c # _ \<Rightarrow> c \<in> set (ucs ''+*?'')))"

fun SAFE_REGEX_FORBIDDEN :: "text_tables \<Rightarrow> ustr \<Rightarrow> bool" where
  "SAFE_REGEX_FORBIDDEN T [] = False"
| "SAFE_REGEX_FORBIDDEN T (c # cs) \<longleftrightarrow>
     (c = 92 \<and> cs \<noteq> [] \<and> 49 \<le> hd cs \<and> hd cs \<le> 57) \<or>
     take 3 (c # cs) \<in> set (map ucs [''(?='', ''(?!'', ''(?>'', ''(?P'']) \<or>
     take 4 (c # cs) \<in> set (map ucs [''(?<='', ''(?<!'']) \<or>
     nested_quantifier T (c # cs) \<or> SAFE_REGEX_FORBIDDEN T cs"

fun check_regexes :: "text_tables \<Rightarrow> ustr list \<Rightarrow> error option" where
  "check_regexes T [] = None"
| "check_regexes T (pattern # patterns) =
     (if pattern = [] \<or> 260 < length pattern then Some (ValueError ''regex patterns must contain 1 to 260 characters'')
      else if SAFE_REGEX_FORBIDDEN T pattern
      then Some (ValueError ''regex patterns cannot use backreferences, lookarounds, atomic groups, named groups, or nested counted quantifiers'')
      else if \<not> tt_re2_valid T pattern
      then Some (ValueError ''regex pattern must use RE2-safe syntax without backreferences or lookarounds'')
      else check_regexes T patterns)"

definition validate_regexes :: "text_tables \<Rightarrow> ustr list \<Rightarrow> error option" where
  "validate_regexes T patterns =
     (if \<not> distinct patterns then Some (ValueError ''regex patterns must be unique'') else check_regexes T patterns)"

definition metadata_fields_ok :: "TriggerMetadata \<Rightarrow> bool" where
  "metadata_fields_ok md \<longleftrightarrow>
     length (md_keyword_filter md) \<le> 1000 \<and> length (md_regex_patterns md) \<le> 10 \<and> length (md_presets md) \<le> 3 \<and>
     list_all (\<lambda>p. p \<in> {''profanity'', ''sexual_content'', ''slurs''}) (md_presets md) \<and> length (md_allow_list md) \<le> 1000 \<and>
     (case md_mention_total_limit md of None \<Rightarrow> True | Some l \<Rightarrow> 1 \<le> l \<and> l \<le> 50)"

definition metadata_error :: "text_tables \<Rightarrow> TriggerMetadata \<Rightarrow> error option" where
  "metadata_error T md =
     (if \<not> metadata_fields_ok md then Some (ValueError ''trigger metadata is invalid'')
      else case validate_keywords (md_keyword_filter md) of
        Some e \<Rightarrow> Some e
      | None \<Rightarrow> (case validate_regexes T (md_regex_patterns md) of
          Some e \<Rightarrow> Some e
        | None \<Rightarrow> if \<not> distinct (md_presets md) then Some (ValueError ''keyword presets must be unique'')
            else validate_keywords (md_allow_list md)))"

definition default_metadata :: TriggerMetadata where
  "default_metadata = \<lparr>md_keyword_filter = [], md_regex_patterns = [], md_presets = [], md_allow_list = [],
     md_mention_total_limit = None, md_mention_raid_protection_enabled = False\<rparr>"

definition MAX_TIMEOUT_SECONDS :: int where
  "MAX_TIMEOUT_SECONDS = 28 * 24 * 60 * 60"

record AutoModActionInput =
  aa_type :: string
  aa_custom_message :: "ustr option"
  aa_channel_id :: "ustr option"
  aa_duration_seconds :: "int option"

definition action_error :: "AutoModActionInput \<Rightarrow> error option" where
  "action_error a =
     (if aa_type a \<notin> {''block_message'', ''send_alert_message'', ''timeout'', ''block_member_interaction''}
      then Some (ValueError ''action type is invalid'')
      else if (case aa_custom_message a of None \<Rightarrow> False | Some m \<Rightarrow> m = [] \<or> 150 < length m) then Some (ValueError ''custom message is invalid'')
      else if (case aa_duration_seconds a of None \<Rightarrow> False | Some d \<Rightarrow> d < 1 \<or> MAX_TIMEOUT_SECONDS < d)
      then Some (ValueError ''duration is invalid'')
      else if (case aa_custom_message a of None \<Rightarrow> False | Some m \<Rightarrow> strip m = []) then Some (ValueError ''custom message must not be blank'')
      else if aa_type a = ''send_alert_message''
      then if aa_channel_id a = None \<or> aa_duration_seconds a \<noteq> None \<or> aa_custom_message a \<noteq> None
           then Some (ValueError ''send_alert_message requires channel_id only'') else None
      else if aa_type a = ''timeout''
      then if aa_duration_seconds a = None \<or> aa_channel_id a \<noteq> None then Some (ValueError ''timeout requires duration_seconds only'')
           else if aa_custom_message a \<noteq> None then Some (ValueError ''timeout does not accept custom_message'') else None
      else if aa_type a = ''block_message''
      then if aa_channel_id a \<noteq> None \<or> aa_duration_seconds a \<noteq> None
           then Some (ValueError ''block_message accepts only custom_message'') else None
      else if aa_channel_id a \<noteq> None \<or> aa_duration_seconds a \<noteq> None \<or> aa_custom_message a \<noteq> None
      then Some (ValueError (aa_type a @ '' does not accept channel_id or duration_seconds'')) else None)"

record AutoModRuleCreate =
  ar_name :: ustr
  ar_event_type :: string
  ar_trigger_type :: string
  ar_trigger_metadata :: TriggerMetadata
  ar_actions :: "AutoModActionInput list"
  ar_enabled :: bool
  ar_exempt_roles :: "ustr list"
  ar_exempt_channels :: "ustr list"

definition trigger_metadata_error :: "string \<Rightarrow> TriggerMetadata \<Rightarrow> error option" where
  "trigger_metadata_error trigger_type md =
     (if trigger_type \<in> {''keyword'', ''member_profile''}
      then if 100 < length (md_allow_list md) then Some (ValueError ''keyword and member-profile allow lists are limited to 100 entries'')
           else if md_presets md \<noteq> [] \<or> md_mention_total_limit md \<noteq> None then Some (ValueError ''keyword rules contain unsupported trigger metadata'')
           else if md_mention_raid_protection_enabled md then Some (ValueError ''mention raid protection requires a mention_spam rule'')
           else None
      else if trigger_type = ''spam''
      then if md \<noteq> default_metadata then Some (ValueError ''spam rules do not accept trigger metadata'') else None
      else if trigger_type = ''keyword_preset''
      then if md_keyword_filter md \<noteq> [] \<or> md_regex_patterns md \<noteq> [] \<or> md_mention_total_limit md \<noteq> None \<or> md_mention_raid_protection_enabled md
           then Some (ValueError ''keyword preset rules contain unsupported trigger metadata'') else None
      else if trigger_type = ''mention_spam'' \<and>
        (md_keyword_filter md \<noteq> [] \<or> md_regex_patterns md \<noteq> [] \<or> md_presets md \<noteq> [] \<or> md_allow_list md \<noteq> [])
      then Some (ValueError ''mention spam rules contain unsupported trigger metadata'') else None)"

definition validate_trigger :: "AutoModRuleCreate \<Rightarrow> error option" where
  "validate_trigger r =
     (let md = ar_trigger_metadata r; tt = ar_trigger_type r; action_types = map aa_type (ar_actions r)
      in if tt \<in> {''keyword'', ''member_profile''} \<and> md_keyword_filter md = [] \<and> md_regex_patterns md = []
         then Some (ValueError ((if tt = ''keyword'' then ''keyword'' else ''member-profile'') @ '' rules require keyword_filter or regex_patterns''))
         else if tt = ''keyword_preset'' \<and> md_presets md = [] then Some (ValueError ''keyword_preset rules require at least one preset'')
         else if tt = ''mention_spam'' \<and> md_mention_total_limit md = None then Some (ValueError ''mention_spam rules require mention_total_limit'')
         else if ar_event_type r = ''member_update'' \<and> tt \<noteq> ''member_profile''
         then Some (ValueError ''member_update supports only the member_profile trigger'')
         else if ar_event_type r = ''message_send'' \<and> tt = ''member_profile''
         then Some (ValueError ''member_profile requires the member_update event'')
         else case trigger_metadata_error tt md of
           Some e \<Rightarrow> Some e
         | None \<Rightarrow>
             if \<not> distinct (ar_exempt_roles r) then Some (ValueError ''exempt roles must be unique'')
             else if \<not> distinct (ar_exempt_channels r) then Some (ValueError ''exempt channels must be unique'')
             else if \<not> distinct action_types then Some (ValueError ''a rule cannot contain duplicate action types'')
             else if ''timeout'' \<in> set action_types \<and> tt \<notin> {''keyword'', ''mention_spam''}
             then Some (ValueError ''timeout actions support only keyword and mention-spam rules'')
             else if ''block_member_interaction'' \<in> set action_types \<and> tt \<noteq> ''member_profile''
             then Some (ValueError ''block_member_interaction requires a member-profile rule'')
             else if tt = ''member_profile'' \<and> ''block_message'' \<in> set action_types
             then Some (ValueError ''member-profile rules cannot use block_message'')
             else None)"

text \<open>The whole model: field shapes, the nested models, then the rule itself, with the name stripped.\<close>

definition rule_create :: "text_tables \<Rightarrow> AutoModRuleCreate \<Rightarrow> AutoModRuleCreate result" where
  "rule_create T r =
     (if ar_name r = [] \<or> 100 < length (ar_name r) \<or> ar_event_type r \<notin> {''message_send'', ''member_update''} \<or>
        ar_trigger_type r \<notin> {''keyword'', ''spam'', ''keyword_preset'', ''mention_spam'', ''member_profile''} \<or>
        ar_actions r = [] \<or> 3 < length (ar_actions r) \<or> 20 < length (ar_exempt_roles r) \<or> 50 < length (ar_exempt_channels r)
      then Inl (ValueError ''rule fields are invalid'')
      else if strip (ar_name r) = [] then Inl (ValueError ''rule name must not be blank'')
      else case metadata_error T (ar_trigger_metadata r) of
        Some e \<Rightarrow> Inl e
      | None \<Rightarrow> (case first_some action_error (ar_actions r) of
          Some e \<Rightarrow> Inl e
        | None \<Rightarrow> (case validate_trigger r of Some e \<Rightarrow> Inl e | None \<Rightarrow> Inr (r\<lparr>ar_name := strip (ar_name r)\<rparr>))))"

section \<open>Occurrences of a keyword\<close>








lemma run_length_nonspace: "k < run_length txt i \<Longrightarrow> i + k < length txt \<and> \<not> is_space (txt ! (i + k))"
proof -
  assume k: "k < run_length txt i"
  then have "i + k < length txt" using length_takeWhile_le [of "\<lambda>c. \<not> is_space c" "drop i txt"] by (simp add: run_length_def)
  moreover have "\<not> is_space (takeWhile (\<lambda>c. \<not> is_space c) (drop i txt) ! k)"
    using k nth_mem set_takeWhileD unfolding run_length_def by metis
  ultimately show ?thesis using k takeWhile_nth [of k "\<lambda>c. \<not> is_space c" "drop i txt"] by (simp add: run_length_def)
qed















section \<open>The allow list\<close>

declare finditer.simps [simp del]













section \<open>Rules and evaluation\<close>

lemma check_regexes_None: "check_regexes T ps = None \<Longrightarrow> \<forall>p\<in>set ps. tt_re2_valid T p"
  by (induction ps) (auto split: if_splits)

lemma rule_create_Inr:
  assumes "rule_create T r = Inr r'"
  shows "r' = r\<lparr>ar_name := strip (ar_name r)\<rparr> \<and> metadata_error T (ar_trigger_metadata r) = None \<and> validate_trigger r = None"
  using assms by (auto simp: rule_create_def split: if_splits option.splits)

lemma metadata_regexes: "metadata_error T md = None \<Longrightarrow> \<forall>p\<in>set (md_regex_patterns md). tt_re2_valid T p"
  by (auto simp: metadata_error_def validate_regexes_def split: if_splits option.splits dest!: check_regexes_None)

lemma first_regex_valid: "\<forall>p\<in>set ps. tt_re2_valid T p \<Longrightarrow> \<exists>r. first_regex T cc cs src ps = Inr r"
  by (induction ps) (auto simp: safe_regex_matched_text_def)

lemma first_keyword_kind: "first_keyword T cc cs src kind kws = Some r \<Longrightarrow> mt_kind r = Some kind"
  by (induction kws) (auto split: if_splits)

lemma first_regex_kind: "first_regex T cc cs src ps = Inr r \<Longrightarrow> mt_matched r \<Longrightarrow> mt_kind r = Some ''regex''"
  by (induction ps) (auto simp: no_match_def result_simps split: if_splits)


definition wildcard_rule :: AutoModRuleCreate where
  "wildcard_rule = \<lparr>ar_name = [114], ar_event_type = ''message_send'', ar_trigger_type = ''keyword'',
     ar_trigger_metadata = default_metadata\<lparr>md_keyword_filter := [[65290]]\<rparr>,
     ar_actions = [\<lparr>aa_type = ''block_message'', aa_custom_message = None, aa_channel_id = None, aa_duration_seconds = None\<rparr>],
     ar_enabled = True, ar_exempt_roles = [], ar_exempt_channels = []\<rparr>"

lemma wildcard_rule_accepted: "rule_create T wildcard_rule = Inr wildcard_rule"
proof -
  have "strip [65290] = [65290]" "strip_stars [65290] = [65290]" "strip [114] = [114]" by (simp_all add: strip_def strip_stars_def is_space_def)
  then show ?thesis
    by (simp add: rule_create_def wildcard_rule_def metadata_error_def metadata_fields_ok_def default_metadata_def validate_keywords_def
        validate_regexes_def action_error_def validate_trigger_def trigger_metadata_error_def Let_def)
qed


section \<open>Samples\<close>

definition ascii_tables :: text_tables where
  "ascii_tables = \<lparr>tt_nfkc = (\<lambda>s. map (\<lambda>c. if c = 65290 then 42 else c) s), tt_casefold = (\<lambda>s. s), tt_same = (=), tt_word = (\<lambda>c. 97 \<le> c \<and> c \<le> 122),
     tt_decimal = is_digit, tt_re2_valid = (\<lambda>_. True), tt_re2 = (\<lambda>_ _. None)\<rparr>"







section \<open>Properties\<close>



text \<open>
  Every rule that passes validation can be evaluated on every message without an exception, and a match of a rule with a timeout
  action is one of a keyword, a regular expression or too many mentions.
\<close>

theorem accepted_rule_evaluates:
  assumes "rule_create T rule = Inr rule'"
  shows "\<exists>r. evaluate_trigger T presets (ar_trigger_type rule') (ar_trigger_metadata rule') content mention_count = Inr r \<and>
     (mt_matched r \<and> ''timeout'' \<in> aa_type ` set (ar_actions rule') \<longrightarrow> mt_kind r \<in> {Some ''keyword'', Some ''regex'', Some ''mention_spam''})"
proof -
  define md where "md = ar_trigger_metadata rule'"
  have rule: "rule' = rule\<lparr>ar_name := strip (ar_name rule)\<rparr>" "metadata_error T md = None" "validate_trigger rule = None"
    using rule_create_Inr [OF assms] by (auto simp: md_def)
  have timeout: "ar_trigger_type rule' = ''keyword'' \<or> ar_trigger_type rule' = ''mention_spam''" if "''timeout'' \<in> aa_type ` set (ar_actions rule')"
    using rule(1,3) that by (auto simp: validate_trigger_def Let_def split: if_splits option.splits)
  have regex: "\<exists>r. first_regex T cc cs src (md_regex_patterns md) = Inr r" for cc cs src
    by (rule first_regex_valid [OF metadata_regexes [OF rule(2)]])
  consider (words) "ar_trigger_type rule' = ''keyword'' \<or> ar_trigger_type rule' = ''member_profile''"
    | (mentions) "ar_trigger_type rule' = ''mention_spam''"
    | (other) "ar_trigger_type rule' \<notin> {''keyword'', ''member_profile'', ''mention_spam''}" by blast
  then show ?thesis
  proof cases
    case words
    define source where "source = take MAX_EVALUATED_CHARACTERS content"
    define cc where "cc = mask_allowed T (normalize_content T source) (md_allow_list md)"
    define cs where "cs = mask_allowed T source (md_allow_list md)"
    define found where "found = first_keyword T cc cs source ''keyword'' (md_keyword_filter md)"
    obtain r where r: "first_regex T cc cs source (md_regex_patterns md) = Inr r" using regex by blast
    have ev: "evaluate_trigger T presets (ar_trigger_type rule') md content mention_count = Inr (case found of None \<Rightarrow> r | Some r \<Rightarrow> r)"
      using words r by (auto simp: evaluate_trigger_def Let_def source_def cc_def cs_def found_def split: option.split)
    have "mt_kind (case found of None \<Rightarrow> r | Some r \<Rightarrow> r) \<in> {Some ''keyword'', Some ''regex''}" if "mt_matched (case found of None \<Rightarrow> r | Some r \<Rightarrow> r)"
      using that first_regex_kind [OF r] first_keyword_kind [of T cc cs source "''keyword''" "md_keyword_filter md"]
      by (auto simp: found_def split: option.splits)
    then show ?thesis unfolding md_def [symmetric] using ev by auto
  next
    case mentions
    then show ?thesis unfolding md_def [symmetric] evaluate_trigger_def Let_def by simp
  next
    case other
    then have "''timeout'' \<notin> aa_type ` set (ar_actions rule')" using timeout by auto
    moreover have "\<exists>r. evaluate_trigger T presets (ar_trigger_type rule') (ar_trigger_metadata rule') content mention_count = Inr r"
      using other unfolding evaluate_trigger_def Let_def by simp
    ultimately show ?thesis by blast
  qed
qed

theorem accepted_rule_evaluates_witness:
  "\<exists>r. evaluate_trigger ascii_tables (\<lambda>_. []) ''keyword'' (ar_trigger_metadata wildcard_rule) (ucs ''hello'') 0 = Inr r"
  using accepted_rule_evaluates [OF wildcard_rule_accepted, of ascii_tables "\<lambda>_. []" "ucs ''hello''" 0] by (auto simp: wildcard_rule_def)

text \<open>
  C38: The validator accepts a rule whose only keyword is the fullwidth asterisk, which normalisation turns into a bare wildcard: the
  accepted rule matches no message at all.
\<close>

theorem fullwidth_wildcard_never_matches:
  assumes "tt_nfkc T [65290] = [42]" "tt_casefold T [42] = [42]"
  shows "rule_create T wildcard_rule = Inr wildcard_rule \<and> md_keyword_filter (ar_trigger_metadata wildcard_rule) = [[65290]] \<and>
     evaluate_trigger T presets ''keyword'' (ar_trigger_metadata wildcard_rule) content mention_count = Inr no_match"
proof -
  have "strip [42] = [42]" "strip_stars [42] = []" by (simp_all add: strip_def strip_stars_def is_space_def)
  then have "keyword_pattern T [65290] = None"
    using assms by (simp add: keyword_pattern_def normalize_content_def MAX_EVALUATED_CHARACTERS_def)
  then have none: "keyword_matched_text T c [65290] = None" for c by (simp add: keyword_matched_text_def)
  have md: "md_keyword_filter (ar_trigger_metadata wildcard_rule) = [[65290]]" "md_regex_patterns (ar_trigger_metadata wildcard_rule) = []"
    by (simp_all add: wildcard_rule_def default_metadata_def)
  then show ?thesis by (simp add: wildcard_rule_accepted evaluate_trigger_def none Let_def)
qed

theorem fullwidth_wildcard_never_matches_witness:
  "evaluate_trigger ascii_tables (\<lambda>_. []) ''keyword'' (ar_trigger_metadata wildcard_rule) (ucs ''hello'') 0 = Inr no_match"
  using fullwidth_wildcard_never_matches [of ascii_tables "\<lambda>_. []" "ucs ''hello''" 0] by (simp add: ascii_tables_def)

end
