(* ===== verification/Channel_Encryption.thy ===== *)
theory Channel_Encryption
  imports Entity_Refs "HOL-Library.Sublist"
begin

text \<open>
  End-to-end encryption policies of a room (\<open>chat/e2ee.py\<close>): the validator of a transported policy, the rules for replacing a stored
  one, the handlers that receive and store policies, the check constraints of the table, and the checks of messages against the policy in force. Received
  values are \<open>pyval\<close>; a validated policy is the record of its fields. \<open>MessageEncryptionPolicyError\<close>, a \<open>ValueError\<close> with a code, is
  \<open>ValueError\<close> of its code.
\<close>

section \<open>Policies\<close>

abbreviation E2EE_PROTOCOL_MLS_10 :: ustr where
  "E2EE_PROTOCOL_MLS_10 \<equiv> ucs ''mls10''"

abbreviation E2EE_SUITE_MLS_128 :: ustr where
  "E2EE_SUITE_MLS_128 \<equiv> ucs ''MLS_128_DHKEMX25519_AES128GCM_SHA256_Ed25519''"

definition E2EE_ROOM_STATES :: "ustr list" where
  "E2EE_ROOM_STATES = map ucs [''plaintext'', ''legacy'', ''proposed'', ''activating'', ''active'', ''rekeying'', ''failed'']"

text \<open>\<open>int(value)\<close> of an ASCII decimal string: the conversion refuses more than 4300 digits.\<close>

definition int_of_decimal :: "ustr \<Rightarrow> int result" where
  "int_of_decimal s =
     (if 4300 < length s then Inl (ValueError ''Exceeds the limit (4300 digits) for integer string conversion'')
      else Inr (int (nat_of_str s)))"

definition nonnegative_wire_integer :: "pyval \<Rightarrow> string \<Rightarrow> int result" where
  "nonnegative_wire_integer v label =
     (let in_range = (\<lambda>parsed. if parsed < 0 \<or> MAX_SNOWFLAKE < parsed then Inl (ValueError (label @ '' is outside the database range''))
                              else Inr parsed)
      in case v of
           PInt i \<Rightarrow> in_range i
         | PStr s \<Rightarrow>
             if canonical_decimal s then rbind (int_of_decimal s) in_range
             else Inl (ValueError (label @ '' must be a non-negative decimal integer''))
         | _ \<Rightarrow> Inl (ValueError (label @ '' must be a non-negative decimal integer'')))"

text \<open>A validated policy: the dictionary the validator returns.\<close>

record policy =
  pol_mode :: ustr
  pol_state :: ustr
  pol_generation :: int
  pol_protocol :: "ustr option"
  pol_suite :: "ustr option"
  pol_group_id :: "ustr option"
  pol_epoch :: "int option"

definition identifier_ok :: "pyval \<Rightarrow> nat \<Rightarrow> bool" where
  "identifier_ok field maximum = (case field of PNone \<Rightarrow> True | PStr s \<Rightarrow> 1 \<le> length s \<and> length s \<le> maximum | _ \<Rightarrow> False)"

definition policy_error :: "policy \<Rightarrow> string option" where
  "policy_error p =
     (if pol_generation p = 0 then
        (if pol_state p \<notin> {ucs ''plaintext'', ucs ''legacy''}
         then Some ''an activated encryption policy requires a positive generation''
         else if pol_mode p \<noteq> (if pol_state p = ucs ''legacy'' then ucs ''e2ee'' else ucs ''plaintext'') \<or>
           pol_protocol p \<noteq> None \<or> pol_suite p \<noteq> None \<or> pol_group_id p \<noteq> None \<or> pol_epoch p \<noteq> None
         then Some ''legacy channel encryption policy is inconsistent'' else None)
      else if pol_state p = ucs ''plaintext'' \<or> pol_state p = ucs ''legacy''
      then Some ''a generated encryption policy has an invalid state''
      else if pol_state p \<in> {ucs ''proposed'', ucs ''failed''} \<and> pol_mode p = ucs ''plaintext'' \<and> pol_epoch p \<noteq> None
      then Some ''proposed channel encryption policy is inconsistent''
      else if \<not> (pol_state p \<in> {ucs ''proposed'', ucs ''failed''} \<and> pol_mode p = ucs ''plaintext'') \<and>
        (pol_mode p \<noteq> ucs ''e2ee'' \<or> pol_epoch p = None)
      then Some ''active channel encryption policy is inconsistent''
      else if pol_protocol p \<noteq> Some E2EE_PROTOCOL_MLS_10 \<or> pol_suite p \<noteq> Some E2EE_SUITE_MLS_128 \<or> pol_group_id p = None
      then Some ''channel encryption protocol is unsupported'' else None)"

definition policy_modes :: "ustr list" where
  "policy_modes = [ucs ''plaintext'', ucs ''e2ee'']"

definition policy_epoch :: "pyval \<Rightarrow> int option result" where
  "policy_epoch epoch_raw =
     (if epoch_raw = PNone then Inr None
      else rbind (nonnegative_wire_integer epoch_raw ''encryption epoch'') (\<lambda>e. Inr (Some e)))"

definition validate_channel_encryption_policy :: "pyval \<Rightarrow> policy result" where
  "validate_channel_encryption_policy value =
     (case value of
        PDict d \<Rightarrow>
          (let mode = dict_get_or d ''mode'' (pkey ''plaintext''); state = dict_get_or d ''state'' (pkey ''plaintext'');
               protocol = dict_get d ''protocol''; suite = dict_get d ''suite''; group_id = dict_get d ''group_id'';
               epoch_raw = dict_get d ''epoch''
           in rbind (in_set mode (map PStr policy_modes)) (\<lambda>mode_ok.
              rbind (if mode_ok then in_set state (map PStr E2EE_ROOM_STATES) else Inr False) (\<lambda>state_ok.
              if \<not> state_ok then Inl (ValueError ''channel encryption policy mode or state is invalid'')
              else rbind (nonnegative_wire_integer (dict_get_or d ''generation'' (pkey ''0'')) ''policy generation'') (\<lambda>generation.
                rbind (policy_epoch epoch_raw) (\<lambda>epoch.
                if \<not> (identifier_ok protocol 32 \<and> identifier_ok suite 96 \<and> identifier_ok group_id 128)
                then Inl (ValueError ''channel encryption policy identifier is invalid'')
                else
                  let p = \<lparr>pol_mode = the (as_str mode), pol_state = the (as_str state), pol_generation = generation,
                           pol_protocol = as_str protocol, pol_suite = as_str suite, pol_group_id = as_str group_id, pol_epoch = epoch\<rparr>
                  in case policy_error p of Some e \<Rightarrow> Inl (ValueError e) | None \<Rightarrow> Inr p)))))
      | _ \<Rightarrow> Inl (ValueError ''channel encryption policy must be an object''))"

section \<open>The policy of a channel\<close>

record 't channel =
  ch_encryption_mode :: "ustr option"
  ch_encryption_state :: "ustr option"
  ch_encryption_policy_generation :: "int option"
  ch_encryption_protocol :: "ustr option"
  ch_encryption_suite :: "ustr option"
  ch_encryption_group_id :: "ustr option"
  ch_encryption_epoch :: "int option"
  ch_encryption_activated_at :: "'t option"

text \<open>\<open>x or default\<close> of an optional string\<close>

definition str_or :: "ustr option \<Rightarrow> ustr \<Rightarrow> ustr" where
  "str_or x dflt = (case x of None \<Rightarrow> dflt | Some s \<Rightarrow> if s = [] then dflt else s)"

definition opt_str :: "ustr option \<Rightarrow> pyval" where
  "opt_str x = (case x of None \<Rightarrow> PNone | Some s \<Rightarrow> PStr s)"

definition opt_int :: "int option \<Rightarrow> pyval" where
  "opt_int x = (case x of None \<Rightarrow> PNone | Some i \<Rightarrow> PStr (ucs (string_of_int i)))"

definition channel_encryption_policy_payload :: "'t channel \<Rightarrow> pyval" where
  "channel_encryption_policy_payload c =
     (let mode = str_or (ch_encryption_mode c) (ucs ''plaintext'');
          state = str_or (ch_encryption_state c) (if mode = ucs ''e2ee'' then ucs ''legacy'' else ucs ''plaintext'');
          generation = (case ch_encryption_policy_generation c of None \<Rightarrow> 0 | Some g \<Rightarrow> g)
      in PDict [(pkey ''mode'', PStr mode), (pkey ''state'', PStr state),
           (pkey ''generation'', PStr (ucs (string_of_int generation))),
           (pkey ''protocol'', opt_str (ch_encryption_protocol c)), (pkey ''suite'', opt_str (ch_encryption_suite c)),
           (pkey ''group_id'', opt_str (ch_encryption_group_id c)), (pkey ''epoch'', opt_int (ch_encryption_epoch c))])"

abbreviation current_policy :: "'t channel \<Rightarrow> policy result" where
  "current_policy c \<equiv> validate_channel_encryption_policy (channel_encryption_policy_payload c)"

definition allowed_same_generation :: "(ustr \<times> ustr) list" where
  "allowed_same_generation =
     [(ucs ''proposed'', ucs ''activating''), (ucs ''proposed'', ucs ''active''), (ucs ''proposed'', ucs ''failed''),
      (ucs ''activating'', ucs ''active''), (ucs ''activating'', ucs ''failed''), (ucs ''active'', ucs ''rekeying'')]"

definition transition_error :: "policy \<Rightarrow> policy \<Rightarrow> string option" where
  "transition_error current incoming =
     (if pol_generation incoming < pol_generation current then Some '' encryption policy generation regressed''
      else if pol_generation incoming = pol_generation current \<and> incoming \<noteq> current \<and>
        (pol_protocol incoming \<noteq> pol_protocol current \<or> pol_suite incoming \<noteq> pol_suite current \<or>
         pol_group_id incoming \<noteq> pol_group_id current \<or>
         (pol_state current, pol_state incoming) \<notin> set allowed_same_generation)
      then Some '' encryption policy generation was equivocated''
      else if pol_mode current = ucs ''e2ee'' \<and> pol_mode incoming \<noteq> ucs ''e2ee''
      then Some '' encryption policy attempted a downgrade'' else None)"

definition validate_channel_encryption_policy_transition :: "'t channel \<Rightarrow> policy \<Rightarrow> string \<Rightarrow> unit result" where
  "validate_channel_encryption_policy_transition c incoming label =
     rbind (current_policy c) (\<lambda>current.
       case transition_error current incoming of Some e \<Rightarrow> Inl (ValueError (label @ e)) | None \<Rightarrow> Inr ())"

datatype classification = Stale | Current | Apply

definition classify_channel_encryption_policy_update :: "'t channel \<Rightarrow> policy \<Rightarrow> string \<Rightarrow> classification result" where
  "classify_channel_encryption_policy_update c incoming label =
     rbind (current_policy c) (\<lambda>current.
       if pol_generation incoming < pol_generation current then Inr Stale
       else if pol_generation incoming = pol_generation current \<and> incoming = current then Inr Current
       else rbind (validate_channel_encryption_policy_transition c incoming label) (\<lambda>_. Inr Apply))"

section \<open>Updates of a channel\<close>

definition store_policy :: "policy \<Rightarrow> 't channel \<Rightarrow> 't channel" where
  "store_policy p c = c\<lparr>ch_encryption_mode := Some (pol_mode p), ch_encryption_state := Some (pol_state p),
     ch_encryption_policy_generation := Some (pol_generation p), ch_encryption_protocol := pol_protocol p,
     ch_encryption_suite := pol_suite p, ch_encryption_group_id := pol_group_id p, ch_encryption_epoch := pol_epoch p\<rparr>"

text \<open>
  The policy carried by a direct message (\<open>replicate_dm_message\<close>): it must come from the authority of the conversation,
  and the first encrypted policy fixes the time of activation.
\<close>

definition dm_policy_update :: "ustr \<Rightarrow> ustr \<Rightarrow> pyval \<Rightarrow> 't \<Rightarrow> 't channel \<Rightarrow> 't channel result" where
  "dm_policy_update event_origin authority_domain raw_policy created_at c =
     (if raw_policy = PNone then Inr c
      else if event_origin \<noteq> authority_domain
      then Inl (ValueError ''DM encryption policy did not originate at its authority'')
      else rbind (validate_channel_encryption_policy raw_policy) (\<lambda>p.
        rbind (validate_channel_encryption_policy_transition c p ''DM'') (\<lambda>_.
          let c' = store_policy p c
          in Inr (if ch_encryption_mode c' = Some (ucs ''e2ee'') \<and> ch_encryption_activated_at c' = None
                  then c'\<lparr>ch_encryption_activated_at := Some created_at\<rparr> else c'))))"

text \<open>
  The room policy event, once the channel it concerns is loaded. A stale or repeated policy is dropped; otherwise the actor must be
  a participant. The lookup of the membership, with the errors of its context, is an argument.
\<close>

definition room_policy_update :: "pyval \<Rightarrow> bool result \<Rightarrow> 't channel \<Rightarrow> 't channel result" where
  "room_policy_update raw_policy actor_membership c =
     rbind (validate_channel_encryption_policy raw_policy) (\<lambda>p.
       rbind (classify_channel_encryption_policy_update c p ''E2EE room'') (\<lambda>update_state.
         if update_state \<noteq> Apply then Inr c
         else rbind actor_membership (\<lambda>found.
           if \<not> found then Inl (ValueError ''E2EE room policy actor is not a room participant'')
           else Inr (store_policy p c))))"

text \<open>
  A policy rendered by the remote authority (\<open>apply_remote_active_policy\<close>). Its identifiers are stored as their text, so that a
  missing one would be stored as \<open>None\<close>'s name, but \<open>int\<close> of a missing epoch raises before the session commits. The parser of
  time stamps is an argument; \<open>None\<close> is its \<open>ValueError\<close>.
\<close>

definition str_option :: "ustr option \<Rightarrow> ustr" where
  "str_option x = (case x of None \<Rightarrow> ucs ''None'' | Some s \<Rightarrow> s)"

definition apply_remote_active_policy :: "(ustr \<Rightarrow> 't option) \<Rightarrow> (pyval \<times> pyval) list \<Rightarrow> 't \<Rightarrow> 't channel \<Rightarrow> 't channel result" where
  "apply_remote_active_policy fromisoformat rendered now c =
     rbind (validate_channel_encryption_policy
              (PDict [(pkey ''mode'', dict_get rendered ''encryption_mode''), (pkey ''state'', dict_get rendered ''encryption_state''),
                      (pkey ''generation'', dict_get rendered ''encryption_policy_generation''),
                      (pkey ''protocol'', dict_get rendered ''encryption_protocol''),
                      (pkey ''suite'', dict_get rendered ''encryption_suite''),
                      (pkey ''group_id'', dict_get rendered ''encryption_group_id''),
                      (pkey ''epoch'', dict_get rendered ''encryption_epoch'')])) (\<lambda>incoming.
     rbind (validate_channel_encryption_policy_transition c incoming ''proxied room'') (\<lambda>_.
     case pol_epoch incoming of
       None \<Rightarrow> Inl (TypeError ''int() argument must be a string, a bytes-like object or a real number'')
     | Some epoch \<Rightarrow>
         rbind (case dict_get rendered ''encryption_activated_at'' of
                  PStr t \<Rightarrow> (case fromisoformat t of None \<Rightarrow> Inl (ValueError ''Invalid isoformat string'') | Some x \<Rightarrow> Inr x)
                | _ \<Rightarrow> Inr now) (\<lambda>activated_at.
         Inr ((store_policy (incoming\<lparr>pol_protocol := Some (str_option (pol_protocol incoming)),
                 pol_suite := Some (str_option (pol_suite incoming)), pol_group_id := Some (str_option (pol_group_id incoming)),
                 pol_epoch := Some epoch\<rparr>) c)\<lparr>ch_encryption_activated_at := Some activated_at\<rparr>))))"

text \<open>
  The policy that travels with a replicated conversation, with a mutation of a guild channel and with a guild snapshot. A payload without a
  policy stands for generation 0: plaintext in a conversation, the mode beside it in a guild channel.
\<close>

definition legacy_policy :: "pyval \<Rightarrow> pyval" where
  "legacy_policy legacy_mode =
     PDict [(pkey ''mode'', legacy_mode), (pkey ''state'', if py_eq legacy_mode (pkey ''e2ee'') then pkey ''legacy'' else pkey ''plaintext''),
            (pkey ''generation'', pkey ''0'')]"

definition replicated_policy_update :: "pyval \<Rightarrow> string \<Rightarrow> 't channel \<Rightarrow> 't channel result" where
  "replicated_policy_update raw_encryption_policy label c =
     rbind (validate_channel_encryption_policy raw_encryption_policy) (\<lambda>p.
       rbind (validate_channel_encryption_policy_transition c p label) (\<lambda>_. Inr (store_policy p c)))"

definition conversation_policy_update :: "(pyval \<times> pyval) list \<Rightarrow> 't channel \<Rightarrow> 't channel result" where
  "conversation_policy_update conversation c =
     (let raw = dict_get conversation ''encryption_policy''
      in replicated_policy_update (if raw = PNone then legacy_policy (pkey ''plaintext'') else raw) ''DM'' c)"

definition guild_channel_policy :: "(pyval \<times> pyval) list \<Rightarrow> pyval" where
  "guild_channel_policy raw =
     (let policy1 = dict_get raw ''encryption_policy''
      in if policy1 = PNone then legacy_policy (dict_get_or raw ''encryption_mode'' (pkey ''plaintext'')) else policy1)"

definition channel_mutation_policy_update :: "(pyval \<times> pyval) list \<Rightarrow> 't channel \<Rightarrow> 't channel result" where
  "channel_mutation_policy_update raw c = replicated_policy_update (guild_channel_policy raw) ''channel'' c"

definition snapshot_policy_update :: "(pyval \<times> pyval) list \<Rightarrow> 't channel \<Rightarrow> 't channel result" where
  "snapshot_policy_update raw c = replicated_policy_update (guild_channel_policy raw) ''snapshot channel'' c"

text \<open>
  The ways in which a channel receives a policy of another instance. A refused one leaves it as it was, since the transaction rolls back.
\<close>

datatype 't delivery =
    DmPolicy ustr ustr pyval 't
  | RoomPolicy pyval "bool result"
  | RemoteActivePolicy "ustr \<Rightarrow> 't option" "(pyval \<times> pyval) list" 't
  | ConversationPolicy "(pyval \<times> pyval) list"
  | ChannelMutationPolicy "(pyval \<times> pyval) list"
  | SnapshotPolicy "(pyval \<times> pyval) list"

definition deliver :: "'t delivery \<Rightarrow> 't channel \<Rightarrow> 't channel result" where
  "deliver e c =
     (case e of
        DmPolicy event_origin authority raw created_at \<Rightarrow> dm_policy_update event_origin authority raw created_at c
      | RoomPolicy raw membership \<Rightarrow> room_policy_update raw membership c
      | RemoteActivePolicy fromisoformat rendered now \<Rightarrow> apply_remote_active_policy fromisoformat rendered now c
      | ConversationPolicy conversation \<Rightarrow> conversation_policy_update conversation c
      | ChannelMutationPolicy raw \<Rightarrow> channel_mutation_policy_update raw c
      | SnapshotPolicy raw \<Rightarrow> snapshot_policy_update raw c)"

primrec deliver_all :: "'t channel \<Rightarrow> 't delivery list \<Rightarrow> 't channel" where
  "deliver_all c [] = c"
| "deliver_all c (e # es) = deliver_all (case deliver e c of Inl _ \<Rightarrow> c | Inr c' \<Rightarrow> c') es"

text \<open>The check constraints of the \<open>channels\<close> table on these columns.\<close>

definition channel_constraints :: "'t channel \<Rightarrow> bool" where
  "channel_constraints c \<longleftrightarrow>
     (case (ch_encryption_mode c, ch_encryption_state c, ch_encryption_policy_generation c) of
        (Some mode, Some state, Some generation) \<Rightarrow>
        mode \<in> {ucs ''plaintext'', ucs ''e2ee''} \<and> state \<in> set E2EE_ROOM_STATES \<and> 0 \<le> generation \<and>
        (case ch_encryption_epoch c of None \<Rightarrow> True | Some e \<Rightarrow> 0 \<le> e) \<and>
        (generation = 0 \<and> (state = ucs ''plaintext'' \<and> mode = ucs ''plaintext'' \<or> state = ucs ''legacy'' \<and> mode = ucs ''e2ee'') \<and>
           ch_encryption_protocol c = None \<and> ch_encryption_suite c = None \<and> ch_encryption_group_id c = None \<and>
           ch_encryption_epoch c = None \<or>
         0 < generation \<and> ch_encryption_protocol c = Some E2EE_PROTOCOL_MLS_10 \<and> ch_encryption_suite c = Some E2EE_SUITE_MLS_128 \<and>
           ch_encryption_group_id c \<noteq> None \<and>
           (state \<in> {ucs ''proposed'', ucs ''failed''} \<and> mode = ucs ''plaintext'' \<and> ch_encryption_epoch c = None \<or>
            state \<in> {ucs ''activating'', ucs ''active'', ucs ''rekeying'', ucs ''failed''} \<and> mode = ucs ''e2ee'' \<and>
              ch_encryption_epoch c \<noteq> None))
      | _ \<Rightarrow> False)"

section \<open>Messages under a policy\<close>

definition validate_message_encryption_policy ::
  "ustr \<Rightarrow> pyval \<Rightarrow> pyval \<Rightarrow> bool \<Rightarrow> int \<Rightarrow> int option \<Rightarrow> ustr option \<Rightarrow> unit result" where
  "validate_message_encryption_policy encryption_mode content e2ee deleted policy_generation epoch policy_group_id =
     (if encryption_mode \<notin> {ucs ''plaintext'', ucs ''e2ee''} then Inl (ValueError ''MESSAGE_ENCRYPTION_POLICY_INVALID'')
      else if deleted then
        (if content \<noteq> PNone \<or> e2ee \<noteq> PNone then Inl (ValueError ''DELETED_MESSAGE_BODY_FORBIDDEN'') else Inr ())
      else if encryption_mode = ucs ''plaintext'' then
        (if e2ee \<noteq> PNone then Inl (ValueError ''E2EE_NOT_ENABLED'') else Inr ())
      else if content \<noteq> PNone \<or> e2ee = PNone then Inl (ValueError ''E2EE_ENVELOPE_REQUIRED'')
      else if 0 < policy_generation then
        (case e2ee of
           PDict d \<Rightarrow>
             if \<not> py_eq (dict_get d ''version'') (PInt 2) then Inl (ValueError ''E2EE_MLS_ENVELOPE_REQUIRED'')
             else if \<not> py_eq (dict_get d ''policy_generation'') (PStr (ucs (string_of_int policy_generation))) \<or>
               \<not> py_eq (dict_get d ''epoch'') (PStr (case epoch of None \<Rightarrow> ucs ''None'' | Some e \<Rightarrow> ucs (string_of_int e))) \<or>
               \<not> py_eq (dict_get d ''group_id'') (opt_str policy_group_id)
             then Inl (ValueError ''E2EE_POLICY_CONTEXT_MISMATCH'') else Inr ()
         | _ \<Rightarrow> Inl (ValueError ''E2EE_MLS_ENVELOPE_REQUIRED''))
      else Inr ())"

definition INTERACTION_RESPONSE_ENVELOPE_FIELDS :: "string list" where
  "INTERACTION_RESPONSE_ENVELOPE_FIELDS =
     [''interaction_ref'', ''response_ref'', ''sequence'', ''revision'', ''callback_type'', ''attachment_refs'']"

definition validate_e2ee_message_projection :: "(pyval \<times> pyval) list option \<Rightarrow> int \<Rightarrow> ustr \<Rightarrow> bool \<Rightarrow> unit result" where
  "validate_e2ee_message_projection envelope message_id message_domain edited =
     (case envelope of
        None \<Rightarrow> Inr ()
      | Some d \<Rightarrow>
          if list_ex (has_key d) INTERACTION_RESPONSE_ENVELOPE_FIELDS
          then Inl (ValueError ''interaction response envelope cannot be projected as a message'')
          else
            let expected_ref = ucs (string_of_int message_id) @ ucs ''@'' @ message_domain; operation = dict_get d ''operation''
            in if edited then
                 (if \<not> py_eq operation (pkey ''edit'') \<or> \<not> py_eq (dict_get d ''target_message'') (PStr expected_ref)
                  then Inl (ValueError ''MLS edit does not target its projected message'') else Inr ())
               else if \<not> py_eq operation (pkey ''create'') \<or> has_key d ''target_message''
               then Inl (ValueError ''MLS create does not match its projected message'') else Inr ())"

definition validate_e2ee_message_revision :: "(pyval \<times> pyval) list option \<Rightarrow> pyval \<Rightarrow> unit result" where
  "validate_e2ee_message_revision envelope previous =
     (case envelope of
        None \<Rightarrow> Inr ()
      | Some d \<Rightarrow>
          if \<not> has_key d ''rich_payload_digest'' then Inr ()
          else rbind (nonnegative_wire_integer (dict_get d ''message_revision'') ''message revision'') (\<lambda>current.
            rbind (case previous of
                     PDict q \<Rightarrow>
                       if has_key q ''rich_payload_digest''
                       then nonnegative_wire_integer (dict_get q ''message_revision'') ''prior message revision'' else Inr 1
                   | _ \<Rightarrow> Inr 1) (\<lambda>prior.
              if current \<noteq> prior + 1 then Inl (ValueError ''encrypted rich message revision is not the next revision'')
              else Inr ())))"

section \<open>Accepted policies\<close>

definition opt_range :: "int option \<Rightarrow> bool" where
  "opt_range x = (case x of None \<Rightarrow> True | Some e \<Rightarrow> snowflake_range e)"

definition opt_length :: "ustr option \<Rightarrow> nat \<Rightarrow> bool" where
  "opt_length x n = (case x of None \<Rightarrow> True | Some s \<Rightarrow> 1 \<le> length s \<and> length s \<le> n)"

definition policy_ok :: "policy \<Rightarrow> bool" where
  "policy_ok p \<longleftrightarrow> pol_mode p \<in> {ucs ''plaintext'', ucs ''e2ee''} \<and> pol_state p \<in> set E2EE_ROOM_STATES \<and>
     snowflake_range (pol_generation p) \<and> opt_range (pol_epoch p) \<and> opt_length (pol_protocol p) 32 \<and>
     opt_length (pol_suite p) 96 \<and> opt_length (pol_group_id p) 128 \<and> policy_error p = None"

lemma int_of_decimal_Inr: "int_of_decimal s = Inr n \<longleftrightarrow> length s \<le> 4300 \<and> n = int (nat_of_str s)"
  by (auto simp: int_of_decimal_def)

lemma wire_integer_range: "nonnegative_wire_integer v label = Inr n \<Longrightarrow> snowflake_range n"
  by (auto simp: nonnegative_wire_integer_def result_simps snowflake_range_def max_snowflake not_less Let_def
      split: pyval.splits if_splits)

lemma wire_integer_str:
  assumes "snowflake_range n"
  shows "nonnegative_wire_integer (PStr (ucs (string_of_int n))) label = Inr n"
proof -
  have "ucs (string_of_int n) = str_nat (nat n)" using assms by (simp add: ucs_string_of_int snowflake_range_def)
  moreover have "int_of_decimal (str_nat (nat n)) = Inr n"
    using str_nat_short [OF assms] assms by (simp add: int_of_decimal_Inr snowflake_range_def)
  ultimately show ?thesis
    using assms by (auto simp: nonnegative_wire_integer_def canonical_str_nat snowflake_range_def max_snowflake not_less)
qed

lemma identifier_ok_iff: "identifier_ok v n \<longleftrightarrow> v = opt_str (as_str v) \<and> opt_length (as_str v) n"
  by (cases v) (auto simp: identifier_ok_def opt_str_def opt_length_def as_str_def)

lemma as_str_opt_str [simp]: "as_str (opt_str x) = x"
  by (cases x) (simp_all add: as_str_def opt_str_def)

lemma identifier_ok_opt_str [simp]: "identifier_ok (opt_str x) n \<longleftrightarrow> opt_length x n"
  by (simp add: identifier_ok_iff)

lemma validate_policy_ok:
  assumes "validate_channel_encryption_policy v = Inr p"
  shows "policy_ok p"
proof -
  obtain d where d: "v = PDict d"
    using assms by (cases v) (simp_all add: validate_channel_encryption_policy_def)
  let ?mode = "dict_get_or d ''mode'' (pkey ''plaintext'')" and ?state = "dict_get_or d ''state'' (pkey ''plaintext'')"
  have mode: "in_set ?mode (map PStr policy_modes) = Inr True"
    and state: "in_set ?state (map PStr E2EE_ROOM_STATES) = Inr True"
    and rest: "snowflake_range (pol_generation p)" "opt_range (pol_epoch p)" "opt_length (pol_protocol p) 32"
      "opt_length (pol_suite p) 96" "opt_length (pol_group_id p) 128" "policy_error p = None"
      "pol_mode p = the (as_str ?mode)" "pol_state p = the (as_str ?state)"
    using assms
    by (auto simp: d validate_channel_encryption_policy_def result_simps Let_def opt_range_def identifier_ok_iff policy_epoch_def
        dest: wire_integer_range split: if_splits option.splits)
  from mode state obtain m s where "?mode = PStr m" "m \<in> {ucs ''plaintext'', ucs ''e2ee''}" "?state = PStr s" "s \<in> set E2EE_ROOM_STATES"
    unfolding in_set_strings by (auto simp: policy_modes_def)
  then show ?thesis using rest by (simp add: policy_ok_def as_str_def)
qed

lemma room_states_nonempty: "s \<in> set E2EE_ROOM_STATES \<Longrightarrow> s \<noteq> []"
  by (auto simp: E2EE_ROOM_STATES_def ucs_def)

lemma payload_store:
  assumes "policy_ok p"
  shows "channel_encryption_policy_payload (store_policy p c) =
     PDict [(pkey ''mode'', PStr (pol_mode p)), (pkey ''state'', PStr (pol_state p)),
       (pkey ''generation'', PStr (ucs (string_of_int (pol_generation p)))),
       (pkey ''protocol'', opt_str (pol_protocol p)), (pkey ''suite'', opt_str (pol_suite p)),
       (pkey ''group_id'', opt_str (pol_group_id p)), (pkey ''epoch'', opt_int (pol_epoch p))]"
proof -
  have "pol_mode p \<noteq> []" "pol_state p \<noteq> []"
    using assms room_states_nonempty by (auto simp: policy_ok_def ucs_def)
  then show ?thesis by (simp add: channel_encryption_policy_payload_def store_policy_def str_or_def Let_def)
qed

lemma current_store:
  assumes "policy_ok p"
  shows "current_policy (store_policy p c) = Inr p"
proof -
  have epoch: "policy_epoch (opt_int (pol_epoch p)) = Inr (pol_epoch p)"
    using assms by (cases "pol_epoch p") (auto simp: policy_epoch_def opt_int_def policy_ok_def opt_range_def wire_integer_str)
  have mode: "pol_mode p \<in> set policy_modes" using assms by (auto simp: policy_ok_def policy_modes_def)
  have eta: "\<lparr>pol_mode = pol_mode p, pol_state = pol_state p, pol_generation = pol_generation p, pol_protocol = pol_protocol p,
      pol_suite = pol_suite p, pol_group_id = pol_group_id p, pol_epoch = pol_epoch p\<rparr> = p" by simp
  show ?thesis
    using assms mode by (simp add: eta payload_store validate_channel_encryption_policy_def dict_literals epoch policy_ok_def wire_integer_str Let_def)
qed

lemma current_activated: "current_policy (c\<lparr>ch_encryption_activated_at := x\<rparr>) = current_policy c"
  by (simp add: channel_encryption_policy_payload_def)

section \<open>The order of policies\<close>

text \<open>
  How far a room has come within a generation, and the order accepted updates follow: encryption is kept, generations do not
  regress, and within a generation only the state advances.
\<close>

definition state_rank :: "ustr \<Rightarrow> nat" where
  "state_rank s = (if s = ucs ''activating'' then 1 else if s = ucs ''active'' then 2
     else if s \<in> {ucs ''rekeying'', ucs ''failed''} then 3 else 0)"

definition policy_advances :: "policy \<Rightarrow> policy \<Rightarrow> bool" where
  "policy_advances p q \<longleftrightarrow>
     (pol_mode p = ucs ''e2ee'' \<longrightarrow> pol_mode q = ucs ''e2ee'') \<and>
     (p = q \<or> pol_generation p < pol_generation q \<or>
      pol_generation p = pol_generation q \<and> pol_protocol p = pol_protocol q \<and> pol_suite p = pol_suite q \<and>
        pol_group_id p = pol_group_id q \<and> state_rank (pol_state p) < state_rank (pol_state q))"

lemma policy_advances_refl: "policy_advances p p"
  by (simp add: policy_advances_def)

lemma policy_advances_trans: "policy_advances p q \<Longrightarrow> policy_advances q r \<Longrightarrow> policy_advances p r"
  unfolding policy_advances_def by auto

lemma policy_advances_antisym: "policy_advances p q \<Longrightarrow> policy_advances q p \<Longrightarrow> p = q"
  unfolding policy_advances_def by auto

lemma allowed_rank: "(s, t) \<in> set allowed_same_generation \<Longrightarrow> state_rank s < state_rank t"
  unfolding allowed_same_generation_def by (auto simp: state_rank_def)

lemma transition_advances: "transition_error p q = None \<Longrightarrow> policy_advances p q"
  using allowed_rank [of "pol_state p" "pol_state q"]
  by (auto simp: transition_error_def policy_advances_def split: if_splits)

lemma transition_Inr:
  "validate_channel_encryption_policy_transition c q label = Inr u \<longleftrightarrow>
     (\<exists>p. current_policy c = Inr p \<and> transition_error p q = None)"
  by (auto simp: validate_channel_encryption_policy_transition_def result_simps split: option.splits)

lemma classify_Inr:
  "classify_channel_encryption_policy_update c q label = Inr k \<longleftrightarrow>
     (\<exists>p. current_policy c = Inr p \<and>
        (if pol_generation q < pol_generation p then k = Stale else if q = p then k = Current
         else k = Apply \<and> transition_error p q = None))"
proof (cases "current_policy c")
  case (Inr p)
  have "validate_channel_encryption_policy_transition c q label = (case transition_error p q of Some e \<Rightarrow> Inl (ValueError (label @ e)) | None \<Rightarrow> Inr ())"
    by (simp add: validate_channel_encryption_policy_transition_def Inr)
  then show ?thesis unfolding classify_channel_encryption_policy_update_def Inr rbind_simps by (auto split: option.splits)
qed (simp add: classify_channel_encryption_policy_update_def)

lemma generated_identifiers:
  "policy_ok p \<Longrightarrow> pol_epoch p \<noteq> None \<Longrightarrow> pol_protocol p \<noteq> None \<and> pol_suite p \<noteq> None \<and> pol_group_id p \<noteq> None"
  by (auto simp: policy_ok_def policy_error_def split: if_splits)

text \<open>An accepted delivery stores an advanced policy, or nothing.\<close>

lemma deliver_advances:
  assumes "deliver e c = Inr c'" and cur: "current_policy c = Inr p"
  shows "\<exists>q. current_policy c' = Inr q \<and> policy_advances p q"
proof -
  have stored: "\<exists>q. current_policy (store_policy q' c) = Inr q \<and> policy_advances p q"
    if "validate_channel_encryption_policy v = Inr q'" "validate_channel_encryption_policy_transition c q' label = Inr u"
    for v q' label u
    using that cur validate_policy_ok current_store transition_advances by (fastforce simp: transition_Inr)
  have replicated: "\<exists>q. current_policy c' = Inr q \<and> policy_advances p q" if "replicated_policy_update v label c = Inr c'" for v label
    using that stored by (auto simp: replicated_policy_update_def result_simps)
  show ?thesis
  proof (cases e)
    case (DmPolicy event_origin authority raw created_at)
    then show ?thesis
      using assms policy_advances_refl stored
      by (fastforce simp: deliver_def dm_policy_update_def result_simps Let_def current_activated split: if_splits)
  next
    case (RoomPolicy raw membership)
    then obtain q k where q: "validate_channel_encryption_policy raw = Inr q"
      and k: "classify_channel_encryption_policy_update c q ''E2EE room'' = Inr k"
      and c': "k \<noteq> Apply \<and> c' = c \<or> k = Apply \<and> c' = store_policy q c"
      using assms by (auto simp: deliver_def room_policy_update_def result_simps split: if_splits)
    then show ?thesis
      using cur policy_advances_refl stored [OF q, of "''E2EE room''"]
      by (auto simp: classify_Inr transition_Inr split: if_splits)
  next
    case (RemoteActivePolicy fromisoformat rendered now)
    then obtain v q epoch x where q: "validate_channel_encryption_policy v = Inr q"
      "validate_channel_encryption_policy_transition c q ''proxied room'' = Inr ()" "pol_epoch q = Some epoch"
      and c': "c' = (store_policy (q\<lparr>pol_protocol := Some (str_option (pol_protocol q)), pol_suite := Some (str_option (pol_suite q)),
          pol_group_id := Some (str_option (pol_group_id q)), pol_epoch := Some epoch\<rparr>) c)\<lparr>ch_encryption_activated_at := Some x\<rparr>"
      using assms by (auto simp: deliver_def apply_remote_active_policy_def result_simps split: option.splits)
    have "q\<lparr>pol_protocol := Some (str_option (pol_protocol q)), pol_suite := Some (str_option (pol_suite q)),
        pol_group_id := Some (str_option (pol_group_id q)), pol_epoch := Some epoch\<rparr> = q"
      using generated_identifiers [OF validate_policy_ok [OF q(1)]] q(3) by (auto simp: str_option_def)
    then show ?thesis using stored [OF q(1,2)] unfolding c' current_activated by simp
  qed (use assms(1) replicated in \<open>auto simp: deliver_def conversation_policy_update_def channel_mutation_policy_update_def
      snapshot_policy_update_def Let_def\<close>)
qed

lemma deliver_all_append: "deliver_all c (es @ fs) = deliver_all (deliver_all c es) fs"
  by (induction es arbitrary: c) auto

lemma deliver_all_advances:
  "current_policy c = Inr p \<Longrightarrow> \<exists>q. current_policy (deliver_all c es) = Inr q \<and> policy_advances p q"
proof (induction es arbitrary: c p)
  case Nil
  then show ?case by (simp add: policy_advances_refl)
next
  case (Cons e es)
  show ?case
  proof (cases "deliver e c")
    case (Inl x)
    then show ?thesis using Cons by simp
  next
    case (Inr c')
    then obtain q where q: "current_policy c' = Inr q" "policy_advances p q" using deliver_advances Cons.prems by blast
    then show ?thesis using Inr Cons.IH [OF q(1)] policy_advances_trans by fastforce
  qed
qed

lemma prefix_policies_chain:
  assumes q: "prefix fs es" "current_policy (deliver_all c fs) = Inr q" and r: "prefix gs es" "current_policy (deliver_all c gs) = Inr r"
  shows "policy_advances q r \<or> policy_advances r q"
proof -
  have step: "policy_advances x y"
    if pre: "prefix us vs" and x: "current_policy (deliver_all c us) = Inr x" and y: "current_policy (deliver_all c vs) = Inr y" for us vs x y
  proof -
    obtain zs where "vs = us @ zs" using pre by (rule prefixE)
    then show ?thesis using deliver_all_advances [OF x, of zs] y by (auto simp: deliver_all_append)
  qed
  have "prefix fs gs \<or> prefix gs fs" using q(1) r(1) by (rule prefix_same_cases)
  then show ?thesis using step q(2) r(2) by blast
qed

lemma state_rank_le: "state_rank s \<le> 3"
  by (simp add: state_rank_def)

lemma rank_inj: "policy_advances q r \<or> policy_advances r q \<Longrightarrow> pol_generation q = pol_generation r \<Longrightarrow>
    state_rank (pol_state q) = state_rank (pol_state r) \<Longrightarrow> q = r"
  unfolding policy_advances_def by auto

lemma string_of_int_not_None: "string_of_int i \<noteq> ''None''"
proof
  assume eq: "string_of_int i = ''None''"
  have "CHR ''N'' \<notin> set (string_of_int i)" by (rule string_of_int_chars) (simp_all add: is_digit_def)
  then show False unfolding eq by simp
qed

lemma encrypted_message_Inr:
  "0 < g \<Longrightarrow> validate_message_encryption_policy (ucs ''e2ee'') content e False g epoch group_id = Inr u \<longleftrightarrow>
     content = PNone \<and> (\<exists>d. e = PDict d \<and> py_eq (dict_get d ''version'') (PInt 2) \<and>
       dict_get d ''policy_generation'' = pkey (string_of_int g) \<and>
       dict_get d ''epoch'' = PStr (case epoch of None \<Rightarrow> ucs ''None'' | Some n \<Rightarrow> ucs (string_of_int n)) \<and>
       py_eq (dict_get d ''group_id'') (opt_str group_id))"
  by (cases e) (auto simp: validate_message_encryption_policy_def py_eq_PInt)

lemma py_eq_opt_str: "py_eq v (opt_str x) \<longleftrightarrow> v = opt_str x"
  by (cases x; cases v) (auto simp: opt_str_def number_of_def)

lemma opt_str_inject: "opt_str x = opt_str y \<longleftrightarrow> x = y"
  by (cases x; cases y) (auto simp: opt_str_def)

lemma epoch_text_inject:
  "(case x of None \<Rightarrow> ucs ''None'' | Some n \<Rightarrow> ucs (string_of_int n)) = (case y of None \<Rightarrow> ucs ''None'' | Some n \<Rightarrow> ucs (string_of_int n)) \<longleftrightarrow> x = y"
  using string_of_int_not_None string_of_int_not_None [symmetric] by (auto split: option.splits)

definition sample_policy :: "string \<Rightarrow> string \<Rightarrow> (pyval \<times> pyval) list" where
  "sample_policy mode state = [(pkey ''mode'', pkey mode), (pkey ''state'', pkey state), (pkey ''generation'', pkey ''1''),
     (pkey ''protocol'', PStr E2EE_PROTOCOL_MLS_10), (pkey ''suite'', PStr E2EE_SUITE_MLS_128), (pkey ''group_id'', pkey ''g'')]"

definition sample_encrypted :: policy where
  "sample_encrypted = \<lparr>pol_mode = ucs ''e2ee'', pol_state = ucs ''active'', pol_generation = 1, pol_protocol = Some E2EE_PROTOCOL_MLS_10,
     pol_suite = Some E2EE_SUITE_MLS_128, pol_group_id = Some (ucs ''g''), pol_epoch = Some 4\<rparr>"

definition fresh_channel :: "unit channel" where
  "fresh_channel = \<lparr>ch_encryption_mode = Some (ucs ''plaintext''), ch_encryption_state = Some (ucs ''plaintext''),
     ch_encryption_policy_generation = Some 0, ch_encryption_protocol = None, ch_encryption_suite = None,
     ch_encryption_group_id = None, ch_encryption_epoch = None, ch_encryption_activated_at = None\<rparr>"

definition fresh_policy :: policy where
  "fresh_policy = \<lparr>pol_mode = ucs ''plaintext'', pol_state = ucs ''plaintext'', pol_generation = 0, pol_protocol = None,
     pol_suite = None, pol_group_id = None, pol_epoch = None\<rparr>"

lemma sample_encrypted_ok: "policy_ok sample_encrypted"
  by (simp add: sample_encrypted_def policy_ok_def opt_range_def opt_length_def snowflake_range_def policy_error_def E2EE_ROOM_STATES_def ucs_def)

definition rekeyed_policy :: policy where
  "rekeyed_policy = sample_encrypted\<lparr>pol_generation := 2, pol_epoch := Some 5\<rparr>"

definition sample_envelope :: "(pyval \<times> pyval) list" where
  "sample_envelope = [(pkey ''version'', PInt 2), (pkey ''policy_generation'', pkey ''1''), (pkey ''epoch'', pkey ''4''), (pkey ''group_id'', pkey ''g'')]"

lemma rekeyed_policy_ok: "policy_ok rekeyed_policy"
  by (simp add: rekeyed_policy_def sample_encrypted_def policy_ok_def opt_range_def opt_length_def snowflake_range_def policy_error_def
      E2EE_ROOM_STATES_def ucs_def)

lemma small_texts: "string_of_int 1 = ''1''" "string_of_int 4 = ''4''"
  by code_simp+

lemma deliver_room:
  assumes "current_policy c = Inr p" "policy_ok q" "transition_error p q = None" "\<not> pol_generation q < pol_generation p" "q \<noteq> p"
  shows "deliver_all c [RoomPolicy (channel_encryption_policy_payload (store_policy q c0)) (Inr True)] = store_policy q c"
proof -
  have "classify_channel_encryption_policy_update c q ''E2EE room'' = Inr Apply" using assms by (simp add: classify_Inr)
  then show ?thesis by (simp add: deliver_def room_policy_update_def current_store [OF assms(2)])
qed

lemma fresh_policy_ok: "policy_ok fresh_policy"
  by (simp add: fresh_policy_def policy_ok_def opt_range_def opt_length_def snowflake_range_def policy_error_def E2EE_ROOM_STATES_def)

lemma fresh_channel_policy: "current_policy fresh_channel = Inr fresh_policy"
proof -
  have "fresh_channel = store_policy fresh_policy fresh_channel" by (simp add: fresh_channel_def fresh_policy_def store_policy_def)
  then show ?thesis using current_store [OF fresh_policy_ok] by metis
qed

section \<open>Properties\<close>

text \<open>
  C10: Whatever policies a room receives, in any order and on any of the six ways, its policy only advances: an encrypted room never
  becomes plaintext again, the generation never regresses, within a generation the protocol, the suite and the group are fixed, and a policy
  that was once replaced never comes back.
\<close>

theorem policy_history_monotone:
  assumes "current_policy c = Inr p"
  shows "\<exists>q r. current_policy (deliver_all c es) = Inr q \<and> current_policy (deliver_all c (es @ fs)) = Inr r \<and>
     pol_generation p \<le> pol_generation q \<and> (pol_mode p = ucs ''e2ee'' \<longrightarrow> pol_mode q = ucs ''e2ee'') \<and>
     (pol_generation q = pol_generation p \<longrightarrow>
        pol_protocol q = pol_protocol p \<and> pol_suite q = pol_suite p \<and> pol_group_id q = pol_group_id p) \<and>
     (q \<noteq> p \<longrightarrow> r \<noteq> p)"
proof -
  obtain q where q: "current_policy (deliver_all c es) = Inr q" "policy_advances p q"
    using deliver_all_advances [OF assms] by blast
  obtain r where r: "current_policy (deliver_all c (es @ fs)) = Inr r" "policy_advances q r"
    using deliver_all_advances [OF q(1)] by (auto simp: deliver_all_append)
  have "q \<noteq> p \<longrightarrow> r \<noteq> p" using q(2) r(2) policy_advances_antisym by blast
  then show ?thesis using q r by (auto simp: policy_advances_def)
qed

theorem policy_history_monotone_witness:
  "\<exists>q r. current_policy (deliver_all fresh_channel [RoomPolicy (PDict (sample_policy ''plaintext'' ''proposed'')) (Inr True)]) = Inr q \<and>
     current_policy (deliver_all fresh_channel ([RoomPolicy (PDict (sample_policy ''plaintext'' ''proposed'')) (Inr True)] @
       [DmPolicy [] [] PNone ()])) = Inr r \<and> pol_generation fresh_policy \<le> pol_generation q \<and> (q = fresh_policy \<or> r \<noteq> fresh_policy)"
  using policy_history_monotone [OF fresh_channel_policy, of "[RoomPolicy (PDict (sample_policy ''plaintext'' ''proposed'')) (Inr True)]"
      "[DmPolicy [] [] PNone ()]"] by blast

text \<open>
  C37: However many policies arrive, a room goes through at most four policies of any one generation.
\<close>

theorem policies_per_generation_bounded:
  "card {q. pol_generation q = g \<and> (\<exists>fs. prefix fs es \<and> current_policy (deliver_all c fs) = Inr q)} \<le> 4"
    (is "card ?Q \<le> 4")
proof -
  have "inj_on (\<lambda>q. state_rank (pol_state q)) ?Q"
  proof (rule inj_onI)
    fix q r assume mem: "q \<in> ?Q" "r \<in> ?Q" and rank: "state_rank (pol_state q) = state_rank (pol_state r)"
    from mem obtain fs gs where "prefix fs es" "current_policy (deliver_all c fs) = Inr q" "prefix gs es" "current_policy (deliver_all c gs) = Inr r"
      by auto
    then have "policy_advances q r \<or> policy_advances r q" by (rule prefix_policies_chain)
    then show "q = r" by (rule rank_inj) (use mem rank in auto)
  qed
  moreover have "(\<lambda>q. state_rank (pol_state q)) ` ?Q \<subseteq> {..3}" using state_rank_le by auto
  ultimately have "card ?Q \<le> card {..3::nat}" by (intro card_inj_on_le) auto
  then show ?thesis by simp
qed

text \<open>
  C13: In an encrypted room whose policy has a positive generation, an accepted envelope is refused once the room has moved, by any
  deliveries, to another generation, epoch or group: it cannot be replayed across policies. A legacy room, encrypted with generation
  0, compares no context, and nothing is claimed for an envelope accepted there.
\<close>

theorem envelope_bound_to_policy:
  assumes "current_policy c = Inr p" "pol_mode p = ucs ''e2ee''" "0 < pol_generation p"
    and "validate_message_encryption_policy (pol_mode p) content e False (pol_generation p) (pol_epoch p) (pol_group_id p) = Inr ()"
    and "current_policy (deliver_all c es) = Inr q"
    and "(pol_generation q, pol_epoch q, pol_group_id q) \<noteq> (pol_generation p, pol_epoch p, pol_group_id p)"
  shows "validate_message_encryption_policy (pol_mode q) content e False (pol_generation q) (pol_epoch q) (pol_group_id q) =
     Inl (ValueError ''E2EE_POLICY_CONTEXT_MISMATCH'')"
proof -
  have adv: "policy_advances p q" using deliver_all_advances [OF assms(1), of es] assms(5) by auto
  then have q: "pol_mode q = ucs ''e2ee''" "0 < pol_generation q" using assms(2,3) by (auto simp: policy_advances_def)
  obtain d where d: "content = PNone" "e = PDict d" "py_eq (dict_get d ''version'') (PInt 2)"
    "dict_get d ''policy_generation'' = pkey (string_of_int (pol_generation p))"
    "dict_get d ''epoch'' = PStr (case pol_epoch p of None \<Rightarrow> ucs ''None'' | Some n \<Rightarrow> ucs (string_of_int n))"
    "dict_get d ''group_id'' = opt_str (pol_group_id p)"
    using assms(4) by (auto simp: assms(2) encrypted_message_Inr [OF assms(3)] py_eq_opt_str)
  have "pol_generation q = pol_generation p \<Longrightarrow> pol_epoch q = pol_epoch p \<Longrightarrow> pol_group_id q \<noteq> pol_group_id p"
    using assms(6) by simp
  then show ?thesis
    unfolding validate_message_encryption_policy_def
    using q d by (auto simp: py_eq_PInt py_eq_opt_str opt_str_inject epoch_text_inject)
qed

theorem envelope_bound_to_policy_witness:
  "validate_message_encryption_policy (pol_mode rekeyed_policy) PNone (PDict sample_envelope) False (pol_generation rekeyed_policy)
     (pol_epoch rekeyed_policy) (pol_group_id rekeyed_policy) = Inl (ValueError ''E2EE_POLICY_CONTEXT_MISMATCH'')"
proof (rule envelope_bound_to_policy)
  let ?c = "store_policy sample_encrypted fresh_channel"
  show cur: "current_policy ?c = Inr sample_encrypted" by (rule current_store [OF sample_encrypted_ok])
  show "current_policy (deliver_all ?c [RoomPolicy (channel_encryption_policy_payload (store_policy rekeyed_policy fresh_channel)) (Inr True)]) =
      Inr rekeyed_policy"
  proof -
    have "transition_error sample_encrypted rekeyed_policy = None" "\<not> pol_generation rekeyed_policy < pol_generation sample_encrypted"
      "rekeyed_policy \<noteq> sample_encrypted"
      by (simp_all add: transition_error_def sample_encrypted_def rekeyed_policy_def)
    note room = deliver_room [OF cur rekeyed_policy_ok this]
    show ?thesis unfolding room by (rule current_store [OF rekeyed_policy_ok])
  qed
qed (simp_all add: sample_encrypted_def rekeyed_policy_def sample_envelope_def validate_message_encryption_policy_def dict_literals
    small_texts py_eq_PInt opt_str_def)

text \<open>
  C34: A policy the validator accepts reads back from the channel it is stored in as itself, and a second delivery of it is recognised as
  current. The check constraints of the table hold for it, except for one shape the validator accepts and the table refuses: a proposed policy whose mode
  is already encrypted.
\<close>

theorem accepted_policy_stored_exactly:
  assumes "validate_channel_encryption_policy v = Inr p"
  shows "current_policy (store_policy p c) = Inr p \<and>
     classify_channel_encryption_policy_update (store_policy p c) p label = Inr Current \<and>
     (channel_constraints (store_policy p c) \<longleftrightarrow> \<not> (pol_state p = ucs ''proposed'' \<and> pol_mode p = ucs ''e2ee''))"
proof -
  have ok: "policy_ok p" by (rule validate_policy_ok [OF assms])
  have cur: "current_policy (store_policy p c) = Inr p" by (rule current_store [OF ok])
  have "channel_constraints (store_policy p c) \<longleftrightarrow> \<not> (pol_state p = ucs ''proposed'' \<and> pol_mode p = ucs ''e2ee'')"
    using ok by (auto simp: channel_constraints_def store_policy_def policy_ok_def policy_error_def opt_range_def snowflake_range_def
        E2EE_ROOM_STATES_def split: if_splits option.splits)
  then show ?thesis using cur by (simp add: classify_Inr)
qed

theorem accepted_policy_stored_exactly_witness:
  "\<not> channel_constraints (store_policy (sample_encrypted\<lparr>pol_state := ucs ''proposed''\<rparr>) fresh_channel) \<and>
   channel_constraints (store_policy sample_encrypted fresh_channel)"
proof -
  have "policy_ok (sample_encrypted\<lparr>pol_state := ucs ''proposed''\<rparr>)"
    by (simp add: sample_encrypted_def policy_ok_def opt_range_def opt_length_def snowflake_range_def policy_error_def E2EE_ROOM_STATES_def ucs_def)
  note stored = accepted_policy_stored_exactly [OF current_store [OF this], of fresh_channel]
    accepted_policy_stored_exactly [OF current_store [OF sample_encrypted_ok], of fresh_channel]
  have "pol_mode sample_encrypted = ucs ''e2ee''" "pol_state sample_encrypted = ucs ''active''" by (simp_all add: sample_encrypted_def)
  then show ?thesis using stored by simp
qed

end
