(* ===== verification/Federation_Events.thy ===== *)
theory Federation_Events
  imports Channel_Encryption
begin

text \<open>
  The event contracts of federation (\<open>core/federation.py\<close>) with the keys of direct-message conversations (\<open>core/dm.py\<close>): what a block
  holds back, and the recognisers of events that an authority may sign for a remote actor or that are durable deletion controls. A received
  value is a \<open>pyval\<close>, and a recogniser returns a reference, nothing, or the exception it raises.
\<close>

section \<open>Checks\<close>

text \<open>
  The recognisers are long conditions read from left to right, in which a conversion or a set membership may raise. \<open>any_of\<close> is
  \<open>or\<close> and \<open>all_of\<close> is \<open>and\<close> over such conditions; \<open>refuse_if\<close> is \<open>if ...: return None\<close>.
\<close>

primrec any_of :: "bool result list \<Rightarrow> bool result" where
  "any_of [] = Inr False"
| "any_of (c # cs) = rbind c (\<lambda>b. if b then Inr True else any_of cs)"

primrec all_of :: "bool result list \<Rightarrow> bool result" where
  "all_of [] = Inr True"
| "all_of (c # cs) = rbind c (\<lambda>b. if b then all_of cs else Inr False)"

definition refuse_if :: "bool result list \<Rightarrow> 'a option result \<Rightarrow> 'a option result" where
  "refuse_if conditions k = rbind (any_of conditions) (\<lambda>b. if b then Inr None else k)"

text \<open>\<open>x.get(name)\<close>, \<open>isinstance(x, dict)\<close>, \<open>isinstance(x, str)\<close> and \<open>set(x) == {...}\<close> of a value that should be a dictionary.\<close>

definition get :: "pyval \<Rightarrow> string \<Rightarrow> pyval" where
  "get v name = (case v of PDict d \<Rightarrow> dict_get d name | _ \<Rightarrow> PNone)"

definition is_dict :: "pyval \<Rightarrow> bool" where
  "is_dict v = (case v of PDict _ \<Rightarrow> True | _ \<Rightarrow> False)"

definition is_str :: "pyval \<Rightarrow> bool" where
  "is_str v = (case v of PStr _ \<Rightarrow> True | _ \<Rightarrow> False)"

definition keys_are :: "pyval \<Rightarrow> string list \<Rightarrow> bool" where
  "keys_are v names = (case v of PDict d \<Rightarrow> has_keys d names | _ \<Rightarrow> False)"

text \<open>
  The tests on identifiers: \<open>not_decimal\<close> covers the type, ASCII, digit and leading zero tests, \<open>int_text\<close> is \<open>int(x)\<close> after them. A
  text that matches \<open>DOMAIN_RE\<close> is lower-case and has no final dot, so \<open>not_domain\<close> covers these two tests too.
\<close>

definition not_decimal :: "pyval \<Rightarrow> bool" where
  "not_decimal v = (case v of PStr s \<Rightarrow> \<not> canonical_decimal s | _ \<Rightarrow> True)"

definition int_text :: "pyval \<Rightarrow> int result" where
  "int_text v = (case v of PStr s \<Rightarrow> int_of_decimal s | _ \<Rightarrow> Inr 0)"

definition id_exceeds :: "pyval \<Rightarrow> bool result" where
  "id_exceeds v = rbind (int_text v) (\<lambda>n. Inr (MAX_SNOWFLAKE < n))"

definition not_positive :: "pyval \<Rightarrow> bool result" where
  "not_positive v = rbind (int_text v) (\<lambda>n. Inr (\<not> (1 \<le> n \<and> n \<le> MAX_SNOWFLAKE)))"

definition not_domain :: "pyval \<Rightarrow> bool" where
  "not_domain v = (case v of PStr s \<Rightarrow> \<not> DOMAIN_RE s | _ \<Rightarrow> True)"

section \<open>Policy of outbound delivery\<close>

definition block_covers_domain :: "ustr \<Rightarrow> bool \<Rightarrow> ustr \<Rightarrow> bool" where
  "block_covers_domain block_domain include_subdomains destination \<longleftrightarrow>
     destination = block_domain \<or> include_subdomains \<and> suffix (ucs ''.'' @ block_domain) destination"

definition federation_event_has_guild_context :: "ustr \<Rightarrow> pyval \<Rightarrow> bool" where
  "federation_event_has_guild_context event_type context1 \<longleftrightarrow>
     prefix (ucs ''guild.'') event_type \<or>
     is_dict context1 \<and>
       (get context1 ''guild_id'' \<noteq> PNone \<and> get context1 ''guild_domain'' \<noteq> PNone \<or>
        is_dict (get context1 ''scope'') \<and> py_eq (get (get context1 ''scope'') ''type'') (pkey ''guild''))"

definition federation_policy_holds_event :: "ustr \<Rightarrow> ustr \<Rightarrow> pyval \<Rightarrow> bool" where
  "federation_policy_holds_event level event_type context1 \<longleftrightarrow>
     level = ucs ''suspend'' \<or> level = ucs ''silence'' \<and> federation_event_has_guild_context event_type context1"

section \<open>Guild events\<close>

definition GUILD_MUTATION_EVENT_TYPES :: "string list" where
  "GUILD_MUTATION_EVENT_TYPES =
     [''guild.update'', ''guild.channel.create'', ''guild.channel.update'', ''guild.channel.delete'', ''guild.forum.cursor.update'',
      ''guild.tracker.board.invalidate'', ''guild.thread.member.upsert'', ''guild.thread.member.delete'', ''guild.role.create'',
      ''guild.role.update'', ''guild.role.delete'', ''guild.emoji.create'', ''guild.emoji.update'', ''guild.emoji.delete'',
      ''guild.sticker.create'', ''guild.sticker.update'', ''guild.sticker.delete'', ''guild.stage.instance.create'',
      ''guild.stage.instance.update'', ''guild.stage.instance.delete'', ''guild.scheduled_event.create'',
      ''guild.scheduled_event.update'', ''guild.scheduled_event.delete'', ''guild.scheduled_event.user.add'',
      ''guild.scheduled_event.user.remove'', ''guild.soundboard.sound.create'', ''guild.soundboard.sound.update'',
      ''guild.soundboard.sound.delete'', ''guild.soundboard.sounds.update'', ''guild.voice_channel_status.update'',
      ''guild.voice_channel_start_time.update'', ''guild.automod.rule.create'', ''guild.automod.rule.update'',
      ''guild.automod.rule.delete'', ''guild.automod.execution'', ''guild.overwrite.upsert'', ''guild.overwrite.delete'',
      ''guild.member.update'', ''guild.member.profile.relay'', ''guild.member.remove'', ''guild.members.origin.remove'',
      ''guild.member.role.add'', ''guild.member.role.remove'', ''guild.ban.add'', ''guild.ban.remove'', ''guild.message.update'',
      ''guild.message.delete'', ''guild.message.bulk_delete'', ''guild.message.purge'', ''guild.reaction.add'',
      ''guild.reaction.remove'', ''guild.reaction.clear'', ''guild.poll.vote.add'', ''guild.poll.vote.remove'',
      ''guild.poll.finalize'', ''guild.pin.add'', ''guild.pin.remove'']"

definition AUTHORITY_ATTESTED_GUILD_OWNER_EVENT_TYPES :: "string list" where
  "AUTHORITY_ATTESTED_GUILD_OWNER_EVENT_TYPES = GUILD_MUTATION_EVENT_TYPES @
     [''announcement.crosspost.sync'', ''guild.access.revoked'', ''guild.announcement.follow.authorized'',
      ''guild.announcement.follow.accepted'', ''guild.announcement.follow.finalized'', ''guild.announcement.follow.rejected'',
      ''guild.announcement.follow.revoked'', ''guild.announcement.follow.updated'', ''guild.announcement.follow.source_authorized'',
      ''guild.audit-log.page'', ''guild.event.redacted'', ''guild.instance_access.revoked'', ''guild.member.add'',
      ''guild.message.committed'', ''guild.resync.required'', ''guild.soundboard.play'', ''guild.soundboard.query'',
      ''guild.soundboard.source-capability'', ''message.send_rejected'']"

definition DURABLE_LATEST_STATE_EVENTS :: "string list" where
  "DURABLE_LATEST_STATE_EVENTS =
     [''developer.team.snapshot'', ''bot.application.runtime.changed'', ''bot.application.target.changed'',
      ''bot.dm.installation-capability'', ''e2ee.device-list.changed'', ''e2ee.room-policy.changed'',
      ''guild.announcement.follow.accepted'', ''guild.announcement.follow.finalized'', ''guild.announcement.follow.rejected'',
      ''guild.announcement.follow.revoked'', ''guild.announcement.follow.updated'']"

definition terminal_room_generation :: "pyval \<Rightarrow> int result" where
  "terminal_room_generation envelope =
     (let raw_generation = get (get envelope ''content'') ''_terminal_generation''
      in if not_decimal raw_generation then Inl (ValueError ''terminal-room generation is invalid'')
         else rbind (int_text raw_generation) (\<lambda>generation.
           if \<not> (1 \<le> generation \<and> generation \<le> MAX_SNOWFLAKE) then Inl (ValueError ''terminal-room generation is invalid'')
           else Inr generation))"

definition authority_attested_terminal_guild_actor ::
  "pyval \<Rightarrow> pyval \<Rightarrow> pyval \<Rightarrow> ustr \<Rightarrow> pyval \<Rightarrow> pyval \<Rightarrow> bool result" where
  "authority_attested_terminal_guild_actor event_type content context1 expected_authority actor_id actor_domain =
     all_of
       [Inr (py_eq event_type (pkey ''guild.instance_access.revoked'')),
        Inr (keys_are context1 [''guild_id'', ''guild_domain'']),
        Inr (py_eq (get context1 ''guild_domain'') (PStr expected_authority)),
        Inr (keys_are content [''target_domain'', ''reason'', ''_terminal_generation'']),
        Inr (py_eq (get content ''reason'') (pkey ''guild_deleted'')),
        Inr (\<not> not_domain (get content ''target_domain'')),
        Inr (\<not> not_decimal actor_id),
        rbind (id_exceeds actor_id) (\<lambda>b. Inr (\<not> b)),
        Inr (\<not> not_domain actor_domain)]"

definition guild_authority_event_ref :: "pyval \<Rightarrow> pyval \<Rightarrow> ustr \<Rightarrow> (int \<times> ustr) option result" where
  "guild_authority_event_ref event_type context1 expected_authority =
     rbind (in_set event_type (map PStr (map ucs AUTHORITY_ATTESTED_GUILD_OWNER_EVENT_TYPES))) (\<lambda>known.
       if \<not> known \<or> \<not> is_dict context1 then Inr None
       else
         let raw_guild_id = get context1 ''guild_id''
         in refuse_if
              [Inr (not_decimal raw_guild_id), id_exceeds raw_guild_id,
               Inr (\<not> py_eq (get context1 ''guild_domain'') (PStr expected_authority))]
              (rbind (int_text raw_guild_id) (\<lambda>guild_id. Inr (Some (guild_id, expected_authority)))))"

definition authority_attested_guild_owner_actor ::
  "pyval \<Rightarrow> pyval \<Rightarrow> ustr \<Rightarrow> int \<Rightarrow> int \<times> ustr \<Rightarrow> int \<times> ustr \<Rightarrow> bool result" where
  "authority_attested_guild_owner_actor event_type context1 expected_authority expected_guild_id expected_owner actor =
     rbind (guild_authority_event_ref event_type context1 expected_authority) (\<lambda>event_ref.
       Inr (event_ref = Some (expected_guild_id, expected_authority) \<and> actor = expected_owner))"

definition guild_message_authority_event_refs :: "pyval \<Rightarrow> pyval \<Rightarrow> pyval \<Rightarrow> ustr \<Rightarrow> (int \<times> ustr \<times> int \<times> ustr) option result" where
  "guild_message_authority_event_refs event_type content context1 expected_authority =
     (let raw_guild_id = get context1 ''guild_id''; message = get content ''message'';
          raw_author_id = get message ''author_id''; author_domain = get message ''author_domain''
      in refuse_if
           [Inr (\<not> py_eq event_type (pkey ''guild.message.create'')),
            Inr (\<not> is_dict context1), Inr (\<not> py_eq (get context1 ''guild_domain'') (PStr expected_authority)),
            Inr (not_decimal raw_guild_id), id_exceeds raw_guild_id,
            Inr (\<not> is_dict content), Inr (\<not> is_dict message),
            Inr (not_decimal raw_author_id), id_exceeds raw_author_id, Inr (not_domain author_domain)]
           (rbind (int_text raw_guild_id) (\<lambda>guild_id. rbind (int_text raw_author_id) (\<lambda>author_id.
              Inr (Some (guild_id, expected_authority, author_id, the (as_str author_domain)))))))"

text \<open>The nested \<open>canonical_id\<close> and \<open>canonical_domain\<close> of the crosspost recogniser.\<close>

definition canonical_id :: "pyval \<Rightarrow> int option result" where
  "canonical_id v = refuse_if [Inr (not_decimal v), id_exceeds v] (rbind (int_text v) (\<lambda>n. Inr (Some n)))"

definition canonical_domain :: "pyval \<Rightarrow> ustr option" where
  "canonical_domain v = (if not_domain v then None else as_str v)"

definition entity_text :: "int \<Rightarrow> ustr \<Rightarrow> ustr" where
  "entity_text n domain = ucs (string_of_int n) @ ucs ''@'' @ domain"

definition crosspost_reference :: "int \<Rightarrow> ustr \<Rightarrow> int \<Rightarrow> ustr \<Rightarrow> pyval" where
  "crosspost_reference message_id message_domain channel_id channel_domain =
     PDict [(pkey ''type'', PInt 0), (pkey ''message_id'', pkey (string_of_int message_id)), (pkey ''message_domain'', PStr message_domain),
            (pkey ''channel_id'', pkey (string_of_int channel_id)), (pkey ''channel_domain'', PStr channel_domain)]"

definition crosspost_shape :: "pyval \<Rightarrow> pyval \<Rightarrow> pyval \<Rightarrow> ustr \<Rightarrow> bool" where
  "crosspost_shape event_type content context1 expected_authority \<longleftrightarrow>
     (let message = get content ''message''; author = get content ''author'';
          flags = (case message of PDict m \<Rightarrow> dict_get_or m ''flags'' (PInt 0) | _ \<Rightarrow> PNone)
      in py_eq event_type (pkey ''guild.message.create'') \<and> keys_are content [''message'', ''author'', ''thread_starter''] \<and>
         get content ''thread_starter'' = PBool False \<and> is_dict message \<and> is_dict author \<and>
         (case flags of PInt i \<Rightarrow> i AND push_bit 1 1 \<noteq> 0 | _ \<Rightarrow> False) \<and>
         py_eq (get message ''message_type'') (PInt 0) \<and> py_eq (get message ''origin_domain'') (PStr expected_authority) \<and>
         py_eq (get message ''channel_domain'') (PStr expected_authority) \<and> get message ''forward_snapshot'' = PNone \<and>
         is_dict context1 \<and> py_eq (get context1 ''guild_domain'') (PStr expected_authority))"

definition guild_crosspost_authority_event_ref :: "pyval \<Rightarrow> pyval \<Rightarrow> pyval \<Rightarrow> ustr \<Rightarrow> (int \<times> ustr) option result" where
  "guild_crosspost_authority_event_ref event_type content context1 expected_authority =
     (if \<not> crosspost_shape event_type content context1 expected_authority then Inr None
      else
        let message = get content ''message''; author = get content ''author''
        in rbind (canonical_id (get context1 ''guild_id'')) (\<lambda>guild_id.
           rbind (canonical_id (get message ''id'')) (\<lambda>target_message_id.
           rbind (canonical_id (get message ''channel_id'')) (\<lambda>target_channel_id.
           rbind (canonical_id (get message ''forwarded_message_id'')) (\<lambda>source_message_id.
           rbind (canonical_id (get message ''forwarded_channel_id'')) (\<lambda>source_channel_id.
           rbind (canonical_id (get message ''author_id'')) (\<lambda>author_id.
           case (guild_id, target_message_id, target_channel_id, source_message_id, source_channel_id, author_id,
                 canonical_domain (get message ''forwarded_message_domain''), canonical_domain (get message ''forwarded_channel_domain''),
                 canonical_domain (get message ''author_domain'')) of
             (Some guild, Some target_message, Some target_channel, Some source_message, Some source_channel, Some author1,
              Some source_message_domain, Some source_channel_domain, Some author_domain) \<Rightarrow>
               if \<not> py_eq (get context1 ''channel_id'') (pkey (string_of_int target_channel)) \<or>
                  \<not> py_eq (get context1 ''channel_domain'') (PStr expected_authority) \<or>
                  \<not> py_eq (get author ''id'') (pkey (string_of_int author1)) \<or>
                  \<not> py_eq (get author ''origin_domain'') (PStr author_domain) \<or>
                  \<not> py_eq (get message ''forwarded_message_ref'') (PStr (entity_text source_message source_message_domain)) \<or>
                  \<not> py_eq (get message ''message_reference'')
                     (crosspost_reference source_message source_message_domain source_channel source_channel_domain)
               then Inr None else Inr (Some (guild, expected_authority))
           | _ \<Rightarrow> Inr None)))))))"

definition authority_attested_guild_crosspost_actor ::
  "pyval \<Rightarrow> pyval \<Rightarrow> pyval \<Rightarrow> ustr \<Rightarrow> int \<Rightarrow> int \<times> ustr \<Rightarrow> int \<times> ustr \<Rightarrow> bool result" where
  "authority_attested_guild_crosspost_actor event_type content context1 expected_authority expected_guild_id expected_owner actor =
     rbind (guild_crosspost_authority_event_ref event_type content context1 expected_authority) (\<lambda>event_ref.
       Inr (event_ref = Some (expected_guild_id, expected_authority) \<and> actor = expected_owner))"

section \<open>Direct-message conversations\<close>

text \<open>
  \<open>core/dm.py\<close>. The lower-case mapping of Unicode and the hexadecimal SHA-256 digest of a UTF-8 text are arguments.
\<close>

record text_lib =
  str_lower :: "ustr \<Rightarrow> ustr"
  sha256_hex :: "ustr \<Rightarrow> ustr"

definition MAX_GROUP_DM_PARTICIPANTS :: nat where
  "MAX_GROUP_DM_PARTICIPANTS = 10"

definition GROUP_DM_MEMBER_ADDED :: int where
  "GROUP_DM_MEMBER_ADDED = 3"

definition GROUP_DM_MEMBER_LEFT :: int where
  "GROUP_DM_MEMBER_LEFT = 4"

definition GROUP_DM_MEMBER_REMOVED :: int where
  "GROUP_DM_MEMBER_REMOVED = 5"

definition group_dm_notice_text :: "int \<Rightarrow> ustr \<Rightarrow> ustr \<Rightarrow> ustr option \<Rightarrow> ustr result" where
  "group_dm_notice_text message_type actor_name target_name new_owner_name =
     (let owner = (case new_owner_name of None \<Rightarrow> [] | Some n \<Rightarrow> ucs '' '' @ n @ ucs '' is now the owner.'')
      in if message_type = GROUP_DM_MEMBER_ADDED then Inr (actor_name @ ucs '' added '' @ target_name @ ucs '' to the group.'')
         else if message_type = GROUP_DM_MEMBER_LEFT then Inr (actor_name @ ucs '' left the group.'' @ owner)
         else if message_type = GROUP_DM_MEMBER_REMOVED then Inr (actor_name @ ucs '' removed '' @ target_name @ ucs '' from the group.'' @ owner)
         else Inl (ValueError ''unsupported group DM notice type''))"

text \<open>\<open>s.rstrip(".")\<close> and \<open>s.rpartition("@")\<close>\<close>

definition rstrip_dot :: "ustr \<Rightarrow> ustr" where
  "rstrip_dot s = rev (dropWhile (\<lambda>c. c = 46) (rev s))"

definition rpartition_at :: "ustr \<Rightarrow> ustr \<times> bool \<times> ustr" where
  "rpartition_at s = (case partition_at (rev s) of (d, sep, u) \<Rightarrow> if sep then (rev u, True, rev d) else ([], False, s))"

definition normalize_handle :: "text_lib \<Rightarrow> ustr \<Rightarrow> ustr result" where
  "normalize_handle lib handle =
     (case rpartition_at handle of (username, separator, domain) \<Rightarrow>
        if \<not> separator \<or> username = [] \<or> domain = [] then Inl (ValueError ''handle must be username@domain'')
        else Inr (str_lower lib username @ ucs ''@'' @ str_lower lib (rstrip_dot domain)))"

text \<open>\<open>a <= b\<close> of strings, by code points\<close>

fun str_le :: "ustr \<Rightarrow> ustr \<Rightarrow> bool" where
  "str_le [] t \<longleftrightarrow> True"
| "str_le (c # s) [] \<longleftrightarrow> False"
| "str_le (c # s) (d # t) \<longleftrightarrow> c < d \<or> c = d \<and> str_le s t"

definition sorted_pair :: "ustr \<Rightarrow> ustr \<Rightarrow> ustr \<times> ustr" where
  "sorted_pair a b = (if str_le a b then (a, b) else (b, a))"

definition dm_pair_key :: "text_lib \<Rightarrow> ustr \<Rightarrow> ustr \<Rightarrow> ustr result" where
  "dm_pair_key lib a b =
     rbind (normalize_handle lib a) (\<lambda>h. rbind (normalize_handle lib b) (\<lambda>k.
       let handles = sorted_pair h k
       in if fst handles = snd handles then Inl (ValueError ''a direct-message pair requires two distinct handles'')
          else Inr (sha256_hex lib (fst handles @ [10] @ snd handles))))"

definition dm_authority_domain :: "text_lib \<Rightarrow> ustr \<Rightarrow> ustr \<Rightarrow> ustr result" where
  "dm_authority_domain lib a b =
     rbind (normalize_handle lib a) (\<lambda>h. rbind (normalize_handle lib b) (\<lambda>k.
       Inr (fst (sorted_pair (snd (snd (rpartition_at h))) (snd (snd (rpartition_at k)))))))"

definition group_dm_key :: "text_lib \<Rightarrow> ustr \<Rightarrow> int \<Rightarrow> ustr" where
  "group_dm_key lib authority_domain conversation_id =
     sha256_hex lib (ucs ''group'' @ [10] @ str_lower lib (rstrip_dot authority_domain) @ [10] @ ucs (string_of_int conversation_id))"

section \<open>Group events\<close>

definition authority_event_id :: "pyval \<Rightarrow> int option result" where
  "authority_event_id v =
     (if not_decimal v then Inr None
      else rbind (int_text v) (\<lambda>parsed. Inr (if 0 < parsed \<and> parsed \<le> MAX_SNOWFLAKE then Some parsed else None)))"

definition authority_event_domain :: "pyval \<Rightarrow> ustr option" where
  "authority_event_domain v = (if not_domain v then None else as_str v)"

definition pair_ref :: "int option result \<Rightarrow> ustr option \<Rightarrow> (int \<times> ustr) option result" where
  "pair_ref identifier domain =
     rbind identifier (\<lambda>i. Inr (case (i, domain) of (Some n, Some d) \<Rightarrow> Some (n, d) | _ \<Rightarrow> None))"

definition authority_profile_ref :: "pyval \<Rightarrow> (int \<times> ustr) option result" where
  "authority_profile_ref v =
     (if \<not> is_dict v then Inr None
      else pair_ref (authority_event_id (get v ''id'')) (authority_event_domain (get v ''origin_domain'')))"

definition authority_participant_ref :: "pyval \<Rightarrow> (int \<times> ustr) option result" where
  "authority_participant_ref v =
     (case v of
        PStr s \<Rightarrow>
          if count_list s 64 \<noteq> 1 then Inr None
          else (case partition_at s of (raw_id, _, raw_domain) \<Rightarrow>
                  pair_ref (authority_event_id (PStr raw_id)) (authority_event_domain (PStr raw_domain)))
      | _ \<Rightarrow> Inr None)"

text \<open>\<open>[f(item) for item in items]\<close>\<close>

fun collect :: "('a \<Rightarrow> 'b result) \<Rightarrow> 'a list \<Rightarrow> 'b list result" where
  "collect f [] = Inr []"
| "collect f (x # xs) = rbind (f x) (\<lambda>y. rbind (collect f xs) (\<lambda>ys. Inr (y # ys)))"

type_synonym group_ref = "int \<times> ustr \<times> int"

definition authority_group_context_ref :: "pyval \<Rightarrow> ustr \<Rightarrow> group_ref option result" where
  "authority_group_context_ref context1 expected_authority =
     (if \<not> keys_are context1 [''conversation_id'', ''conversation_domain'', ''state_version''] then Inr None
      else rbind (authority_event_id (get context1 ''conversation_id'')) (\<lambda>conversation_id.
           rbind (authority_event_id (get context1 ''state_version'')) (\<lambda>state_version.
           case (conversation_id, state_version) of
             (Some c, Some v) \<Rightarrow>
               if v < 1 \<or> \<not> py_eq (get context1 ''conversation_domain'') (PStr expected_authority) then Inr None
               else Inr (Some (c, expected_authority, v))
           | _ \<Rightarrow> Inr None)))"

definition conversation_keys :: "string list" where
  "conversation_keys = [''id'', ''origin_domain'', ''pair_key'', ''type'', ''authority_domain'', ''owner'', ''name'', ''state_version'',
     ''deleted'', ''encryption_policy'']"

definition bad_name :: "pyval \<Rightarrow> bool" where
  "bad_name name = (case name of PNone \<Rightarrow> False | PStr s \<Rightarrow> \<not> (1 \<le> length s \<and> length s \<le> 100) \<or> s \<noteq> strip s | _ \<Rightarrow> True)"

text \<open>The notice of a group state: a system message about the actor and a target.\<close>

definition group_notice_refused :: "pyval \<Rightarrow> ustr \<Rightarrow> int \<Rightarrow> int \<times> ustr \<Rightarrow> (int \<times> ustr) option list \<Rightarrow> bool result" where
  "group_notice_refused notice expected_authority conversation_id actor participant_refs =
     (if \<not> keys_are notice [''message'', ''author'', ''target''] then Inr True
      else
        let message = get notice ''message''; message_type = get message ''message_type''
        in rbind (authority_profile_ref (get notice ''author'')) (\<lambda>author.
           rbind (authority_profile_ref (get notice ''target'')) (\<lambda>target.
           any_of
             [Inr (\<not> is_dict message \<or> author \<noteq> Some actor \<or> target = None),
              rbind (authority_event_id (get message ''id'')) (\<lambda>i. Inr (i = None)),
              Inr (\<not> py_eq (get message ''origin_domain'') (PStr expected_authority)),
              Inr (\<not> py_eq (get message ''channel_id'') (pkey (string_of_int conversation_id))),
              Inr (\<not> py_eq (get message ''channel_domain'') (PStr expected_authority)),
              rbind (authority_event_id (get message ''author_id'')) (\<lambda>i. Inr (i \<noteq> Some (fst actor))),
              Inr (\<not> py_eq (get message ''author_domain'') (PStr (snd actor))),
              rbind (in_set message_type [PInt GROUP_DM_MEMBER_ADDED, PInt GROUP_DM_MEMBER_LEFT, PInt GROUP_DM_MEMBER_REMOVED])
                (\<lambda>b. Inr (\<not> b)),
              Inr (py_eq message_type (PInt GROUP_DM_MEMBER_ADDED) \<and> target \<notin> set participant_refs),
              Inr (py_eq message_type (PInt GROUP_DM_MEMBER_LEFT) \<and> target \<noteq> Some actor),
              Inr (py_eq message_type (PInt GROUP_DM_MEMBER_REMOVED) \<and> target = Some actor)])))"

text \<open>\<open>try: validate_channel_encryption_policy(p) except ValueError: return None\<close>: another exception passes.\<close>

definition policy_refused :: "pyval \<Rightarrow> bool result" where
  "policy_refused policy1 =
     (case validate_channel_encryption_policy policy1 of
        Inr _ \<Rightarrow> Inr False | Inl (ValueError _) \<Rightarrow> Inr True | Inl e \<Rightarrow> Inl e)"

definition group_state_shape :: "pyval \<Rightarrow> pyval \<Rightarrow> ustr \<Rightarrow> bool" where
  "group_state_shape content context1 expected_authority \<longleftrightarrow>
     (let conversation = get content ''conversation''
      in (keys_are content [''conversation'', ''participants''] \<or> keys_are content [''conversation'', ''participants'', ''notice'']) \<and>
         py_eq context1 (PDict []) \<and> keys_are conversation conversation_keys \<and>
         py_eq (get conversation ''type'') (pkey ''group'') \<and> py_eq (get conversation ''origin_domain'') (PStr expected_authority) \<and>
         py_eq (get conversation ''authority_domain'') (PStr expected_authority) \<and> get conversation ''deleted'' = PBool False \<and>
         (case get content ''participants'' of
            PList ps \<Rightarrow> 1 \<le> length ps \<and> length ps \<le> MAX_GROUP_DM_PARTICIPANTS | _ \<Rightarrow> False))"

text \<open>The participants, the encryption policy and the notice.\<close>

definition group_membership_refused :: "pyval \<Rightarrow> ustr \<Rightarrow> int \<Rightarrow> int \<Rightarrow> (int \<times> ustr) option \<Rightarrow> int \<times> ustr \<Rightarrow> bool result" where
  "group_membership_refused content expected_authority conversation_id state_version owner actor =
     (let encryption_policy = get (get content ''conversation'') ''encryption_policy''; notice = get content ''notice'';
          participants = (case get content ''participants'' of PList ps \<Rightarrow> ps | _ \<Rightarrow> [])
      in rbind (collect authority_profile_ref participants) (\<lambda>participant_refs.
        any_of
          [Inr (None \<in> set participant_refs \<or> \<not> distinct participant_refs \<or> owner \<notin> set participant_refs),
           Inr (\<not> is_dict encryption_policy), policy_refused encryption_policy,
           if notice \<noteq> PNone then group_notice_refused notice expected_authority conversation_id actor participant_refs
           else Inr (Some actor \<notin> set participant_refs \<and> state_version = 1)]))"

definition authority_group_state_ref :: "text_lib \<Rightarrow> pyval \<Rightarrow> pyval \<Rightarrow> ustr \<Rightarrow> int \<times> ustr \<Rightarrow> group_ref option result" where
  "authority_group_state_ref lib content context1 expected_authority actor =
     (if \<not> group_state_shape content context1 expected_authority then Inr None
      else
        let conversation = get content ''conversation''
        in rbind (authority_event_id (get conversation ''id'')) (\<lambda>conversation_id.
           rbind (authority_event_id (get conversation ''state_version'')) (\<lambda>state_version.
           rbind (authority_profile_ref (get conversation ''owner'')) (\<lambda>owner.
           case (conversation_id, state_version, owner) of
             (Some c, Some v, Some _) \<Rightarrow>
               if v < 1 \<or> \<not> py_eq (get conversation ''pair_key'') (PStr (group_dm_key lib expected_authority c)) \<or>
                  bad_name (get conversation ''name'')
               then Inr None
               else refuse_if [group_membership_refused content expected_authority c v owner actor] (Inr (Some (c, expected_authority, v)))
           | _ \<Rightarrow> Inr None))))"

definition keys_within :: "pyval \<Rightarrow> string list \<Rightarrow> string list \<Rightarrow> bool" where
  "keys_within v required allowed =
     (case v of
        PDict d \<Rightarrow> list_all (has_key d) required \<and> set (map fst d) \<subseteq> set (map (\<lambda>n. pkey n) allowed)
      | _ \<Rightarrow> False)"

definition authority_group_message_ref :: "pyval \<Rightarrow> pyval \<Rightarrow> ustr \<Rightarrow> int \<times> ustr \<Rightarrow> group_ref option result" where
  "authority_group_message_ref content context1 expected_authority actor =
     rbind (authority_group_context_ref context1 expected_authority) (\<lambda>context_ref.
       let message = get content ''message''
       in case context_ref of
            None \<Rightarrow> Inr None
          | Some (conversation_id, _, _) \<Rightarrow>
              refuse_if
                [Inr (\<not> keys_within content [''message'', ''author'']
                        [''message'', ''author'', ''forward_source_nsfw'', ''encryption_policy'', ''e2ee_control'']),
                 Inr (\<not> is_dict message),
                 rbind (authority_profile_ref (get content ''author'')) (\<lambda>author. Inr (author \<noteq> Some actor)),
                 rbind (authority_event_id (get message ''id'')) (\<lambda>i. Inr (i = None)),
                 rbind (in_set (get message ''origin_domain'') [PStr expected_authority, PStr (snd actor)]) (\<lambda>b. Inr (\<not> b)),
                 Inr (\<not> py_eq (get message ''channel_id'') (pkey (string_of_int conversation_id))),
                 Inr (\<not> py_eq (get message ''channel_domain'') (PStr expected_authority)),
                 rbind (authority_event_id (get message ''author_id'')) (\<lambda>i. Inr (i \<noteq> Some (fst actor))),
                 Inr (\<not> py_eq (get message ''author_domain'') (PStr (snd actor)))]
                (Inr context_ref))"

definition call_keys :: "string list" where
  "call_keys = [''id'', ''channel_id'', ''channel_domain'', ''authority_domain'', ''room'', ''state'', ''created_at'', ''ended_at'',
     ''caller'', ''participants'']"

definition authority_group_call_ref :: "pyval \<Rightarrow> pyval \<Rightarrow> ustr \<Rightarrow> int \<times> ustr \<Rightarrow> group_ref option result" where
  "authority_group_call_ref content context1 expected_authority actor =
     rbind (authority_group_context_ref context1 expected_authority) (\<lambda>context_ref.
       let call = get content ''call''
       in case context_ref of
            None \<Rightarrow> Inr None
          | Some (conversation_id, _, _) \<Rightarrow>
              if \<not> keys_are content [''call''] \<or> \<not> keys_are call call_keys then Inr None
              else rbind (authority_event_id (get call ''id'')) (\<lambda>call_id.
                rbind (case get call ''participants'' of PList ps \<Rightarrow> collect authority_participant_ref ps | _ \<Rightarrow> Inr []) (\<lambda>participant_refs.
                  refuse_if
                    [Inr (call_id = None),
                     Inr (\<not> py_eq (get call ''channel_id'') (pkey (string_of_int conversation_id))),
                     Inr (\<not> py_eq (get call ''channel_domain'') (PStr expected_authority)),
                     Inr (\<not> py_eq (get call ''authority_domain'') (PStr expected_authority)),
                     Inr (\<not> py_eq (get call ''room'')
                            (pkey (''d.'' @ string_of_int conversation_id @ ''.'' @ string_of_int (case call_id of Some i \<Rightarrow> i | None \<Rightarrow> 0)))),
                     Inr (\<not> py_eq (get call ''state'') (pkey ''ringing'')),
                     Inr (get call ''ended_at'' \<noteq> PNone),
                     Inr (case get call ''created_at'' of PInt t \<Rightarrow> t < 0 | _ \<Rightarrow> True),
                     Inr (\<not> (2 \<le> length participant_refs \<and> length participant_refs \<le> MAX_GROUP_DM_PARTICIPANTS)),
                     Inr (None \<in> set participant_refs),
                     Inr (\<not> distinct participant_refs),
                     rbind (authority_participant_ref (get call ''caller'')) (\<lambda>caller. Inr (caller \<noteq> Some actor)),
                     Inr (Some actor \<notin> set participant_refs)]
                    (Inr context_ref))))"

definition authority_attested_group_event_ref ::
  "text_lib \<Rightarrow> pyval \<Rightarrow> pyval \<Rightarrow> pyval \<Rightarrow> ustr \<Rightarrow> pyval \<Rightarrow> pyval \<Rightarrow> group_ref option result" where
  "authority_attested_group_event_ref lib event_type content context1 expected_authority actor_id actor_domain =
     rbind (authority_event_id actor_id) (\<lambda>parsed_actor_id.
       case (parsed_actor_id, authority_event_domain actor_domain, authority_event_domain (PStr expected_authority)) of
         (Some i, Some d, Some authority) \<Rightarrow>
           if d = authority then Inr None
           else if py_eq event_type (pkey ''dm.group.state'')
           then authority_group_state_ref lib content context1 authority (i, d)
           else if py_eq event_type (pkey ''dm.group.message.committed'')
           then authority_group_message_ref content context1 authority (i, d)
           else if py_eq event_type (pkey ''dm.group.call.create'')
           then authority_group_call_ref content context1 authority (i, d)
           else Inr None
       | _ \<Rightarrow> Inr None)"

section \<open>Deletion controls\<close>

definition envelope_keys :: "string list" where
  "envelope_keys = [''event_id'', ''origin'', ''type'', ''ts'', ''actor'', ''context'', ''content'', ''signatures'']"

text \<open>\<open>d[name]\<close> and \<open>set(d) == {name}\<close> for a name that is itself received: exactly one signature, by the named domain.\<close>

definition signed_once_by :: "pyval \<Rightarrow> ustr \<Rightarrow> bool" where
  "signed_once_by signatures domain =
     (case signatures of
        PDict d \<Rightarrow>
          set (map fst d) = {PStr domain} \<and>
          (case find (\<lambda>kv. fst kv = PStr domain) d of Some (_, PDict keys) \<Rightarrow> length keys = 1 | _ \<Rightarrow> False)
      | _ \<Rightarrow> False)"

definition policy_keys :: "string list" where
  "policy_keys = [''mode'', ''state'', ''generation'', ''protocol'', ''suite'', ''group_id'', ''epoch'']"

definition terminal_group_shape :: "pyval \<Rightarrow> pyval \<Rightarrow> ustr \<Rightarrow> bool" where
  "terminal_group_shape content context1 origin \<longleftrightarrow>
     (let conversation = get content ''conversation''
      in is_dict conversation \<and> keys_are content [''conversation'', ''participants'', ''_terminal_generation''] \<and>
         keys_are conversation conversation_keys \<and> py_eq context1 (PDict []) \<and> get conversation ''deleted'' = PBool True \<and>
         py_eq (get conversation ''type'') (pkey ''group'') \<and> py_eq (get conversation ''origin_domain'') (PStr origin) \<and>
         py_eq (get conversation ''authority_domain'') (PStr origin) \<and> py_eq (get content ''participants'') (PList []))"

definition terminal_group_refused :: "text_lib \<Rightarrow> pyval \<Rightarrow> ustr \<Rightarrow> int \<Rightarrow> bool result" where
  "terminal_group_refused lib conversation origin room_id =
     (let owner = get conversation ''owner''; state_version = get conversation ''state_version'';
          encryption_policy = get conversation ''encryption_policy''
      in any_of
           [Inr (\<not> py_eq (get conversation ''pair_key'') (PStr (group_dm_key lib origin room_id))),
            Inr (\<not> keys_are owner [''id'', ''origin_domain'']),
            Inr (not_decimal (get owner ''id'')), id_exceeds (get owner ''id''),
            Inr (not_domain (get owner ''origin_domain'')),
            Inr (bad_name (get conversation ''name'')),
            Inr (not_decimal state_version), not_positive state_version,
            Inr (\<not> keys_are encryption_policy policy_keys),
            Inr (\<not> is_str (get encryption_policy ''generation'')),
            Inr (get encryption_policy ''epoch'' \<noteq> PNone \<and> \<not> is_str (get encryption_policy ''epoch'')),
            policy_refused encryption_policy])"

text \<open>The room a branch of the recogniser names: its kind and its raw identifier.\<close>

definition terminal_room_candidate :: "pyval \<Rightarrow> ustr \<Rightarrow> (string \<times> pyval) option result" where
  "terminal_room_candidate envelope origin =
     (let event_type = get envelope ''type''; content = get envelope ''content''; context1 = get envelope ''context'';
          actor = get envelope ''actor''; actor_id = get actor ''id''; actor_domain = get actor ''domain''
      in if py_eq event_type (pkey ''guild.instance_access.revoked'') then
           refuse_if
             [Inr (\<not> is_dict actor \<or> \<not> is_dict context1 \<or> \<not> keys_are actor [''id'', ''domain'']),
              rbind (authority_attested_terminal_guild_actor event_type content context1 origin actor_id actor_domain) (\<lambda>b. Inr (\<not> b))]
             (Inr (Some (''guild'', get context1 ''guild_id'')))
         else if py_eq event_type (pkey ''dm.group.state'') then
           refuse_if
             [Inr (\<not> keys_are actor [''id'', ''domain'']), Inr (not_decimal actor_id), Inr (not_domain actor_domain), id_exceeds actor_id,
              Inr (\<not> terminal_group_shape content context1 origin)]
             (Inr (Some (''group_dm'', get (get content ''conversation'') ''id'')))
         else Inr None)"

definition terminal_room_event_ref :: "text_lib \<Rightarrow> pyval \<Rightarrow> (string \<times> int \<times> ustr) option result" where
  "terminal_room_event_ref lib envelope =
     (case get envelope ''origin'' of
        PStr origin \<Rightarrow>
          if \<not> keys_are envelope envelope_keys \<or> origin = [] \<or> \<not> is_dict (get envelope ''content'') \<or> \<not> DOMAIN_RE origin \<or>
             \<not> signed_once_by (get envelope ''signatures'') origin
          then Inr None
          else rbind (terminal_room_candidate envelope origin) (\<lambda>candidate.
            case candidate of
              None \<Rightarrow> Inr None
            | Some (room_kind, raw_id) \<Rightarrow>
                if not_decimal raw_id then Inr None
                else rbind (int_text raw_id) (\<lambda>room_id.
                  if \<not> (0 \<le> room_id \<and> room_id \<le> MAX_SNOWFLAKE) then Inr None
                  else (case terminal_room_generation envelope of
                     Inl _ \<Rightarrow> Inr None
                   | Inr _ \<Rightarrow>
                       refuse_if
                         [if room_kind = ''group_dm'' then terminal_group_refused lib (get (get envelope ''content'') ''conversation'') origin room_id
                          else Inr False]
                         (Inr (Some (room_kind, room_id, origin))))))
      | _ \<Rightarrow> Inr None)"

definition durable_terminal_room_event :: "text_lib \<Rightarrow> pyval \<Rightarrow> bool result" where
  "durable_terminal_room_event lib envelope = rbind (terminal_room_event_ref lib envelope) (\<lambda>r. Inr (r \<noteq> None))"

definition exact_ref :: "pyval \<Rightarrow> ustr option \<Rightarrow> (int \<times> ustr) option result" where
  "exact_ref raw expected_domain =
     refuse_if
       [Inr (\<not> keys_are raw [''id'', ''origin_domain'']), Inr (not_decimal (get raw ''id'')), id_exceeds (get raw ''id''),
        Inr (not_domain (get raw ''origin_domain'')),
        Inr (case expected_domain of None \<Rightarrow> False | Some d \<Rightarrow> get raw ''origin_domain'' \<noteq> PStr d)]
       (rbind (int_text (get raw ''id'')) (\<lambda>i. Inr (Some (i, the (as_str (get raw ''origin_domain''))))))"

text \<open>
  \<open>fromisoformat\<close> of the standard library is an argument: \<open>None\<close> is its \<open>ValueError\<close>, otherwise whether the time has a zone and
  its \<open>isoformat\<close>. \<open>media_request_result\<close> is the part after the three references.
\<close>

type_synonym media_request = "int \<times> ustr \<times> int \<times> ustr \<times> int \<times> ustr \<times> int"

definition media_request_result ::
  "(ustr \<Rightarrow> (bool \<times> ustr) option) \<Rightarrow> pyval \<Rightarrow> ustr \<Rightarrow> int \<times> ustr \<Rightarrow> int \<times> ustr \<Rightarrow> int \<times> ustr \<Rightarrow> media_request option result" where
  "media_request_result fromisoformat content origin guild_ref message_ref attachment_ref =
     (let raw_generation = get content ''_deletion_generation''; raw_deleted_at = get content ''deleted_at''
      in refuse_if
           [Inr (snd attachment_ref = origin), Inr (not_decimal raw_generation), not_positive raw_generation, Inr (\<not> is_str raw_deleted_at)]
           (rbind (int_text raw_generation) (\<lambda>generation.
              case fromisoformat (the (as_str raw_deleted_at)) of
                None \<Rightarrow> Inr None
              | Some (aware, rendered) \<Rightarrow>
                  if \<not> aware \<or> PStr rendered \<noteq> raw_deleted_at then Inr None
                  else Inr (Some (fst guild_ref, snd guild_ref, fst message_ref, snd message_ref, fst attachment_ref, snd attachment_ref,
                         generation)))))"

definition guild_media_delete_request_ref :: "(ustr \<Rightarrow> (bool \<times> ustr) option) \<Rightarrow> pyval \<Rightarrow> media_request option result" where
  "guild_media_delete_request_ref fromisoformat envelope =
     (let origin = get envelope ''origin''; actor = get envelope ''actor''; content = get envelope ''content'';
          origin_text = (case origin of PStr s \<Rightarrow> s | _ \<Rightarrow> [])
      in refuse_if
           [Inr (\<not> keys_are envelope envelope_keys), Inr (\<not> py_eq (get envelope ''type'') (pkey ''guild.media.delete.request'')),
            Inr (not_domain origin), Inr (\<not> keys_are actor [''id'', ''domain'']),
            Inr (not_decimal (get actor ''id'')), id_exceeds (get actor ''id''), Inr (not_domain (get actor ''domain'')),
            Inr (\<not> py_eq (get envelope ''context'') (PDict [])),
            Inr (\<not> keys_are content [''guild'', ''message'', ''attachment'', ''deleted_at'', ''_deletion_generation'']),
            Inr (\<not> signed_once_by (get envelope ''signatures'') origin_text)]
           (rbind (exact_ref (get content ''guild'') (Some origin_text)) (\<lambda>guild_ref.
            rbind (exact_ref (get content ''message'') (Some origin_text)) (\<lambda>message_ref.
            rbind (exact_ref (get content ''attachment'') None) (\<lambda>attachment_ref.
            case (guild_ref, message_ref, attachment_ref) of
              (Some g, Some m, Some a) \<Rightarrow> media_request_result fromisoformat content origin_text g m a
            | _ \<Rightarrow> Inr None)))))"

definition durable_guild_media_delete_request :: "(ustr \<Rightarrow> (bool \<times> ustr) option) \<Rightarrow> pyval \<Rightarrow> bool result" where
  "durable_guild_media_delete_request fromisoformat envelope =
     rbind (guild_media_delete_request_ref fromisoformat envelope) (\<lambda>r. Inr (r \<noteq> None))"

definition authority_attested_media_delete_ref :: "pyval \<Rightarrow> ustr \<Rightarrow> (int \<times> ustr \<times> int) option result" where
  "authority_attested_media_delete_ref envelope expected_authority =
     (let actor = get envelope ''actor''; content = get envelope ''content'';
          raw_attachment_id = get content ''attachment_id''; raw_generation = get content ''generation''
      in refuse_if
           [Inr (\<not> keys_are envelope envelope_keys), Inr (\<not> py_eq (get envelope ''type'') (pkey ''media.delete'')),
            Inr (\<not> py_eq (get envelope ''origin'') (PStr expected_authority)), Inr (\<not> py_eq (get envelope ''context'') (PDict [])),
            Inr (\<not> keys_are actor [''id'', ''domain'']),
            Inr (not_decimal (get actor ''id'')), id_exceeds (get actor ''id''), Inr (not_domain (get actor ''domain'')),
            Inr (\<not> keys_are content [''attachment_id'', ''origin_domain'', ''generation'']),
            Inr (\<not> py_eq (get content ''origin_domain'') (PStr expected_authority)),
            Inr (\<not> signed_once_by (get envelope ''signatures'') expected_authority),
            Inr (not_decimal raw_attachment_id), id_exceeds raw_attachment_id,
            Inr (not_decimal raw_generation), not_positive raw_generation]
           (rbind (int_text raw_attachment_id) (\<lambda>attachment_id. rbind (int_text raw_generation) (\<lambda>generation.
              Inr (Some (attachment_id, expected_authority, generation))))))"

section \<open>Reading accepted conditions\<close>

lemma any_of_False: "any_of cs = Inr False \<longleftrightarrow> list_all (\<lambda>c. c = Inr False) cs"
  by (induction cs) (auto simp: result_simps)

lemma all_of_True: "all_of cs = Inr True \<longleftrightarrow> list_all (\<lambda>c. c = Inr True) cs"
  by (induction cs) (auto simp: result_simps)

lemma refuse_if_Some:
  "refuse_if cs k = Inr (Some x) \<longleftrightarrow> list_all (\<lambda>c. c = Inr False) cs \<and> k = Inr (Some x)"
  by (auto simp: refuse_if_def result_simps any_of_False split: if_splits)

lemma rbind_not_False: "rbind r (\<lambda>b. Inr (\<not> b)) = Inr False \<longleftrightarrow> r = Inr True"
  "rbind r (\<lambda>b. Inr (\<not> b)) = Inr True \<longleftrightarrow> r = Inr False"
  by (cases r; auto)+

lemma rbind_cond_False: "rbind r (\<lambda>i. Inr (p i)) = Inr False \<longleftrightarrow> (\<exists>i. r = Inr i \<and> \<not> p i)"
  by (cases r) auto

lemmas accepted_simps = refuse_if_Some any_of_False all_of_True rbind_not_False

declare any_of.simps [simp del] all_of.simps [simp del]

text \<open>The canonical decimal text of a number in the BIGINT range.\<close>

abbreviation id_text :: "int \<Rightarrow> pyval" where
  "id_text n \<equiv> pkey (string_of_int n)"

lemma decimal_text:
  assumes "\<not> not_decimal v" "int_text v = Inr n"
  shows "v = id_text n \<and> 0 \<le> n"
  using assms
  by (auto simp: not_decimal_def int_text_def int_of_decimal_Inr ucs_string_of_int str_nat_nat_of_str split: pyval.splits)

lemma id_text_decimal:
  assumes "snowflake_range n"
  shows "\<not> not_decimal (id_text n)" "int_text (id_text n) = Inr n"
  using assms str_nat_short [OF assms]
  by (simp_all add: not_decimal_def int_text_def int_of_decimal_Inr ucs_string_of_int canonical_str_nat snowflake_range_def)

lemma canonical_int_text:
  "\<not> not_decimal v \<and> int_text v = Inr n \<and> snowflake_range n \<longleftrightarrow> snowflake_range n \<and> v = id_text n"
  using decimal_text [of v n] id_text_decimal [of n] by auto

lemma id_exceeds_False:
  "\<not> not_decimal v \<and> id_exceeds v = Inr False \<longleftrightarrow> (\<exists>n. snowflake_range n \<and> v = id_text n)"
proof
  assume "\<not> not_decimal v \<and> id_exceeds v = Inr False"
  then obtain n where "\<not> not_decimal v" "int_text v = Inr n" "n \<le> MAX_SNOWFLAKE" by (auto simp: id_exceeds_def result_simps)
  then show "\<exists>n. snowflake_range n \<and> v = id_text n" using decimal_text [of v n] by (auto simp: snowflake_range_def max_snowflake)
next
  assume "\<exists>n. snowflake_range n \<and> v = id_text n"
  then show "\<not> not_decimal v \<and> id_exceeds v = Inr False"
    using id_text_decimal by (auto simp: id_exceeds_def snowflake_range_def max_snowflake not_less)
qed

lemma not_positive_False:
  "\<not> not_decimal v \<and> not_positive v = Inr False \<longleftrightarrow> (\<exists>n. snowflake_range n \<and> 1 \<le> n \<and> v = id_text n)"
proof
  assume "\<not> not_decimal v \<and> not_positive v = Inr False"
  then obtain n where "\<not> not_decimal v" "int_text v = Inr n" "1 \<le> n" "n \<le> MAX_SNOWFLAKE" by (auto simp: not_positive_def result_simps)
  then show "\<exists>n. snowflake_range n \<and> 1 \<le> n \<and> v = id_text n" using decimal_text [of v n] by (auto simp: snowflake_range_def max_snowflake)
next
  assume "\<exists>n. snowflake_range n \<and> 1 \<le> n \<and> v = id_text n"
  then show "\<not> not_decimal v \<and> not_positive v = Inr False"
    using id_text_decimal by (auto simp: not_positive_def snowflake_range_def max_snowflake not_less)
qed

lemma not_domain_iff: "\<not> not_domain v \<longleftrightarrow> (\<exists>d. v = PStr d \<and> DOMAIN_RE d)"
  by (cases v) (auto simp: not_domain_def)

lemma canonical_id_Some: "canonical_id v = Inr (Some n) \<longleftrightarrow> snowflake_range n \<and> v = id_text n"
proof -
  have "canonical_id v = Inr (Some n) \<longleftrightarrow> (\<not> not_decimal v \<and> id_exceeds v = Inr False) \<and> int_text v = Inr n"
    by (auto simp: canonical_id_def accepted_simps result_simps)
  then show ?thesis unfolding id_exceeds_False by (auto simp: id_text_decimal)
qed

lemma authority_event_id_Some:
  "authority_event_id v = Inr (Some n) \<longleftrightarrow> snowflake_range n \<and> 0 < n \<and> v = id_text n"
proof
  assume "authority_event_id v = Inr (Some n)"
  then have "\<not> not_decimal v" "int_text v = Inr n" "0 < n" "n \<le> MAX_SNOWFLAKE"
    by (auto simp: authority_event_id_def result_simps split: if_splits)
  then show "snowflake_range n \<and> 0 < n \<and> v = id_text n" using decimal_text [of v n] by (auto simp: snowflake_range_def max_snowflake)
next
  assume "snowflake_range n \<and> 0 < n \<and> v = id_text n"
  then show "authority_event_id v = Inr (Some n)"
    using id_text_decimal by (auto simp: authority_event_id_def snowflake_range_def max_snowflake)
qed

lemma authority_event_domain_Some: "authority_event_domain v = Some d \<longleftrightarrow> v = PStr d \<and> DOMAIN_RE d"
  by (cases v) (auto simp: authority_event_domain_def not_domain_def as_str_def)

lemma pair_ref_Some: "pair_ref i d = Inr (Some (n, m)) \<longleftrightarrow> i = Inr (Some n) \<and> d = Some m"
  by (auto simp: pair_ref_def result_simps split: option.splits)

lemma authority_profile_ref_Some:
  "authority_profile_ref v = Inr (Some (n, d)) \<longleftrightarrow>
     is_dict v \<and> snowflake_range n \<and> 0 < n \<and> get v ''id'' = id_text n \<and> DOMAIN_RE d \<and> get v ''origin_domain'' = PStr d"
  by (auto simp: authority_profile_ref_def pair_ref_Some authority_event_id_Some authority_event_domain_Some)

lemma partition_single:
  assumes "count_list s 64 = 1" "partition_at s = (a, sep, d)"
  shows "s = a @ 64 # d"
proof -
  have "64 \<in> set s" using assms(1) by (metis count_list_0_iff zero_neq_one)
  then have sep using assms(2)
  proof (induction s arbitrary: a sep d)
    case (Cons c s)
    then show ?case by (auto split: if_splits prod.splits)
  qed simp
  then show ?thesis using partition_at_join [OF assms(2)] by simp
qed

lemma authority_participant_ref_Some:
  "authority_participant_ref v = Inr (Some (n, d)) \<longleftrightarrow>
     snowflake_range n \<and> 0 < n \<and> DOMAIN_RE d \<and> v = PStr (entity_text n d)" (is "?l \<longleftrightarrow> ?r")
proof
  assume ?l
  then obtain s where s: "v = PStr s" "count_list s 64 = 1" by (cases v) (auto simp: authority_participant_ref_def split: if_splits)
  obtain a sep b where p: "partition_at s = (a, sep, b)" by (cases "partition_at s")
  then have "authority_event_id (PStr a) = Inr (Some n)" "authority_event_domain (PStr b) = Some d"
    using \<open>?l\<close> s by (auto simp: authority_participant_ref_def pair_ref_Some)
  moreover have "s = a @ 64 # b" by (rule partition_single [OF s(2) p])
  ultimately show ?r using s(1) by (auto simp: authority_event_id_Some authority_event_domain_Some entity_text_def ucs_def)
next
  assume r: ?r
  have digits: "64 \<notin> set (ucs (string_of_int n))"
    using r str_nat_no_at [of "nat n"] by (simp add: ucs_string_of_int snowflake_range_def)
  have "entity_text n d = ucs (string_of_int n) @ 64 # d" by (simp add: entity_text_def ucs_def)
  moreover have "count_list (ucs (string_of_int n) @ 64 # d) 64 = 1"
    using digits DOMAIN_RE_no_at [of d] r by (simp add: count_list_0_iff)
  ultimately show ?l
    using r partition_at_sep [OF digits, of d]
    by (simp add: authority_participant_ref_def pair_ref_Some authority_event_id_Some authority_event_domain_Some)
qed

lemma collect_Inr: "collect f xs = Inr ys \<longleftrightarrow> list_all2 (\<lambda>x y. f x = Inr y) xs ys"
  by (induction xs arbitrary: ys) (auto simp: result_simps list_all2_Cons1)

lemma collect_Some:
  assumes "collect f xs = Inr ys" "None \<notin> set ys"
  obtains zs where "ys = map Some zs" "list_all2 (\<lambda>x z. f x = Inr (Some z)) xs zs"
proof -
  have "ys = map Some (map the ys)" using assms(2) by (intro nth_equalityI) (auto simp: in_set_conv_nth)
  moreover have "list_all2 (\<lambda>x z. f x = Inr (Some z)) xs (map the ys)"
    using assms by (auto simp: collect_Inr list_all2_conv_all_nth in_set_conv_nth)
  ultimately show ?thesis using that by blast
qed

section \<open>Accepted group events\<close>

definition positive_id :: "int \<Rightarrow> bool" where
  "positive_id n \<longleftrightarrow> 0 < n \<and> n < 2 ^ 63"

lemma positive_id_range: "snowflake_range n \<and> 0 < n \<longleftrightarrow> positive_id n"
  by (auto simp: positive_id_def snowflake_range_def)

definition names_user :: "pyval \<Rightarrow> string \<Rightarrow> string \<Rightarrow> int \<times> ustr \<Rightarrow> bool" where
  "names_user v id_name domain_name user \<longleftrightarrow> get v id_name = id_text (fst user) \<and> get v domain_name = PStr (snd user)"

lemma bind2_Some:
  "rbind r (\<lambda>x. rbind s (\<lambda>y. case x of None \<Rightarrow> Inr None | Some c \<Rightarrow> (case y of None \<Rightarrow> Inr None | Some v \<Rightarrow> f c v))) = Inr (Some z) \<longleftrightarrow>
     (\<exists>c v. r = Inr (Some c) \<and> s = Inr (Some v) \<and> f c v = Inr (Some z))"
  by (cases r; cases s) (auto split: option.splits)

lemma group_context_Some:
  assumes "authority_group_context_ref x a = Inr (Some (c, a', v))"
  shows "a' = a \<and> positive_id c \<and> positive_id v \<and> get x ''conversation_id'' = id_text c \<and> get x ''state_version'' = id_text v \<and>
     get x ''conversation_domain'' = PStr a"
  using assms unfolding authority_group_context_ref_def
  by (auto simp: bind2_Some authority_event_id_Some positive_id_def snowflake_range_def split: if_splits)

lemma profile_names: "authority_profile_ref v = Inr (Some user) \<Longrightarrow> names_user v ''id'' ''origin_domain'' user"
  by (cases user) (simp add: authority_profile_ref_Some names_user_def)

lemma group_message_binds:
  assumes "authority_group_message_ref content x a actor = Inr (Some (c, a', v))"
  shows "authority_group_context_ref x a = Inr (Some (c, a', v)) \<and> authority_profile_ref (get content ''author'') = Inr (Some actor) \<and>
     get (get content ''message'') ''channel_id'' = id_text c \<and> get (get content ''message'') ''channel_domain'' = PStr a \<and>
     names_user (get content ''message'') ''author_id'' ''author_domain'' actor \<and>
     get (get content ''message'') ''origin_domain'' \<in> {PStr a, PStr (snd actor)}"
proof -
  let ?m = "get content ''message''"
  have ctx: "authority_group_context_ref x a = Inr (Some (c, a', v))"
    using assms by (auto simp: authority_group_message_ref_def result_simps accepted_simps Let_def split: option.splits)
  have "in_set (get ?m ''origin_domain'') (map PStr [a, snd actor]) = Inr True"
    and "authority_profile_ref (get content ''author'') = Inr (Some actor)" "authority_event_id (get ?m ''author_id'') = Inr (Some (fst actor))"
      "get ?m ''channel_id'' = id_text c" "get ?m ''channel_domain'' = PStr a" "get ?m ''author_domain'' = PStr (snd actor)"
    using assms by (auto simp: authority_group_message_ref_def ctx accepted_simps rbind_cond_False Let_def)
  then show ?thesis using ctx unfolding in_set_strings by (auto simp: names_user_def authority_event_id_Some)
qed

lemma group_call_binds:
  assumes "authority_group_call_ref content x a actor = Inr (Some (c, a', v))"
  shows "authority_group_context_ref x a = Inr (Some (c, a', v)) \<and>
     get (get content ''call'') ''channel_id'' = id_text c \<and> get (get content ''call'') ''authority_domain'' = PStr a \<and>
     get (get content ''call'') ''caller'' = PStr (entity_text (fst actor) (snd actor)) \<and>
     (\<exists>users. get (get content ''call'') ''participants'' = PList (map (\<lambda>u. PStr (entity_text (fst u) (snd u))) users) \<and>
        distinct users \<and> 2 \<le> length users \<and> length users \<le> 10 \<and> actor \<in> set users)"
proof -
  let ?call = "get content ''call''"
  have ctx: "authority_group_context_ref x a = Inr (Some (c, a', v))"
    using assms by (auto simp: authority_group_call_ref_def result_simps accepted_simps Let_def split: option.splits if_splits)
  then obtain refs where refs: "(case get ?call ''participants'' of PList ps \<Rightarrow> collect authority_participant_ref ps | _ \<Rightarrow> Inr []) = Inr refs"
    and bounds: "2 \<le> length refs" "length refs \<le> 10" "None \<notin> set refs" "distinct refs" "Some actor \<in> set refs"
    and caller: "authority_participant_ref (get ?call ''caller'') = Inr (Some actor)"
    and rest: "get ?call ''channel_id'' = id_text c" "get ?call ''authority_domain'' = PStr a"
    using assms
    by (auto simp: authority_group_call_ref_def result_simps accepted_simps Let_def MAX_GROUP_DM_PARTICIPANTS_def split: if_splits)
  obtain ps where ps: "get ?call ''participants'' = PList ps" "collect authority_participant_ref ps = Inr refs"
    using refs bounds(1) by (auto split: pyval.splits)
  obtain users where users: "refs = map Some users" "list_all2 (\<lambda>p u. authority_participant_ref p = Inr (Some u)) ps users"
    using ps(2) bounds(3) by (rule collect_Some)
  have "ps = map (\<lambda>u. PStr (entity_text (fst u) (snd u))) users"
    using users(2) by (auto simp: list_all2_conv_all_nth authority_participant_ref_Some intro!: nth_equalityI) (metis authority_participant_ref_Some prod.collapse)
  then have participants: "get ?call ''participants'' = PList (map (\<lambda>u. PStr (entity_text (fst u) (snd u))) users)" using ps(1) by simp
  have "get ?call ''caller'' = PStr (entity_text (fst actor) (snd actor))"
    using caller authority_participant_ref_Some [of _ "fst actor" "snd actor"] by auto
  then show ?thesis using ctx rest participants users(1) bounds by (auto simp: distinct_map)
qed

lemma group_state_ids:
  assumes "authority_group_state_ref lib content x a actor = Inr (Some (c, a', v))" "group_state_shape content x a"
  obtains owner where "a' = a" "authority_event_id (get (get content ''conversation'') ''id'') = Inr (Some c)"
    "authority_event_id (get (get content ''conversation'') ''state_version'') = Inr (Some v)"
    "authority_profile_ref (get (get content ''conversation'') ''owner'') = Inr (Some owner)"
    "group_membership_refused content a c v (Some owner) actor = Inr False"
proof -
  let ?conv = "get content ''conversation''"
  obtain co vo oo where r: "authority_event_id (get ?conv ''id'') = Inr co" "authority_event_id (get ?conv ''state_version'') = Inr vo"
      "authority_profile_ref (get ?conv ''owner'') = Inr oo"
    using assms by (auto simp: authority_group_state_ref_def result_simps Let_def simp del: split_paired_Ex)
  then show ?thesis
    using assms that
    by (cases co; cases vo; cases oo)
      (auto simp: authority_group_state_ref_def accepted_simps Let_def simp del: split_paired_All split_paired_Ex split: if_splits)
qed

lemma group_membership_accepted:
  assumes "group_membership_refused content a c v owner actor = Inr False" "get content ''participants'' = PList ps"
  shows "\<exists>refs. collect authority_profile_ref ps = Inr refs \<and> None \<notin> set refs \<and> distinct refs \<and> owner \<in> set refs \<and>
     (if get content ''notice'' \<noteq> PNone then group_notice_refused (get content ''notice'') a c actor refs
      else Inr (Some actor \<notin> set refs \<and> v = 1)) = Inr False"
proof -
  obtain refs where "collect authority_profile_ref ps = Inr refs"
    using assms by (auto simp: group_membership_refused_def rbind_Inr_iff Let_def)
  with assms show ?thesis unfolding group_membership_refused_def Let_def by (simp add: any_of_False)
qed

lemma group_state_binds:
  assumes "authority_group_state_ref lib content x a actor = Inr (Some (c, a', v))"
  shows "a' = a \<and> positive_id c \<and> positive_id v \<and> x = PDict [] \<and> get (get content ''conversation'') ''id'' = id_text c \<and>
     get (get content ''conversation'') ''state_version'' = id_text v \<and>
     get (get content ''conversation'') ''authority_domain'' = PStr a \<and> get (get content ''conversation'') ''deleted'' = PBool False \<and>
     (\<exists>profiles users owner. get content ''participants'' = PList profiles \<and>
        list_all2 (\<lambda>p u. names_user p ''id'' ''origin_domain'' u) profiles users \<and> distinct users \<and> 1 \<le> length users \<and> length users \<le> 10 \<and>
        names_user (get (get content ''conversation'') ''owner'') ''id'' ''origin_domain'' owner \<and> owner \<in> set users \<and>
        (if get content ''notice'' = PNone then actor \<in> set users \<or> 1 < v
         else names_user (get (get content ''notice'') ''author'') ''id'' ''origin_domain'' actor))"
proof -
  let ?conv = "get content ''conversation''"
  have shape: "group_state_shape content x a"
    using assms by (auto simp: authority_group_state_ref_def split: if_splits)
  then obtain ps where ps: "get content ''participants'' = PList ps" "1 \<le> length ps" "length ps \<le> 10"
    by (auto simp: group_state_shape_def Let_def MAX_GROUP_DM_PARTICIPANTS_def split: pyval.splits)
  obtain owner where ids: "a' = a" "authority_event_id (get ?conv ''id'') = Inr (Some c)"
      "authority_event_id (get ?conv ''state_version'') = Inr (Some v)" "authority_profile_ref (get ?conv ''owner'') = Inr (Some owner)"
    and members: "group_membership_refused content a c v (Some owner) actor = Inr False"
    using assms shape by (rule group_state_ids)
  obtain refs where refs: "collect authority_profile_ref ps = Inr refs" "None \<notin> set refs" "distinct refs" "Some owner \<in> set refs"
    and notice: "(if get content ''notice'' \<noteq> PNone then group_notice_refused (get content ''notice'') a c actor refs
        else Inr (Some actor \<notin> set refs \<and> v = 1)) = Inr False"
    using group_membership_accepted [OF members ps(1)] by blast
  obtain users where users: "refs = map Some users" "list_all2 (\<lambda>p u. authority_profile_ref p = Inr (Some u)) ps users"
    using refs(1,2) by (rule collect_Some)
  have profiles: "list_all2 (\<lambda>p u. names_user p ''id'' ''origin_domain'' u) ps users"
    using users(2) by (rule list_all2_mono) (rule profile_names)
  have owner: "names_user (get ?conv ''owner'') ''id'' ''origin_domain'' owner"
    using ids(4) by (rule profile_names)
  have "authority_profile_ref (get (get content ''notice'') ''author'') = Inr (Some actor)" if "get content ''notice'' \<noteq> PNone"
    using notice that by (auto simp: group_notice_refused_def result_simps accepted_simps Let_def split: if_splits)
  then have author: "get content ''notice'' \<noteq> PNone \<Longrightarrow> names_user (get (get content ''notice'') ''author'') ''id'' ''origin_domain'' actor"
    using profile_names by blast
  have length: "length users = length ps" using users(2) by (simp add: list_all2_lengthD)
  have members: "owner \<in> set users" "distinct users" using refs users(1) by (auto simp: distinct_map)
  have ranges: "positive_id c" "positive_id v" using ids by (auto simp: authority_event_id_Some positive_id_def snowflake_range_def)
  have actor: "if get content ''notice'' = PNone then actor \<in> set users \<or> 1 < v
      else names_user (get (get content ''notice'') ''author'') ''id'' ''origin_domain'' actor"
    using notice author users(1) ranges(2) by (auto simp: positive_id_def)
  have "x = PDict []" "get ?conv ''authority_domain'' = PStr a" "get ?conv ''deleted'' = PBool False"
    using shape by (auto simp: group_state_shape_def Let_def)
  then show ?thesis
    using ids ps profiles owner actor members ranges length
    by (intro conjI exI [of _ ps] exI [of _ users] exI [of _ owner]) (simp_all add: authority_event_id_Some)
qed

lemma group_event_cases:
  assumes "authority_attested_group_event_ref lib event_type content x authority actor_id actor_domain = Inr (Some r)"
  obtains i d where "authority_event_id actor_id = Inr (Some i)" "authority_event_domain actor_domain = Some d"
      "authority_event_domain (PStr authority) = Some authority" "d \<noteq> authority"
    "event_type = pkey ''dm.group.state'' \<and> authority_group_state_ref lib content x authority (i, d) = Inr (Some r) \<or>
      event_type = pkey ''dm.group.message.committed'' \<and> authority_group_message_ref content x authority (i, d) = Inr (Some r) \<or>
      event_type = pkey ''dm.group.call.create'' \<and> authority_group_call_ref content x authority (i, d) = Inr (Some r)"
proof -
  obtain io where io: "authority_event_id actor_id = Inr io"
    using assms unfolding authority_attested_group_event_ref_def rbind_Inr_iff by blast
  have auth: "authority_event_domain (PStr authority) = Some authority \<or> authority_event_domain (PStr authority) = None"
    by (cases "authority_event_domain (PStr authority)") (simp_all add: authority_event_domain_Some)
  show ?thesis
  proof (cases "io = None \<or> authority_event_domain actor_domain = None \<or> authority_event_domain (PStr authority) = None")
    case True
    then show ?thesis using assms by (auto simp: authority_attested_group_event_ref_def io split: option.splits)
  next
    case False
    then obtain i d where "io = Some i" "authority_event_domain actor_domain = Some d"
      "authority_event_domain (PStr authority) = Some authority" using auth by auto
    then show ?thesis using assms io that [of i d] by (auto simp: authority_attested_group_event_ref_def split: if_splits)
  qed
qed

lemma group_event_ids:
  assumes "authority_attested_group_event_ref lib event_type content x authority actor_id actor_domain = Inr (Some (c, a, v))"
  shows "a = authority \<and> DOMAIN_RE authority \<and> positive_id c \<and> positive_id v"
  using assms
proof (rule group_event_cases)
  fix i d assume auth: "authority_event_domain (PStr authority) = Some authority"
    and "event_type = pkey ''dm.group.state'' \<and> authority_group_state_ref lib content x authority (i, d) = Inr (Some (c, a, v)) \<or>
      event_type = pkey ''dm.group.message.committed'' \<and> authority_group_message_ref content x authority (i, d) = Inr (Some (c, a, v)) \<or>
      event_type = pkey ''dm.group.call.create'' \<and> authority_group_call_ref content x authority (i, d) = Inr (Some (c, a, v))"
  then have "a = authority \<and> positive_id c \<and> positive_id v"
    using group_state_binds [of lib content x authority "(i, d)" c a v] group_message_binds [of content x authority "(i, d)" c a v]
      group_call_binds [of content x authority "(i, d)" c a v] group_context_Some [of x authority c a v] by blast
  then show ?thesis using auth by (simp add: authority_event_domain_Some)
qed

section \<open>Accepted deletion controls\<close>

lemma terminal_candidate_Some:
  assumes "terminal_room_candidate envelope origin = Inr (Some (kind, raw))"
  shows "kind = ''guild'' \<and> get envelope ''type'' = pkey ''guild.instance_access.revoked'' \<and>
      raw = get (get envelope ''context'') ''guild_id'' \<and>
      authority_attested_terminal_guild_actor (get envelope ''type'') (get envelope ''content'') (get envelope ''context'') origin
        (get (get envelope ''actor'') ''id'') (get (get envelope ''actor'') ''domain'') = Inr True \<or>
    kind = ''group_dm'' \<and> get envelope ''type'' = pkey ''dm.group.state'' \<and> raw = get (get (get envelope ''content'') ''conversation'') ''id'' \<and>
      terminal_group_shape (get envelope ''content'') (get envelope ''context'') origin"
  using assms by (auto simp: terminal_room_candidate_def Let_def accepted_simps split: if_splits)

lemma terminal_room_Some:
  assumes "terminal_room_event_ref lib envelope = Inr (Some (kind, n, origin))"
  shows "get envelope ''origin'' = PStr origin \<and> keys_are envelope envelope_keys \<and> DOMAIN_RE origin \<and>
    signed_once_by (get envelope ''signatures'') origin \<and> snowflake_range n \<and>
    terminal_room_candidate envelope origin = Inr (Some (kind, id_text n)) \<and> (\<exists>g. terminal_room_generation envelope = Inr g) \<and>
    (kind = ''group_dm'' \<longrightarrow> terminal_group_refused lib (get (get envelope ''content'') ''conversation'') origin n = Inr False)"
proof -
  obtain o' where o: "get envelope ''origin'' = PStr o'" using assms by (auto simp: terminal_room_event_ref_def split: pyval.splits)
  have guards: "keys_are envelope envelope_keys" "DOMAIN_RE o'" "signed_once_by (get envelope ''signatures'') o'"
    using assms by (auto simp: terminal_room_event_ref_def o split: if_splits)
  obtain k raw where cand: "terminal_room_candidate envelope o' = Inr (Some (k, raw))"
    using assms by (auto simp: terminal_room_event_ref_def o rbind_Inr_iff split: if_splits option.splits)
  have dec: "\<not> not_decimal raw" using assms by (auto simp: terminal_room_event_ref_def o cand split: if_splits)
  obtain m where m: "int_text raw = Inr m" using assms dec by (auto simp: terminal_room_event_ref_def o cand rbind_Inr_iff split: if_splits)
  have "0 \<le> m" "m \<le> MAX_SNOWFLAKE" "kind = k" "n = m" "origin = o'" "\<exists>g. terminal_room_generation envelope = Inr g"
      "k = ''group_dm'' \<longrightarrow> terminal_group_refused lib (get (get envelope ''content'') ''conversation'') o' m = Inr False"
    using assms dec by (auto simp: terminal_room_event_ref_def o cand m accepted_simps split: if_splits sum.splits)
  then show ?thesis using o guards cand decimal_text [OF dec m] by (auto simp: snowflake_range_def max_snowflake)
qed

lemma terminal_room_generation_Inr:
  assumes "terminal_room_generation envelope = Inr g"
  shows "get (get envelope ''content'') ''_terminal_generation'' = id_text g \<and> positive_id g"
proof -
  let ?raw = "get (get envelope ''content'') ''_terminal_generation''"
  have "\<not> not_decimal ?raw" "int_text ?raw = Inr g" "1 \<le> g" "g \<le> MAX_SNOWFLAKE"
    using assms by (auto simp: terminal_room_generation_def Let_def rbind_Inr_iff split: if_splits)
  then show ?thesis using decimal_text [of ?raw g] by (simp add: positive_id_def max_snowflake)
qed

lemma checked_id:
  assumes "\<not> not_decimal v" "id_exceeds v = Inr False" "int_text v = Inr n"
  shows "snowflake_range n \<and> v = id_text n"
  using assms id_exceeds_False [of v] by (auto simp: id_text_decimal)

lemma checked_generation:
  assumes "\<not> not_decimal v" "not_positive v = Inr False" "int_text v = Inr n"
  shows "positive_id n \<and> v = id_text n"
proof -
  obtain m where "snowflake_range m" "1 \<le> m" "v = id_text m" using assms(1,2) not_positive_False [of v] by auto
  then show ?thesis using assms(3) by (auto simp: id_text_decimal positive_id_def snowflake_range_def)
qed

lemma exact_ref_Some:
  assumes "exact_ref raw expected = Inr (Some (n, d))"
  shows "snowflake_range n \<and> DOMAIN_RE d \<and> get raw ''id'' = id_text n \<and> get raw ''origin_domain'' = PStr d \<and>
     (case expected of None \<Rightarrow> True | Some e \<Rightarrow> d = e)"
proof -
  let ?i = "get raw ''id''" and ?d = "get raw ''origin_domain''"
  have i: "\<not> not_decimal ?i" "id_exceeds ?i = Inr False" "int_text ?i = Inr n"
    and d: "\<not> not_domain ?d" "d = the (as_str ?d)" and e: "case expected of None \<Rightarrow> True | Some e \<Rightarrow> ?d = PStr e"
    using assms by (auto simp: exact_ref_def accepted_simps result_simps split: option.splits)
  then show ?thesis using checked_id [OF i] by (auto simp: not_domain_iff split: option.splits)
qed

lemma media_request_checks:
  assumes "guild_media_delete_request_ref fromisoformat envelope = Inr (Some r)"
  obtains origin where "get envelope ''type'' = pkey ''guild.media.delete.request''" "get envelope ''origin'' = PStr origin" "DOMAIN_RE origin"
    "signed_once_by (get envelope ''signatures'') origin"
    "rbind (exact_ref (get (get envelope ''content'') ''guild'') (Some origin)) (\<lambda>guild_ref.
       rbind (exact_ref (get (get envelope ''content'') ''message'') (Some origin)) (\<lambda>message_ref.
       rbind (exact_ref (get (get envelope ''content'') ''attachment'') None) (\<lambda>attachment_ref.
         case (guild_ref, message_ref, attachment_ref) of
           (Some g, Some m, Some a) \<Rightarrow> media_request_result fromisoformat (get envelope ''content'') origin g m a
         | _ \<Rightarrow> Inr None))) = Inr (Some r)"
proof -
  obtain origin where o: "get envelope ''origin'' = PStr origin" and "DOMAIN_RE origin"
    using assms by (auto simp: guild_media_delete_request_ref_def Let_def accepted_simps not_domain_iff)
  then show ?thesis
    using that [of origin] assms unfolding guild_media_delete_request_ref_def Let_def o pyval.case refuse_if_Some by simp
qed

lemma bind3_Some:
  "rbind r (\<lambda>x. rbind s (\<lambda>y. rbind t (\<lambda>z. case (x, y, z) of (Some a, Some b, Some c) \<Rightarrow> f a b c | _ \<Rightarrow> Inr None))) = Inr (Some u) \<longleftrightarrow>
     (\<exists>a b c. r = Inr (Some a) \<and> s = Inr (Some b) \<and> t = Inr (Some c) \<and> f a b c = Inr (Some u))"
  by (cases r; cases s; cases t) (auto split: option.splits)

lemma media_request_result_Some:
  assumes "media_request_result fromisoformat content origin g m a = Inr (Some r)"
  shows "\<exists>gen. r = (fst g, snd g, fst m, snd m, fst a, snd a, gen) \<and> snd a \<noteq> origin \<and> positive_id gen \<and>
     get content ''_deletion_generation'' = id_text gen"
proof -
  let ?g = "get content ''_deletion_generation''"
  obtain gen where "\<not> not_decimal ?g" "not_positive ?g = Inr False" "int_text ?g = Inr gen"
    and r: "snd a \<noteq> origin" "r = (fst g, snd g, fst m, snd m, fst a, snd a, gen)"
    using assms by (auto simp: media_request_result_def Let_def accepted_simps result_simps split: option.splits if_splits)
  then show ?thesis using checked_generation by blast
qed

lemma media_request_Some:
  assumes "guild_media_delete_request_ref fromisoformat envelope = Inr (Some (g, gd, m, md, n, nd, gen))"
  shows "get envelope ''origin'' = PStr gd \<and> signed_once_by (get envelope ''signatures'') gd \<and> md = gd \<and> nd \<noteq> gd \<and>
     DOMAIN_RE gd \<and> DOMAIN_RE nd \<and> snowflake_range g \<and> snowflake_range m \<and> snowflake_range n \<and>
     names_user (get (get envelope ''content'') ''guild'') ''id'' ''origin_domain'' (g, gd) \<and>
     names_user (get (get envelope ''content'') ''message'') ''id'' ''origin_domain'' (m, md) \<and>
     names_user (get (get envelope ''content'') ''attachment'') ''id'' ''origin_domain'' (n, nd) \<and>
     get (get envelope ''content'') ''_deletion_generation'' = id_text gen \<and> positive_id gen"
proof -
  obtain origin where origin: "get envelope ''origin'' = PStr origin" "DOMAIN_RE origin" "signed_once_by (get envelope ''signatures'') origin"
    and rest: "rbind (exact_ref (get (get envelope ''content'') ''guild'') (Some origin)) (\<lambda>guild_ref.
       rbind (exact_ref (get (get envelope ''content'') ''message'') (Some origin)) (\<lambda>message_ref.
       rbind (exact_ref (get (get envelope ''content'') ''attachment'') None) (\<lambda>attachment_ref.
         case (guild_ref, message_ref, attachment_ref) of
           (Some g, Some m, Some a) \<Rightarrow> media_request_result fromisoformat (get envelope ''content'') origin g m a
         | _ \<Rightarrow> Inr None))) = Inr (Some (g, gd, m, md, n, nd, gen))"
    using assms by (rule media_request_checks)
  obtain g' m' a' where refs: "exact_ref (get (get envelope ''content'') ''guild'') (Some origin) = Inr (Some g')"
      "exact_ref (get (get envelope ''content'') ''message'') (Some origin) = Inr (Some m')"
      "exact_ref (get (get envelope ''content'') ''attachment'') None = Inr (Some a')"
    and result: "media_request_result fromisoformat (get envelope ''content'') origin g' m' a' = Inr (Some (g, gd, m, md, n, nd, gen))"
    using rest unfolding bind3_Some by blast
  have "(g, gd) = g'" "(m, md) = m'" "(n, nd) = a'" "nd \<noteq> origin" "positive_id gen"
      "get (get envelope ''content'') ''_deletion_generation'' = id_text gen"
    using media_request_result_Some [OF result] by auto
  with refs exact_ref_Some [of "get (get envelope ''content'') ''guild''" "Some origin" g gd]
    exact_ref_Some [of "get (get envelope ''content'') ''message''" "Some origin" m md]
    exact_ref_Some [of "get (get envelope ''content'') ''attachment''" None n nd] origin
  show ?thesis by (auto simp: names_user_def)
qed

lemma media_delete_Some:
  assumes "authority_attested_media_delete_ref envelope a = Inr (Some (n, o', gen))"
  shows "get envelope ''origin'' = PStr a \<and> signed_once_by (get envelope ''signatures'') a \<and> o' = a \<and> snowflake_range n \<and>
     names_user (get envelope ''content'') ''attachment_id'' ''origin_domain'' (n, a) \<and>
     get (get envelope ''content'') ''generation'' = id_text gen \<and> positive_id gen"
proof -
  let ?i = "get (get envelope ''content'') ''attachment_id''" and ?g = "get (get envelope ''content'') ''generation''"
  have "get envelope ''origin'' = PStr a" "signed_once_by (get envelope ''signatures'') a" "o' = a"
      "get (get envelope ''content'') ''origin_domain'' = PStr a"
    and i: "\<not> not_decimal ?i" "id_exceeds ?i = Inr False" "int_text ?i = Inr n"
    and g: "\<not> not_decimal ?g" "not_positive ?g = Inr False" "int_text ?g = Inr gen"
    using assms by (auto simp: authority_attested_media_delete_ref_def Let_def accepted_simps result_simps)
  then show ?thesis using checked_id [OF i] checked_generation [OF g] by (simp add: names_user_def)
qed

lemma guild_message_Some:
  assumes "guild_message_authority_event_refs t content x a = Inr (Some (g, a', n, d))"
  shows "t = pkey ''guild.message.create'' \<and> a' = a \<and> snowflake_range g \<and> snowflake_range n \<and> DOMAIN_RE d \<and>
     names_user x ''guild_id'' ''guild_domain'' (g, a) \<and> names_user (get content ''message'') ''author_id'' ''author_domain'' (n, d)"
proof -
  let ?g = "get x ''guild_id''" and ?m = "get content ''message''"
  have t: "t = pkey ''guild.message.create''" "a' = a" "get x ''guild_domain'' = PStr a"
    and g: "\<not> not_decimal ?g" "id_exceeds ?g = Inr False" "int_text ?g = Inr g"
    and n: "\<not> not_decimal (get ?m ''author_id'')" "id_exceeds (get ?m ''author_id'') = Inr False" "int_text (get ?m ''author_id'') = Inr n"
    and d: "\<not> not_domain (get ?m ''author_domain'')" "d = the (as_str (get ?m ''author_domain''))"
    using assms by (auto simp: guild_message_authority_event_refs_def Let_def accepted_simps result_simps)
  then show ?thesis using checked_id [OF g] checked_id [OF n] by (auto simp: not_domain_iff names_user_def)
qed

text \<open>The body of an accepted deletion of a room names that room and its origin.\<close>

lemma terminal_room_bound:
  assumes "terminal_room_event_ref lib envelope = Inr (Some (kind, n, origin))"
  shows "kind = ''guild'' \<and> names_user (get envelope ''context'') ''guild_id'' ''guild_domain'' (n, origin) \<and>
      get (get envelope ''content'') ''reason'' = pkey ''guild_deleted'' \<or>
    kind = ''group_dm'' \<and> (let conversation = get (get envelope ''content'') ''conversation''
      in names_user conversation ''id'' ''origin_domain'' (n, origin) \<and> get conversation ''authority_domain'' = PStr origin \<and>
         get conversation ''pair_key'' = PStr (group_dm_key lib origin n) \<and> get conversation ''deleted'' = PBool True \<and>
         get (get envelope ''content'') ''participants'' = PList [])"
proof -
  note room = terminal_room_Some [OF assms]
  then have cand: "terminal_room_candidate envelope origin = Inr (Some (kind, id_text n))" by blast
  from terminal_candidate_Some [OF cand] show ?thesis
  proof
    assume group: "kind = ''group_dm'' \<and> get envelope ''type'' = pkey ''dm.group.state'' \<and>
        id_text n = get (get (get envelope ''content'') ''conversation'') ''id'' \<and>
        terminal_group_shape (get envelope ''content'') (get envelope ''context'') origin"
    with room have "terminal_group_refused lib (get (get envelope ''content'') ''conversation'') origin n = Inr False" by blast
    then have "get (get (get envelope ''content'') ''conversation'') ''pair_key'' = PStr (group_dm_key lib origin n)"
      by (simp add: terminal_group_refused_def Let_def any_of_False)
    with group show ?thesis by (simp add: terminal_group_shape_def names_user_def Let_def)
  qed (auto simp: authority_attested_terminal_guild_actor_def all_of_True names_user_def)
qed

lemma canonical_domain_Some: "canonical_domain v = Some d \<longleftrightarrow> v = PStr d \<and> DOMAIN_RE d"
  by (cases v) (auto simp: canonical_domain_def not_domain_def as_str_def)

lemma case_Some_Inr: "(case x of None \<Rightarrow> Inr None | Some y \<Rightarrow> f y) = Inr (Some z) \<longleftrightarrow> (\<exists>y. x = Some y \<and> f y = Inr (Some z))"
  by (cases x) auto

lemma crosspost_Some:
  assumes "guild_crosspost_authority_event_ref t content x a = Inr (Some (g, a'))"
  shows "a' = a \<and> crosspost_shape t content x a \<and> canonical_id (get x ''guild_id'') = Inr (Some g) \<and>
     (\<exists>n d m md. canonical_id (get (get content ''message'') ''author_id'') = Inr (Some n) \<and>
        canonical_domain (get (get content ''message'') ''author_domain'') = Some d \<and>
        names_user (get content ''author'') ''id'' ''origin_domain'' (n, d) \<and> DOMAIN_RE md \<and> snowflake_range m \<and>
        names_user (get content ''message'') ''forwarded_message_id'' ''forwarded_message_domain'' (m, md) \<and>
        get (get content ''message'') ''forwarded_message_ref'' = PStr (entity_text m md))"
proof -
  have shape: "crosspost_shape t content x a" using assms by (auto simp: guild_crosspost_authority_event_ref_def split: if_splits)
  show ?thesis
    using assms shape
    by (auto simp: guild_crosspost_authority_event_ref_def Let_def rbind_Inr_iff case_Some_Inr canonical_id_Some
        canonical_domain_Some names_user_def simp del: split_paired_Ex split: if_splits)
qed

lemma str_le_total: "str_le s t \<or> str_le t s"
  by (induction s t rule: str_le.induct) auto

lemma str_le_antisym: "str_le s t \<Longrightarrow> str_le t s \<Longrightarrow> s = t"
  by (induction s t rule: str_le.induct) (auto elim: str_le.elims)

lemma sorted_pair_commute: "sorted_pair s t = sorted_pair t s"
  using str_le_total [of s t] str_le_antisym [of s t] by (auto simp: sorted_pair_def)

lemma normalize_handle_Inl: "normalize_handle lib a = Inl e \<Longrightarrow> e = ValueError ''handle must be username@domain''"
  by (auto simp: normalize_handle_def split: prod.splits if_splits)

definition sample_lib :: text_lib where
  "sample_lib = \<lparr>str_lower = id, sha256_hex = id\<rparr>"

definition sample_context :: pyval where
  "sample_context = PDict [(pkey ''conversation_id'', pkey ''5''), (pkey ''conversation_domain'', pkey ''a.ex''), (pkey ''state_version'', pkey ''2'')]"

definition sample_message :: "pyval \<Rightarrow> pyval" where
  "sample_message origin = PDict [(pkey ''message'', PDict [(pkey ''id'', pkey ''7''), (pkey ''origin_domain'', origin),
       (pkey ''channel_id'', pkey ''5''), (pkey ''channel_domain'', pkey ''a.ex''), (pkey ''author_id'', pkey ''3''), (pkey ''author_domain'', pkey ''b.ex'')]),
     (pkey ''author'', PDict [(pkey ''id'', pkey ''3''), (pkey ''origin_domain'', pkey ''b.ex'')])]"


definition sample_crosspost_message :: pyval where
  "sample_crosspost_message = PDict [(pkey ''id'', pkey ''7''), (pkey ''flags'', PInt 2), (pkey ''message_type'', PInt 0),
     (pkey ''origin_domain'', pkey ''a.ex''), (pkey ''channel_id'', pkey ''5''), (pkey ''channel_domain'', pkey ''a.ex''),
     (pkey ''author_id'', pkey ''3''), (pkey ''author_domain'', pkey ''b.ex''), (pkey ''forwarded_message_id'', pkey ''8''),
     (pkey ''forwarded_message_domain'', pkey ''c.ex''), (pkey ''forwarded_channel_id'', pkey ''9''),
     (pkey ''forwarded_channel_domain'', pkey ''c.ex''), (pkey ''forwarded_message_ref'', pkey ''8@c.ex''),
     (pkey ''message_reference'', crosspost_reference 8 (ucs ''c.ex'') 9 (ucs ''c.ex''))]"

definition sample_crosspost :: pyval where
  "sample_crosspost = PDict [(pkey ''message'', sample_crosspost_message),
     (pkey ''author'', PDict [(pkey ''id'', pkey ''3''), (pkey ''origin_domain'', pkey ''b.ex'')]), (pkey ''thread_starter'', PBool False)]"

definition sample_guild_context :: pyval where
  "sample_guild_context = PDict [(pkey ''guild_id'', pkey ''4''), (pkey ''guild_domain'', pkey ''a.ex''), (pkey ''channel_id'', pkey ''5''),
     (pkey ''channel_domain'', pkey ''a.ex'')]"

lemma sample_crosspost_accepted:
  "guild_crosspost_authority_event_ref (pkey ''guild.message.create'') sample_crosspost sample_guild_context (ucs ''a.ex'') = Inr (Some (4, ucs ''a.ex''))"
  by code_simp

definition sample_terminal :: pyval where
  "sample_terminal = PDict [(pkey ''event_id'', pkey ''e''), (pkey ''origin'', pkey ''a.ex''), (pkey ''type'', pkey ''guild.instance_access.revoked''),
     (pkey ''ts'', PInt 1), (pkey ''actor'', PDict [(pkey ''id'', pkey ''3''), (pkey ''domain'', pkey ''b.ex'')]),
     (pkey ''context'', PDict [(pkey ''guild_id'', pkey ''4''), (pkey ''guild_domain'', pkey ''a.ex'')]),
     (pkey ''content'', PDict [(pkey ''target_domain'', pkey ''c.ex''), (pkey ''reason'', pkey ''guild_deleted''), (pkey ''_terminal_generation'', pkey ''1'')]),
     (pkey ''signatures'', PDict [(pkey ''a.ex'', PDict [(pkey ''k'', pkey ''s'')])])]"

lemma sample_terminal_accepted: "terminal_room_event_ref sample_lib sample_terminal = Inr (Some (''guild'', 4, ucs ''a.ex''))"
  by code_simp

text \<open>The deletion of a group, a request to delete media and a media tombstone.\<close>

definition sample_deletion :: "string \<Rightarrow> pyval \<Rightarrow> pyval" where
  "sample_deletion event_type content = PDict [(pkey ''event_id'', pkey ''e''), (pkey ''origin'', pkey ''a.ex''), (pkey ''type'', pkey event_type),
     (pkey ''ts'', PInt 1), (pkey ''actor'', PDict [(pkey ''id'', pkey ''3''), (pkey ''domain'', pkey ''b.ex'')]), (pkey ''context'', PDict []),
     (pkey ''content'', content), (pkey ''signatures'', PDict [(pkey ''a.ex'', PDict [(pkey ''k'', pkey ''s'')])])]"

definition sample_ref :: "string \<Rightarrow> string \<Rightarrow> pyval" where
  "sample_ref i domain = PDict [(pkey ''id'', pkey i), (pkey ''origin_domain'', pkey domain)]"

definition sample_group_terminal :: pyval where
  "sample_group_terminal = sample_deletion ''dm.group.state'' (PDict [(pkey ''conversation'', PDict
      [(pkey ''id'', pkey ''5''), (pkey ''origin_domain'', pkey ''a.ex''), (pkey ''type'', pkey ''group''),
       (pkey ''authority_domain'', pkey ''a.ex''), (pkey ''pair_key'', PStr (group_dm_key sample_lib (ucs ''a.ex'') 5)), (pkey ''name'', PNone),
       (pkey ''owner'', sample_ref ''3'' ''b.ex''), (pkey ''state_version'', pkey ''2''), (pkey ''deleted'', PBool True),
       (pkey ''encryption_policy'', PDict [(pkey ''mode'', pkey ''plaintext''), (pkey ''state'', pkey ''plaintext''), (pkey ''generation'', pkey ''0''),
          (pkey ''protocol'', PNone), (pkey ''suite'', PNone), (pkey ''group_id'', PNone), (pkey ''epoch'', PNone)])]),
     (pkey ''participants'', PList []), (pkey ''_terminal_generation'', pkey ''1'')])"

definition sample_media_request :: pyval where
  "sample_media_request = sample_deletion ''guild.media.delete.request'' (PDict [(pkey ''guild'', sample_ref ''4'' ''a.ex''),
     (pkey ''message'', sample_ref ''7'' ''a.ex''), (pkey ''attachment'', sample_ref ''8'' ''b.ex''),
     (pkey ''deleted_at'', pkey ''2026-01-01T00:00:00+00:00''), (pkey ''_deletion_generation'', pkey ''2'')])"

definition sample_tombstone :: pyval where
  "sample_tombstone = sample_deletion ''media.delete'' (PDict [(pkey ''attachment_id'', pkey ''8''), (pkey ''origin_domain'', pkey ''a.ex''),
     (pkey ''generation'', pkey ''2'')])"

lemma sample_group_terminal_accepted:
  "terminal_room_event_ref sample_lib sample_group_terminal = Inr (Some (''group_dm'', 5, ucs ''a.ex''))"
  by code_simp

lemma sample_media_request_accepted:
  "guild_media_delete_request_ref (\<lambda>s. Some (True, s)) sample_media_request =
     Inr (Some (4, ucs ''a.ex'', 7, ucs ''a.ex'', 8, ucs ''b.ex'', 2))"
  by code_simp

lemma sample_tombstone_accepted:
  "authority_attested_media_delete_ref sample_tombstone (ucs ''a.ex'') = Inr (Some (8, ucs ''a.ex'', 2))"
  by code_simp

section \<open>Properties\<close>



text \<open>
  C12: A deletion that is accepted from another instance is bound to the instance that sent it. An accepted deletion of a room names
  the room in its body by the returned identifier and by the origin of the envelope, which is a normalised domain and its one and only
  signer, with a positive generation: a guild through the event's context, a group through its conversation, its authority and its pair
  key. An accepted request to delete media names a guild and a message of its origin and an attachment of another instance. An accepted
  media tombstone names an attachment of its origin, which is the expected authority. Each reference that is returned is the one in the body.
\<close>

theorem deletion_controls_bound:
  "(terminal_room_event_ref lib envelope = Inr (Some (kind, n, origin)) \<longrightarrow>
      get envelope ''origin'' = PStr origin \<and> DOMAIN_RE origin \<and> signed_once_by (get envelope ''signatures'') origin \<and> snowflake_range n \<and>
      (\<exists>g. get (get envelope ''content'') ''_terminal_generation'' = id_text g \<and> positive_id g) \<and>
      (kind = ''guild'' \<and> names_user (get envelope ''context'') ''guild_id'' ''guild_domain'' (n, origin) \<and>
         get (get envelope ''content'') ''reason'' = pkey ''guild_deleted'' \<or>
       kind = ''group_dm'' \<and> (let conversation = get (get envelope ''content'') ''conversation''
         in names_user conversation ''id'' ''origin_domain'' (n, origin) \<and> get conversation ''authority_domain'' = PStr origin \<and>
            get conversation ''pair_key'' = PStr (group_dm_key lib origin n) \<and> get conversation ''deleted'' = PBool True \<and>
            get (get envelope ''content'') ''participants'' = PList []))) \<and>
   (guild_media_delete_request_ref iso8601 envelope = Inr (Some (g, gd, m, md, a, ad, gen)) \<longrightarrow>
      get envelope ''origin'' = PStr gd \<and> DOMAIN_RE gd \<and> signed_once_by (get envelope ''signatures'') gd \<and> md = gd \<and> ad \<noteq> gd \<and> DOMAIN_RE ad \<and>
      snowflake_range g \<and> snowflake_range m \<and> snowflake_range a \<and>
      names_user (get (get envelope ''content'') ''guild'') ''id'' ''origin_domain'' (g, gd) \<and>
      names_user (get (get envelope ''content'') ''message'') ''id'' ''origin_domain'' (m, md) \<and>
      names_user (get (get envelope ''content'') ''attachment'') ''id'' ''origin_domain'' (a, ad) \<and>
      get (get envelope ''content'') ''_deletion_generation'' = id_text gen \<and> positive_id gen) \<and>
   (authority_attested_media_delete_ref envelope authority = Inr (Some (k, kd, gen')) \<longrightarrow>
      kd = authority \<and> get envelope ''origin'' = PStr authority \<and> signed_once_by (get envelope ''signatures'') authority \<and> snowflake_range k \<and>
      names_user (get envelope ''content'') ''attachment_id'' ''origin_domain'' (k, authority) \<and>
      get (get envelope ''content'') ''generation'' = id_text gen' \<and> positive_id gen')"
proof (intro conjI impI)
  assume r: "terminal_room_event_ref lib envelope = Inr (Some (kind, n, origin))"
  show "get envelope ''origin'' = PStr origin" "DOMAIN_RE origin" "signed_once_by (get envelope ''signatures'') origin" "snowflake_range n"
    "\<exists>g. get (get envelope ''content'') ''_terminal_generation'' = id_text g \<and> positive_id g"
    using terminal_room_Some [OF r] terminal_room_generation_Inr by blast+
  from terminal_room_bound [OF r]
  show "kind = ''guild'' \<and> names_user (get envelope ''context'') ''guild_id'' ''guild_domain'' (n, origin) \<and>
         get (get envelope ''content'') ''reason'' = pkey ''guild_deleted'' \<or>
       kind = ''group_dm'' \<and> (let conversation = get (get envelope ''content'') ''conversation''
         in names_user conversation ''id'' ''origin_domain'' (n, origin) \<and> get conversation ''authority_domain'' = PStr origin \<and>
            get conversation ''pair_key'' = PStr (group_dm_key lib origin n) \<and> get conversation ''deleted'' = PBool True \<and>
            get (get envelope ''content'') ''participants'' = PList [])" .
qed (use media_request_Some [of iso8601 envelope g gd m md a ad gen] media_delete_Some [of envelope authority k kd gen'] in blast)+

theorem deletion_controls_bound_witness:
  "terminal_room_event_ref sample_lib sample_terminal = Inr (Some (''guild'', 4, ucs ''a.ex'')) \<and>
   names_user (get sample_terminal ''context'') ''guild_id'' ''guild_domain'' (4, ucs ''a.ex'') \<and>
   terminal_room_event_ref sample_lib sample_group_terminal = Inr (Some (''group_dm'', 5, ucs ''a.ex'')) \<and>
   names_user (get (get sample_group_terminal ''content'') ''conversation'') ''id'' ''origin_domain'' (5, ucs ''a.ex'') \<and>
   guild_media_delete_request_ref (\<lambda>s. Some (True, s)) sample_media_request =
     Inr (Some (4, ucs ''a.ex'', 7, ucs ''a.ex'', 8, ucs ''b.ex'', 2)) \<and>
   names_user (get (get sample_media_request ''content'') ''attachment'') ''id'' ''origin_domain'' (8, ucs ''b.ex'') \<and>
   authority_attested_media_delete_ref sample_tombstone (ucs ''a.ex'') = Inr (Some (8, ucs ''a.ex'', 2)) \<and>
   names_user (get sample_tombstone ''content'') ''attachment_id'' ''origin_domain'' (8, ucs ''a.ex'')"
  using deletion_controls_bound [THEN conjunct1, rule_format, OF sample_terminal_accepted]
    deletion_controls_bound [THEN conjunct1, rule_format, OF sample_group_terminal_accepted]
    deletion_controls_bound [THEN conjunct2, THEN conjunct1, rule_format, OF sample_media_request_accepted]
    deletion_controls_bound [THEN conjunct2, THEN conjunct2, rule_format, OF sample_tombstone_accepted]
    sample_terminal_accepted sample_group_terminal_accepted sample_media_request_accepted sample_tombstone_accepted
  unfolding Let_def by simp

text \<open>
  C35: An event accepted as the copy of an announcement is also accepted as an ordinary message of the same guild, by the author that it
  names, and its reference names the copied message by the identifier and domain given beside it.
\<close>

theorem crosspost_is_guild_message:
  assumes "guild_crosspost_authority_event_ref event_type content x authority = Inr (Some (g, a))"
  shows "a = authority \<and>
    (\<exists>n d m md. guild_message_authority_event_refs event_type content x authority = Inr (Some (g, authority, n, d)) \<and>
       names_user (get content ''author'') ''id'' ''origin_domain'' (n, d) \<and> snowflake_range m \<and> DOMAIN_RE md \<and>
       get (get content ''message'') ''forwarded_message_ref'' = PStr (entity_text m md) \<and>
       names_user (get content ''message'') ''forwarded_message_id'' ''forwarded_message_domain'' (m, md))"
proof -
  obtain n d m md where shape: "crosspost_shape event_type content x authority" and g: "snowflake_range g" "get x ''guild_id'' = id_text g"
    and n: "snowflake_range n" "get (get content ''message'') ''author_id'' = id_text n"
    and d: "DOMAIN_RE d" "get (get content ''message'') ''author_domain'' = PStr d"
    and rest: "a = authority" "names_user (get content ''author'') ''id'' ''origin_domain'' (n, d)" "snowflake_range m" "DOMAIN_RE md"
      "get (get content ''message'') ''forwarded_message_ref'' = PStr (entity_text m md)"
      "names_user (get content ''message'') ''forwarded_message_id'' ''forwarded_message_domain'' (m, md)"
    using crosspost_Some [OF assms] by (auto simp: canonical_id_Some canonical_domain_Some)
  have "is_dict content" using shape by (cases content) (auto simp: crosspost_shape_def Let_def is_dict_def keys_are_def)
  moreover have "id_exceeds (id_text k) = Inr False" if "snowflake_range k" for k using that id_exceeds_False by blast
  ultimately have "guild_message_authority_event_refs event_type content x authority = Inr (Some (g, authority, n, d))"
    using shape g n d
    by (auto simp: guild_message_authority_event_refs_def crosspost_shape_def Let_def accepted_simps id_text_decimal not_domain_def)
  then show ?thesis using rest by blast
qed

theorem crosspost_is_guild_message_witness:
  "\<exists>n d. guild_message_authority_event_refs (pkey ''guild.message.create'') sample_crosspost sample_guild_context (ucs ''a.ex'') =
     Inr (Some (4, ucs ''a.ex'', n, d))"
  using crosspost_is_guild_message [OF sample_crosspost_accepted] by blast

text \<open>
  Both instances of a direct message compute the same pair key and the same authority, whichever handle they name first; the
  authority is the domain of one of the two handles, and a key exists exactly for two distinct normalised handles.
\<close>

theorem dm_pair_agreement:
  "dm_pair_key lib a b = dm_pair_key lib b a \<and> dm_authority_domain lib a b = dm_authority_domain lib b a \<and>
   (\<forall>h k. normalize_handle lib a = Inr h \<and> normalize_handle lib b = Inr k \<longrightarrow>
      dm_authority_domain lib a b \<in> {Inr (snd (snd (rpartition_at h))), Inr (snd (snd (rpartition_at k)))} \<and>
      (is_ok (dm_pair_key lib a b) \<longleftrightarrow> h \<noteq> k))"
proof -
  have "dm_pair_key lib a b = dm_pair_key lib b a"
    using normalize_handle_Inl [of lib a] normalize_handle_Inl [of lib b]
    by (cases "normalize_handle lib a"; cases "normalize_handle lib b") (auto simp: dm_pair_key_def sorted_pair_commute)
  moreover have "dm_authority_domain lib a b = dm_authority_domain lib b a"
    using normalize_handle_Inl [of lib a] normalize_handle_Inl [of lib b]
    by (cases "normalize_handle lib a"; cases "normalize_handle lib b") (auto simp: dm_authority_domain_def sorted_pair_commute)
  ultimately show ?thesis
    by (auto simp: dm_pair_key_def dm_authority_domain_def sorted_pair_def Let_def)
qed

theorem dm_pair_agreement_witness:
  "is_ok (dm_pair_key sample_lib (ucs ''u@a.ex'') (ucs ''v@b.ex''))"
proof -
  have "normalize_handle sample_lib (ucs ''u@a.ex'') = Inr (ucs ''u@a.ex'')" "normalize_handle sample_lib (ucs ''v@b.ex'') = Inr (ucs ''v@b.ex'')"
    by code_simp+
  then show ?thesis using dm_pair_agreement [of sample_lib "ucs ''u@a.ex''" "ucs ''v@b.ex''"] by auto
qed

text \<open>
  C39: The recogniser of group events raises a type error, instead of refusing the event, when an otherwise acceptable message has a list
  as its origin domain.
\<close>

theorem group_recogniser_raises:
  assumes "authority_group_context_ref x authority = Inr (Some r)" "authority_profile_ref (get content ''author'') = Inr (Some (i, d))"
    "DOMAIN_RE authority" "d \<noteq> authority" "keys_are content [''message'', ''author'']" "is_dict (get content ''message'')"
    "authority_event_id (get (get content ''message'') ''id'') = Inr (Some n)"
    "get (get content ''message'') ''origin_domain'' = PList vs"
  shows "authority_attested_group_event_ref lib (pkey ''dm.group.message.committed'') content x authority (id_text i) (PStr d) =
     Inl (TypeError ''unhashable type: list'')"
proof -
  have "authority_event_id (id_text i) = Inr (Some i)" "authority_event_domain (PStr d) = Some d"
    "authority_event_domain (PStr authority) = Some authority"
    using assms(2,3) by (auto simp: authority_profile_ref_Some authority_event_id_Some authority_event_domain_Some)
  moreover have "keys_within content [''message'', ''author''] [''message'', ''author'', ''forward_source_nsfw'', ''encryption_policy'', ''e2ee_control'']"
    using assms(5) by (cases content) (auto simp: keys_are_def keys_within_def has_keys_def has_key_def)
  ultimately show ?thesis
    using assms by (auto simp: authority_attested_group_event_ref_def authority_group_message_ref_def refuse_if_def any_of.simps in_set_def)
qed

theorem group_recogniser_raises_witness:
  "authority_attested_group_event_ref sample_lib (pkey ''dm.group.message.committed'') (sample_message (PList [])) sample_context (ucs ''a.ex'')
     (id_text 3) (pkey ''b.ex'') = Inl (TypeError ''unhashable type: list'')"
proof (rule group_recogniser_raises)
  show "authority_group_context_ref sample_context (ucs ''a.ex'') = Inr (Some (5, ucs ''a.ex'', 2))" by code_simp
  show "authority_profile_ref (get (sample_message (PList [])) ''author'') = Inr (Some (3, ucs ''b.ex''))" by code_simp
  show "DOMAIN_RE (ucs ''a.ex'')" by code_simp
  show "authority_event_id (get (get (sample_message (PList [])) ''message'') ''id'') = Inr (Some 7)" by code_simp
  show "get (get (sample_message (PList [])) ''message'') ''origin_domain'' = PList []" by code_simp
  show "keys_are (sample_message (PList [])) [''message'', ''author'']" "is_dict (get (sample_message (PList [])) ''message'')" by code_simp+
qed simp

end
