(* ===== verification/Canonical_Json.thy ===== *)
theory Canonical_Json
  imports Json_Limits "HOL-Library.List_Lexorder"
begin

text \<open>
  Canonical JSON and the signatures of federation (\<open>core/federation.py\<close>): the validated, sorted and compact rendering of a value as UTF-8
  bytes, and what is signed for a request and for an event envelope. The rendering is read back to show that the bytes determine the value.
\<close>

section \<open>Values in memory\<close>

text \<open>
  The validator compares object identities. A value built as a tree is laid out in memory with a container of its own
  at every place; the addresses are handed out in order.
\<close>

definition jkey_of :: "pyval \<Rightarrow> jkey" where
  "jkey_of k = (case k of PStr s \<Rightarrow> KStr s | _ \<Rightarrow> KOther)"

fun alloc :: "pyval \<Rightarrow> nat \<Rightarrow> jval \<times> (nat \<times> cell) list \<times> nat"
  and alloc_items :: "pyval list \<Rightarrow> nat \<Rightarrow> jval list \<times> (nat \<times> cell) list \<times> nat"
  and alloc_members :: "(pyval \<times> pyval) list \<Rightarrow> nat \<Rightarrow> (jkey \<times> jval) list \<times> (nat \<times> cell) list \<times> nat" where
  "alloc PNone n = (JNone, [], n)"
| "alloc (PBool b) n = (JBool b, [], n)"
| "alloc (PInt i) n = (JInt i, [], n)"
| "alloc (PFloat q) n = (JFloat True, [], n)"
| "alloc PNonFinite n = (JFloat False, [], n)"
| "alloc (PStr s) n = (JStr s, [], n)"
| "alloc POther n = (JOther, [], n)"
| "alloc (PList xs) n = (let (vs, cells, m) = alloc_items xs (Suc n) in (JRef n, (n, ListCell vs) # cells, m))"
| "alloc (PDict d) n = (let (ms, cells, m) = alloc_members d (Suc n) in (JRef n, (n, DictCell ms) # cells, m))"
| "alloc_items [] n = ([], [], n)"
| "alloc_items (x # xs) n =
     (let (v, cells, m) = alloc x n; (vs, cells', m') = alloc_items xs m in (v # vs, cells @ cells', m'))"
| "alloc_members [] n = ([], [], n)"
| "alloc_members ((k, x) # d) n =
     (let (v, cells, m) = alloc x n; (ms, cells', m') = alloc_members d m in ((jkey_of k, v) # ms, cells @ cells', m'))"

definition heap_of :: "(nat \<times> cell) list \<Rightarrow> jheap" where
  "heap_of cells a = (case map_of cells a of Some c \<Rightarrow> c | None \<Rightarrow> ListCell [])"

section \<open>Rendering\<close>

text \<open>
  \<open>json.dumps(value, ensure_ascii=False, allow_nan=False, sort_keys=True, separators=(",", ":"))\<close>. The text of a
  finite float is an argument.
\<close>

definition hex_digit :: "nat \<Rightarrow> nat" where
  "hex_digit n = (if n < 10 then 48 + n else 87 + n)"

definition escape_char :: "nat \<Rightarrow> ustr" where
  "escape_char c =
     (if c = 34 then [92, 34] else if c = 92 then [92, 92] else if c = 10 then [92, 110] else if c = 13 then [92, 114]
      else if c = 9 then [92, 116] else if c = 12 then [92, 102] else if c = 8 then [92, 98]
      else if c < 32 then [92, 117, 48, 48, hex_digit (c div 16), hex_digit (c mod 16)] else [c])"

definition json_string :: "ustr \<Rightarrow> ustr" where
  "json_string s = 34 # concat (map escape_char s) @ [34]"

definition key_text :: "pyval \<Rightarrow> ustr" where
  "key_text k = (case k of PStr s \<Rightarrow> s | _ \<Rightarrow> [])"

primrec dumps :: "(rat \<Rightarrow> ustr) \<Rightarrow> pyval \<Rightarrow> ustr" where
  "dumps float_text PNone = ucs ''null''"
| "dumps float_text (PBool b) = ucs (if b then ''true'' else ''false'')"
| "dumps float_text (PInt i) = ucs (string_of_int i)"
| "dumps float_text (PFloat q) = float_text q"
| "dumps float_text PNonFinite = []"
| "dumps float_text (PStr s) = json_string s"
| "dumps float_text (PList xs) = 91 # join_with 44 (map (dumps float_text) xs) @ [93]"
| "dumps float_text (PDict d) =
     123 # join_with 44 (map (\<lambda>(k, t). json_string (key_text k) @ 58 # t)
       (sort_key (\<lambda>kt. key_text (fst kt)) (map (map_prod id (dumps float_text)) d))) @ [125]"
| "dumps float_text POther = []"

text \<open>\<open>str.encode("utf-8")\<close> of code points that are not surrogates.\<close>

definition utf8_char :: "nat \<Rightarrow> nat list" where
  "utf8_char c =
     (if c < 128 then [c]
      else if c < 2048 then [192 + c div 64, 128 + c mod 64]
      else if c < 65536 then [224 + c div 4096, 128 + c div 64 mod 64, 128 + c mod 64]
      else [240 + c div 262144, 128 + c div 4096 mod 64, 128 + c div 64 mod 64, 128 + c mod 64])"

definition utf8_encode :: "ustr \<Rightarrow> nat list" where
  "utf8_encode s = concat (map utf8_char s)"

definition canonical_json :: "(rat \<Rightarrow> ustr) \<Rightarrow> bool \<Rightarrow> pyval \<Rightarrow> nat list result" where
  "canonical_json float_text allow_floats v =
     (let (root, cells, _) = alloc v 0
      in case validate_json_tree (heap_of cells) root FEDERATION_JSON_LIMITS ''federation JSON'' allow_floats of
           Some e \<Rightarrow> Inl e
         | None \<Rightarrow> Inr (utf8_encode (dumps float_text v)))"

section \<open>Signing\<close>

record SigningInput =
  si_method :: ustr
  si_request_target :: ustr
  si_origin :: ustr
  si_destination :: ustr
  si_timestamp :: int
  si_content_hash :: ustr
  si_nonce :: "ustr option"

text \<open>\<open>str.upper\<close> and Ed25519 are arguments: \<open>sign\<close> is the signature under a private key, \<open>verify\<close> whether a signature is valid.\<close>

definition signing_value :: "(ustr \<Rightarrow> ustr) \<Rightarrow> SigningInput \<Rightarrow> pyval" where
  "signing_value upper i =
     PDict ([(pkey ''content_sha256'', PStr (si_content_hash i)), (pkey ''destination'', PStr (si_destination i)),
             (pkey ''method'', PStr (upper (si_method i))), (pkey ''origin'', PStr (si_origin i)),
             (pkey ''request_target'', PStr (si_request_target i)), (pkey ''ts'', PInt (si_timestamp i))] @
            (case si_nonce i of None \<Rightarrow> [] | Some nonce \<Rightarrow> [(pkey ''nonce'', PStr nonce)]))"

definition canonical_bytes :: "(ustr \<Rightarrow> ustr) \<Rightarrow> SigningInput \<Rightarrow> nat list result" where
  "canonical_bytes upper i = canonical_json (\<lambda>_. []) False (signing_value upper i)"

definition sign_request :: "(ustr \<Rightarrow> ustr) \<Rightarrow> ('sk \<Rightarrow> nat list \<Rightarrow> 'sig) \<Rightarrow> SigningInput \<Rightarrow> 'sk \<Rightarrow> 'sig result" where
  "sign_request upper sign signing_input private_key =
     rbind (canonical_bytes upper signing_input) (\<lambda>bytes. Inr (sign private_key bytes))"

definition verify_request :: "(ustr \<Rightarrow> ustr) \<Rightarrow> ('pk \<Rightarrow> 'sig \<Rightarrow> nat list \<Rightarrow> bool) \<Rightarrow> SigningInput \<Rightarrow> 'sig \<Rightarrow> 'pk \<Rightarrow> bool result" where
  "verify_request upper verify signing_input signature public_key =
     rbind (canonical_bytes upper signing_input) (\<lambda>bytes. Inr (verify public_key signature bytes))"

definition envelope_signing_bytes :: "(pyval \<times> pyval) list \<Rightarrow> nat list result" where
  "envelope_signing_bytes envelope =
     canonical_json (\<lambda>_. []) False (PDict (filter (\<lambda>(key, _). \<not> py_eq key (pkey ''signatures'')) envelope))"

definition sign_envelope :: "('sk \<Rightarrow> nat list \<Rightarrow> 'sig) \<Rightarrow> ('sig \<Rightarrow> ustr) \<Rightarrow> (pyval \<times> pyval) list \<Rightarrow> 'sk \<Rightarrow> ustr result" where
  "sign_envelope sign b64encode envelope private_key =
     rbind (envelope_signing_bytes envelope) (\<lambda>bytes. Inr (b64encode (sign private_key bytes)))"

definition verify_envelope :: "('pk \<Rightarrow> 'sig \<Rightarrow> nat list \<Rightarrow> bool) \<Rightarrow> (pyval \<times> pyval) list \<Rightarrow> 'sig \<Rightarrow> 'pk \<Rightarrow> bool result" where
  "verify_envelope verify envelope signature public_key =
     rbind (envelope_signing_bytes envelope) (\<lambda>bytes. Inr (verify public_key signature bytes))"

section \<open>What is accepted\<close>

primrec value_nodes :: "pyval \<Rightarrow> nat" where
  "value_nodes PNone = 1" | "value_nodes (PBool b) = 1" | "value_nodes (PInt i) = 1" | "value_nodes (PFloat q) = 1"
| "value_nodes PNonFinite = 1" | "value_nodes (PStr s) = 1" | "value_nodes POther = 1"
| "value_nodes (PList xs) = Suc (sum_list (map value_nodes xs))"
| "value_nodes (PDict d) = Suc (sum_list (map snd (map (map_prod id value_nodes) d)))"

primrec value_ok :: "JsonTreeLimits \<Rightarrow> bool \<Rightarrow> pyval \<Rightarrow> nat \<Rightarrow> bool" where
  "value_ok limits af PNone = (\<lambda>d. d \<le> max_depth limits)"
| "value_ok limits af (PBool b) = (\<lambda>d. d \<le> max_depth limits)"
| "value_ok limits af (PInt i) = (\<lambda>d. d \<le> max_depth limits \<and> \<bar>i\<bar> \<le> 9007199254740991)"
| "value_ok limits af (PFloat q) = (\<lambda>d. d \<le> max_depth limits \<and> af)"
| "value_ok limits af PNonFinite = (\<lambda>d. False)"
| "value_ok limits af (PStr s) = (\<lambda>d. d \<le> max_depth limits \<and> string_ok (max_string_bytes limits) s)"
| "value_ok limits af POther = (\<lambda>d. False)"
| "value_ok limits af (PList xs) = (\<lambda>d. d \<le> max_depth limits \<and> length xs \<le> max_array_members limits \<and>
     list_all (\<lambda>ok. ok (d + 1)) (map (value_ok limits af) xs))"
| "value_ok limits af (PDict m) = (\<lambda>d. d \<le> max_depth limits \<and> length m \<le> max_object_members limits \<and>
     list_all (\<lambda>(k, ok). key_ok limits (jkey_of k) \<and> ok (d + 1)) (map (map_prod id (value_ok limits af)) m))"

definition matches :: "JsonTreeLimits \<Rightarrow> bool \<Rightarrow> pyval \<Rightarrow> jtree \<Rightarrow> bool" where
  "matches limits af v t \<longleftrightarrow> tree_nodes t = value_nodes v \<and> (\<forall>d. tree_ok limits af t d \<longleftrightarrow> value_ok limits af v d)"

definition placed :: "jheap \<Rightarrow> (nat \<times> cell) list \<Rightarrow> bool" where
  "placed heap cells \<longleftrightarrow> (\<forall>(a, c)\<in>set cells. heap a = c)"

lemma placed_simps [simp]: "placed heap []" "placed heap ((a, c) # cells) \<longleftrightarrow> heap a = c \<and> placed heap cells"
  "placed heap (xs @ ys) \<longleftrightarrow> placed heap xs \<and> placed heap ys"
  by (auto simp: placed_def ball_Un)

lemma upt_join: "i \<le> j \<Longrightarrow> j \<le> k \<Longrightarrow> [i..<j] @ [j..<k] = [i..<k]"
  by (metis le_add_diff_inverse upt_add_eq_append)

lemma alloc_addresses:
  "alloc v n = (j, cells, m) \<Longrightarrow> n \<le> m \<and> map fst cells = [n..<m]"
  "alloc_items xs n = (js, cells, m) \<Longrightarrow> n \<le> m \<and> map fst cells = [n..<m]"
  "alloc_members d n = (ms, cells, m) \<Longrightarrow> n \<le> m \<and> map fst cells = [n..<m]"
proof (induction v n and xs n and d n arbitrary: j cells m and js cells m and ms cells m rule: alloc_alloc_items_alloc_members.induct)
  case (8 xs n)
  then show ?case by (auto split: prod.splits simp: upt_conv_Cons simp del: upt_Suc)
next
  case (9 d n)
  then show ?case by (auto split: prod.splits simp: upt_conv_Cons simp del: upt_Suc)
next
  case (11 x xs n)
  obtain v cs m1 vs cs' m2 where a: "alloc x n = (v, cs, m1)" "alloc_items xs m1 = (vs, cs', m2)" by (metis prod_cases3)
  then have "n \<le> m1 \<and> map fst cs = [n..<m1]" "m1 \<le> m2 \<and> map fst cs' = [m1..<m2]"
    using "11.IH"(1) [OF a(1)] "11.IH"(2) [OF a(1) [symmetric] refl refl a(2)] by blast+
  then show ?case using "11.prems" a upt_join by auto
next
  case (13 k x d n)
  obtain v cs m1 vs cs' m2 where a: "alloc x n = (v, cs, m1)" "alloc_members d m1 = (vs, cs', m2)" by (metis prod_cases3)
  then have "n \<le> m1 \<and> map fst cs = [n..<m1]" "m1 \<le> m2 \<and> map fst cs' = [m1..<m2]"
    using "13.IH"(1) [OF a(1)] "13.IH"(2) [OF a(1) [symmetric] refl refl a(2)] by blast+
  then show ?case using "13.prems" a upt_join by auto
qed auto

lemma matches_scalar:
  "matches limits af PNone (Leaf JNone)" "matches limits af (PBool b) (Leaf (JBool b))" "matches limits af (PInt i) (Leaf (JInt i))"
  "matches limits af (PFloat q) (Leaf (JFloat True))" "matches limits af PNonFinite (Leaf (JFloat False))"
  "matches limits af (PStr s) (Leaf (JStr s))" "matches limits af POther (Leaf JOther)"
  by (simp_all add: matches_def scalar_ok_def)

lemma matches_list:
  assumes "list_all2 (matches limits af) xs ts"
  shows "matches limits af (PList xs) (Arr n ts)"
proof -
  have "length xs = length ts" "sum_list (map tree_nodes ts) = sum_list (map value_nodes xs)"
    "list_all (\<lambda>ok. ok d) (map (tree_ok limits af) ts) \<longleftrightarrow> list_all (\<lambda>ok. ok d) (map (value_ok limits af) xs)" for d
    using assms by (induction rule: list_all2_induct) (auto simp: matches_def)
  then show ?thesis by (simp add: matches_def)
qed

lemma matches_dict:
  assumes "list_all2 (\<lambda>(k, x) (k', t). k' = jkey_of k \<and> matches limits af x t) d ms"
  shows "matches limits af (PDict d) (Obj n ms)"
proof -
  have "length d = length ms" "sum_list (map snd (map (map_prod id tree_nodes) ms)) = sum_list (map snd (map (map_prod id value_nodes) d))"
    "list_all (\<lambda>(k, ok). key_ok limits k \<and> ok e) (map (map_prod id (tree_ok limits af)) ms) \<longleftrightarrow>
     list_all (\<lambda>(k, ok). key_ok limits (jkey_of k) \<and> ok e) (map (map_prod id (value_ok limits af)) d)" for e
    using assms by (induction rule: list_all2_induct) (auto simp: matches_def)
  then show ?thesis by (simp only: matches_def tree_nodes.simps value_nodes.simps tree_ok.simps value_ok.simps) simp
qed

lemma alloc_reads:
  "alloc v n = (j, cells, m) \<Longrightarrow> placed heap cells \<Longrightarrow>
     \<exists>t. reads heap j t \<and> matches limits af v t \<and> containers t = mset [n..<m]"
  "alloc_items xs n = (js, cells, m) \<Longrightarrow> placed heap cells \<Longrightarrow>
     \<exists>ts. list_all2 (reads heap) js ts \<and> list_all2 (matches limits af) xs ts \<and> sum_list (map containers ts) = mset [n..<m]"
  "alloc_members d n = (ms, cells, m) \<Longrightarrow> placed heap cells \<Longrightarrow>
     \<exists>ts. list_all2 (rel_prod (=) (reads heap)) ms ts \<and> list_all2 (\<lambda>(k, x) (k', t). k' = jkey_of k \<and> matches limits af x t) d ts \<and>
       sum_list (map snd (map (map_prod id containers) ts)) = mset [n..<m]"
proof (induction v n and xs n and d n arbitrary: j cells m and js cells m and ms cells m rule: alloc_alloc_items_alloc_members.induct)
  case (8 xs n)
  obtain vs cs k where a: "alloc_items xs (Suc n) = (vs, cs, k)" by (metis prod_cases3)
  then have eq: "j = JRef n" "heap n = ListCell vs" "placed heap cs" "m = k" using 8 by auto
  obtain ts where ts: "list_all2 (reads heap) vs ts" "list_all2 (matches limits af) xs ts" "sum_list (map containers ts) = mset [Suc n..<k]"
    using "8.IH" [OF a eq(3)] by blast
  have "n < k" using alloc_addresses(2) [OF a] by simp
  then show ?case
    using eq ts matches_list [OF ts(2)] by (intro exI [of _ "Arr n ts"]) (auto intro!: reads.arr simp: upt_conv_Cons simp del: upt_Suc)
next
  case (9 d n)
  obtain vs cs k where a: "alloc_members d (Suc n) = (vs, cs, k)" by (metis prod_cases3)
  then have eq: "j = JRef n" "heap n = DictCell vs" "placed heap cs" "m = k" using 9 by auto
  obtain ts where ts: "list_all2 (rel_prod (=) (reads heap)) vs ts" "list_all2 (\<lambda>(k, x) (k', t). k' = jkey_of k \<and> matches limits af x t) d ts"
    "sum_list (map snd (map (map_prod id containers) ts)) = mset [Suc n..<k]"
    using "9.IH" [OF a eq(3)] by blast
  have "n < k" using alloc_addresses(3) [OF a] by simp
  then show ?case
    using eq ts matches_dict [OF ts(2)] by (intro exI [of _ "Obj n ts"]) (auto intro!: reads.obj simp: upt_conv_Cons simp del: upt_Suc)
next
  case (11 x xs n)
  obtain v cs k vs cs' k' where a: "alloc x n = (v, cs, k)" "alloc_items xs k = (vs, cs', k')" by (metis prod_cases3)
  then have eq: "js = v # vs" "placed heap cs" "placed heap cs'" "m = k'" using "11.prems" by auto
  obtain t where t: "reads heap v t" "matches limits af x t" "containers t = mset [n..<k]" using "11.IH"(1) [OF a(1) eq(2)] by blast
  obtain ts where ts: "list_all2 (reads heap) vs ts" "list_all2 (matches limits af) xs ts" "sum_list (map containers ts) = mset [k..<k']"
    using "11.IH"(2) [OF a(1) [symmetric] refl refl a(2) eq(3)] by blast
  have "mset [n..<k'] = mset ([n..<k] @ [k..<k'])" using alloc_addresses(1) [OF a(1)] alloc_addresses(2) [OF a(2)] upt_join by simp
  then show ?case using eq t ts by (intro exI [of _ "t # ts"]) simp
next
  case (13 k x d n)
  obtain v cs i vs cs' i' where a: "alloc x n = (v, cs, i)" "alloc_members d i = (vs, cs', i')" by (metis prod_cases3)
  then have eq: "ms = (jkey_of k, v) # vs" "placed heap cs" "placed heap cs'" "m = i'" using "13.prems" by auto
  obtain t where t: "reads heap v t" "matches limits af x t" "containers t = mset [n..<i]" using "13.IH"(1) [OF a(1) eq(2)] by blast
  obtain ts where ts: "list_all2 (rel_prod (=) (reads heap)) vs ts" "list_all2 (\<lambda>(k, x) (k', t). k' = jkey_of k \<and> matches limits af x t) d ts"
    "sum_list (map snd (map (map_prod id containers) ts)) = mset [i..<i']"
    using "13.IH"(2) [OF a(1) [symmetric] refl refl a(2) eq(3)] by blast
  have "mset [n..<i'] = mset ([n..<i] @ [i..<i'])" using alloc_addresses(1) [OF a(1)] alloc_addresses(3) [OF a(2)] upt_join by simp
  then show ?case using eq t ts by (intro exI [of _ "(jkey_of k, t) # ts"]) simp
qed (auto intro!: reads.leaf matches_scalar exI [of _ "Leaf _"])

lemma reads_unique: "reads heap v t \<Longrightarrow> reads heap v t' \<Longrightarrow> t' = t"
proof (induction arbitrary: t' rule: reads.induct)
  case (leaf v)
  then show ?case by (simp add: reads_scalar)
next
  case (obj a members ms)
  from obj.prems obtain ms' where ms': "t' = Obj a ms'" "list_all2 (rel_prod (=) (reads heap)) members ms'"
    using obj.hyps by (auto elim: reads.cases)
  have "ms' = ms"
    using obj.IH ms'(2)
    by (induction members arbitrary: ms ms') (auto simp: list_all2_Cons1 rel_prod_sel prod_eq_iff)
  then show ?case using ms'(1) by simp
next
  case (arr a items ts)
  from arr.prems obtain ts' where ts': "t' = Arr a ts'" "list_all2 (reads heap) items ts'"
    using arr.hyps by (auto elim: reads.cases)
  have "ts' = ts"
    using arr.IH ts'(2) by (induction items arbitrary: ts ts') (auto simp: list_all2_Cons1)
  then show ?case using ts'(1) by simp
qed

lemma heap_of_placed: "distinct (map fst cells) \<Longrightarrow> placed (heap_of cells) cells"
  by (auto simp: placed_def heap_of_def)

lemma canonical_json_Inr:
  "canonical_json float_text af v = Inr bytes \<longleftrightarrow>
     value_ok FEDERATION_JSON_LIMITS af v 0 \<and> value_nodes v \<le> max_nodes FEDERATION_JSON_LIMITS \<and> bytes = utf8_encode (dumps float_text v)"
proof -
  obtain j cells m where a: "alloc v 0 = (j, cells, m)" by (metis prod_cases3)
  have "map fst cells = [0..<m]" using alloc_addresses(1) [OF a] by simp
  then have "placed (heap_of cells) cells" by (intro heap_of_placed) simp
  then obtain t where t: "reads (heap_of cells) j t" "matches FEDERATION_JSON_LIMITS af v t" "containers t = mset [0..<m]"
    using alloc_reads(1) [OF a] by blast
  have "count (containers t) x \<le> 1" for x unfolding t(3) using distinct_count_atmost_1 [of "[0..<m]"] by (simp add: count_mset)
  then have "validate_json_tree (heap_of cells) j FEDERATION_JSON_LIMITS ''federation JSON'' af = None \<longleftrightarrow>
      tree_ok FEDERATION_JSON_LIMITS af t 0 \<and> tree_nodes t \<le> max_nodes FEDERATION_JSON_LIMITS"
    unfolding validate_json_tree_iff using t(1) reads_unique by blast
  then show ?thesis using t(2) by (auto simp: canonical_json_def a matches_def split: option.splits)
qed

section \<open>Reading the bytes back\<close>

lemma div_digits:
  "(c::nat) = 64 * (c div 64) + c mod 64"
  "c div 64 = 64 * (c div 4096) + c div 64 mod 64"
  "c div 4096 = 64 * (c div 262144) + c div 4096 mod 64"
proof -
  have "c div 64 = 64 * (c div 64 div 64) + c div 64 mod 64" "c div 4096 = 64 * (c div 4096 div 64) + c div 4096 mod 64" by simp_all
  then show "c div 64 = 64 * (c div 4096) + c div 64 mod 64" "c div 4096 = 64 * (c div 262144) + c div 4096 mod 64"
    by (simp_all add: div_mult2_eq [symmetric])
qed simp

lemma utf8_char_inject: "utf8_char c @ x = utf8_char d @ y \<Longrightarrow> c = d \<and> x = y"
proof -
  assume eq: "utf8_char c @ x = utf8_char d @ y"
  have head: "c < 128 \<and> hd (utf8_char c) < 128 \<or> 128 \<le> c \<and> c < 2048 \<and> 192 \<le> hd (utf8_char c) \<and> hd (utf8_char c) < 224 \<or>
      2048 \<le> c \<and> c < 65536 \<and> 224 \<le> hd (utf8_char c) \<and> hd (utf8_char c) < 240 \<or> 65536 \<le> c \<and> 240 \<le> hd (utf8_char c)" for c
    by (auto simp: utf8_char_def)
  have "hd (utf8_char c) = hd (utf8_char d)" using arg_cong [OF eq, of hd] by (simp add: utf8_char_def split: if_splits)
  with head [of c] head [of d] have
    "c < 128 \<and> d < 128 \<or> 128 \<le> c \<and> c < 2048 \<and> 128 \<le> d \<and> d < 2048 \<or> 2048 \<le> c \<and> c < 65536 \<and> 2048 \<le> d \<and> d < 65536 \<or>
     65536 \<le> c \<and> 65536 \<le> d" by linarith
  then show ?thesis
  proof (elim disjE)
    assume "c < 128 \<and> d < 128" then show ?thesis using eq by (simp add: utf8_char_def)
  next
    assume "128 \<le> c \<and> c < 2048 \<and> 128 \<le> d \<and> d < 2048"
    then show ?thesis using eq div_digits(1) [of c] div_digits(1) [of d] by (simp add: utf8_char_def)
  next
    assume "2048 \<le> c \<and> c < 65536 \<and> 2048 \<le> d \<and> d < 65536"
    then show ?thesis using eq div_digits(1,2) [of c] div_digits(1,2) [of d] by (simp add: utf8_char_def)
  next
    assume "65536 \<le> c \<and> 65536 \<le> d"
    then show ?thesis using eq div_digits [of c] div_digits [of d] by (simp add: utf8_char_def)
  qed
qed

lemma utf8_char_nonempty [simp]: "utf8_char c \<noteq> []"
  by (simp add: utf8_char_def)

lemma utf8_encode_inject: "utf8_encode s = utf8_encode t \<Longrightarrow> s = t"
  unfolding utf8_encode_def
proof (induction s arbitrary: t)
  case Nil
  then show ?case by (cases t) auto
next
  case (Cons c s)
  then obtain d u where t: "t = d # u" by (cases t) auto
  then show ?case using Cons utf8_char_inject [of c "concat (map utf8_char s)" d "concat (map utf8_char u)"] by simp
qed

text \<open>An escape starts with a backslash, and its second character gives its length.\<close>

definition escaped :: "nat \<Rightarrow> bool" where
  "escaped c \<longleftrightarrow> c \<in> set (34 # 92 # [0..<32])"

lemma escape_char_plain: "\<not> escaped c \<Longrightarrow> escape_char c = [c] \<and> c \<noteq> 92"
  by (auto simp: escaped_def escape_char_def)

lemma escape_char_escaped:
  "escaped c \<Longrightarrow> \<exists>u. escape_char c = 92 # u \<and> u \<noteq> [] \<and> length u = (if hd u = 117 then 5 else 1)"
  by (auto simp: escaped_def escape_char_def)

lemma escape_char_distinct: "distinct (map escape_char (34 # 92 # [0..<32]))"
  by code_simp

lemma escape_char_inject:
  assumes "escape_char c @ x = escape_char d @ y"
  shows "c = d \<and> x = y"
proof (cases "escaped c \<and> escaped d")
  case True
  then obtain u v where u: "escape_char c = 92 # u" "u \<noteq> []" "length u = (if hd u = 117 then 5 else 1)"
    and v: "escape_char d = 92 # v" "v \<noteq> []" "length v = (if hd v = 117 then 5 else 1)" using escape_char_escaped by metis
  then have "hd u = hd v" using assms by (cases u; cases v) auto
  then have "length u = length v" using u v by simp
  then have "escape_char c = escape_char d" "x = y" using assms u v by auto
  moreover have "inj_on escape_char (set (34 # 92 # [0..<32]))" using escape_char_distinct unfolding distinct_map by (rule conjunct2)
  ultimately show ?thesis using True unfolding escaped_def by (blast dest: inj_onD)
next
  case False
  then show ?thesis
    using assms escape_char_plain [of c] escape_char_plain [of d] escape_char_escaped [of c] escape_char_escaped [of d] by fastforce
qed

lemma escape_char_head: "escape_char c = h # u \<Longrightarrow> h \<noteq> 34" "escape_char c \<noteq> []"
  by (auto simp: escape_char_def split: if_splits)

lemma escaped_inject:
  "concat (map escape_char s) @ 34 # x = concat (map escape_char t) @ 34 # y \<Longrightarrow> s = t \<and> x = y"
proof (induction s arbitrary: t)
  case Nil
  show ?case
  proof (cases t)
    case (Cons d u)
    obtain h v where "escape_char d = h # v" using escape_char_head(2) [of d] by (cases "escape_char d") auto
    then show ?thesis using Nil Cons escape_char_head(1) [of d] by auto
  qed (use Nil in simp)
next
  case (Cons c s)
  show ?case
  proof (cases t)
    case Nil
    obtain h v where "escape_char c = h # v" using escape_char_head(2) [of c] by (cases "escape_char c") auto
    then show ?thesis using Nil Cons escape_char_head(1) [of c] by auto
  next
    case t: (Cons d u)
    then have "c = d" "concat (map escape_char s) @ 34 # x = concat (map escape_char u) @ 34 # y"
      using Cons.prems escape_char_inject [of c "concat (map escape_char s) @ 34 # x" d "concat (map escape_char u) @ 34 # y"] by auto
    then show ?thesis using Cons.IH t by blast
  qed
qed

lemma json_string_inject: "json_string s @ x = json_string t @ y \<Longrightarrow> s = t \<and> x = y"
  using escaped_inject [of s x t y] by (simp add: json_string_def)

text \<open>The value with every object in the order of its keys, and the rendering that keeps the order it finds.\<close>

primrec norm_json :: "pyval \<Rightarrow> pyval" where
  "norm_json PNone = PNone" | "norm_json (PBool b) = PBool b" | "norm_json (PInt i) = PInt i" | "norm_json (PFloat q) = PFloat q"
| "norm_json PNonFinite = PNonFinite" | "norm_json (PStr s) = PStr s" | "norm_json POther = POther"
| "norm_json (PList xs) = PList (map norm_json xs)"
| "norm_json (PDict d) = PDict (sort_key (\<lambda>kv. key_text (fst kv)) (map (map_prod id norm_json) d))"

definition member_text :: "pyval \<times> ustr \<Rightarrow> ustr" where
  "member_text kt = json_string (key_text (fst kt)) @ 58 # snd kt"

primrec plain_dumps :: "(rat \<Rightarrow> ustr) \<Rightarrow> pyval \<Rightarrow> ustr" where
  "plain_dumps ft PNone = ucs ''null''"
| "plain_dumps ft (PBool b) = ucs (if b then ''true'' else ''false'')"
| "plain_dumps ft (PInt i) = ucs (string_of_int i)"
| "plain_dumps ft (PFloat q) = ft q"
| "plain_dumps ft PNonFinite = []"
| "plain_dumps ft (PStr s) = json_string s"
| "plain_dumps ft (PList xs) = 91 # join_with 44 (map (plain_dumps ft) xs) @ [93]"
| "plain_dumps ft (PDict d) = 123 # join_with 44 (map member_text (map (map_prod id (plain_dumps ft)) d)) @ [125]"
| "plain_dumps ft POther = []"

lemma insort_key_map: "(\<And>y. f (g y) = h y) \<Longrightarrow> insort_key f (g x) (map g xs) = map g (insort_key h x xs)"
  by (induction xs) auto

lemma sort_key_map: "(\<And>y. f (g y) = h y) \<Longrightarrow> sort_key f (map g xs) = map g (sort_key h xs)"
  by (induction xs) (simp_all add: insort_key_map [of f g h])

lemma dumps_norm: "dumps ft v = plain_dumps ft (norm_json v)"
proof (induction v)
  case (PDict d)
  let ?k = "\<lambda>kv. key_text (fst kv)"
  have member: "(\<lambda>(k, t). json_string (key_text k) @ 58 # t) = member_text" by (auto simp: member_text_def)
  have "map (map_prod id (dumps ft)) d = map (map_prod id (plain_dumps ft)) (map (map_prod id norm_json) d)"
    using PDict by (auto simp: snds.simps)
  also have "sort_key ?k \<dots> = map (map_prod id (plain_dumps ft)) (sort_key ?k (map (map_prod id norm_json) d))" by (rule sort_key_map) simp
  finally have sorted: "sort_key ?k (map (map_prod id (dumps ft)) d) =
      map (map_prod id (plain_dumps ft)) (sort_key ?k (map (map_prod id norm_json) d))" .
  show ?case unfolding dumps.simps norm_json.simps plain_dumps.simps sorted member ..
next
  case (PList xs)
  then have "map (dumps ft) xs = map (plain_dumps ft) (map norm_json xs)" by simp
  then show ?case by (simp only: dumps.simps norm_json.simps plain_dumps.simps)
qed auto

text \<open>Values without floats and with text keys, and the texts that may follow a value.\<close>

primrec clean :: "pyval \<Rightarrow> bool" where
  "clean PNone = True" | "clean (PBool b) = True" | "clean (PInt i) = True" | "clean (PFloat q) = False"
| "clean PNonFinite = False" | "clean (PStr s) = True" | "clean POther = False"
| "clean (PList xs) = list_all id (map clean xs)"
| "clean (PDict d) = list_all (\<lambda>(k, ok). (\<exists>s. k = PStr s) \<and> ok) (map (map_prod id clean) d)"

lemma value_ok_clean: "value_ok limits False v d \<Longrightarrow> clean v"
proof (induction v arbitrary: d)
  case (PDict m)
  then show ?case by (fastforce simp: list_all_iff key_ok_def jkey_of_def snds.simps split: pyval.splits)
qed (auto simp: list_all_iff)

lemma clean_norm: "clean v \<Longrightarrow> clean (norm_json v)"
proof (induction v)
  case (PDict m)
  then show ?case by (fastforce simp: list_all_iff snds.simps)
qed (auto simp: list_all_iff)

definition follow :: "ustr \<Rightarrow> bool" where
  "follow r \<longleftrightarrow> r = [] \<or> hd r \<in> {44, 93, 125}"

lemma int_text_chars: "list_all (\<lambda>c. is_digit c \<or> c = 45) (ucs (string_of_int i))"
  using str_nat_digits [of "nat i"] str_nat_digits [of "nat (- i)"]
  by (auto simp: string_of_int_def list_all_iff ucs_def is_digit_def of_char_of)

lemma int_text_nonempty: "ucs (string_of_int i) \<noteq> []"
  by (simp add: string_of_int_def ucs_def)

lemma follow_not_digit: "follow r \<Longrightarrow> takeWhile (\<lambda>c. is_digit c \<or> c = 45) r = []"
  by (cases r) (auto simp: follow_def is_digit_def)

lemma int_text_inject:
  assumes "ucs (string_of_int i) @ r = ucs (string_of_int j) @ s" "follow r" "follow s"
  shows "i = j \<and> r = s"
proof -
  have "takeWhile (\<lambda>c. is_digit c \<or> c = 45) (ucs (string_of_int k) @ q) = ucs (string_of_int k)" if "follow q" for k q
    using int_text_chars [of k] follow_not_digit [OF that] by (subst takeWhile_append2) (auto simp: list_all_iff)
  then have "ucs (string_of_int i) = ucs (string_of_int j)" using assms by metis
  then show ?thesis using assms(1) by simp
qed

text \<open>Joined items are read back when each item is, in front of what may follow it.\<close>

lemma join_with_inject_follow:
  assumes "\<And>x y r s. x \<in> set xs \<Longrightarrow> y \<in> set ys \<Longrightarrow> e x @ r = e y @ s \<Longrightarrow> follow r \<Longrightarrow> follow s \<Longrightarrow> x = y \<and> r = s"
    and "\<And>y. y \<in> set xs \<union> set ys \<Longrightarrow> e y \<noteq> [] \<and> hd (e y) \<notin> {44, 93, 125}"
    and "join_with 44 (map e xs) @ b # r = join_with 44 (map e ys) @ b # s" "b \<in> {93, 125}"
  shows "xs = ys \<and> r = s"
proof -
  have join: "join_with 44 (map e (z # zs)) @ b # q = e z @ (if zs = [] then b # q else 44 # join_with 44 (map e zs) @ b # q)" for z zs q
    by (cases zs) auto
  show ?thesis
    using assms
  proof (induction xs arbitrary: ys)
    case Nil
    show ?case
    proof (cases ys)
      case (Cons y ys')
      have "hd (join_with 44 (map e ys) @ b # s) = hd (e y)" using Nil.prems(2) [of y] by (simp add: Cons join del: list.map)
      then show ?thesis using Nil.prems(2) [of y] Nil.prems(3,4) Cons by (auto dest: arg_cong [of _ _ hd])
    qed (use Nil.prems(3) in simp)
  next
    case (Cons x xs)
    show ?case
    proof (cases ys)
      case Nil
      have "hd (join_with 44 (map e (x # xs)) @ b # r) = hd (e x)" using Cons.prems(2) [of x] by (simp add: join del: list.map)
      then show ?thesis using Cons.prems(2) [of x] Cons.prems(3,4) Nil by (auto dest: arg_cong [of _ _ hd])
    next
      case ys: (Cons y ys')
      let ?t = "\<lambda>zs q. if zs = [] then b # q else 44 # join_with 44 (map e zs) @ b # q"
      have eq: "e x @ ?t xs r = e y @ ?t ys' s" using Cons.prems(3) unfolding ys join .
      have follow: "follow (?t zs q)" for zs q using Cons.prems(4) by (auto simp: follow_def)
      have xy: "x = y" "?t xs r = ?t ys' s" using Cons.prems(1) [OF _ _ eq follow follow] ys by auto
      have b: "b \<noteq> 44" using Cons.prems(4) by auto
      show ?thesis
      proof (cases "xs = [] \<or> ys' = []")
        case True
        then show ?thesis using xy b ys by (auto split: if_splits)
      next
        case False
        have "xs = ys' \<and> r = s"
        proof (rule Cons.IH)
          show "join_with 44 (map e xs) @ b # r = join_with 44 (map e ys') @ b # s" using xy(2) False by simp
          show "b \<in> {93, 125}" by (rule Cons.prems(4))
          show "z = w \<and> p = q" if "z \<in> set xs" "w \<in> set ys'" "e z @ p = e w @ q" "follow p" "follow q" for z w p q
            using Cons.prems(1) [of z w p q] that ys by simp
          show "e z \<noteq> [] \<and> hd (e z) \<notin> {44, 93, 125}" if "z \<in> set xs \<union> set ys'" for z using Cons.prems(2) [of z] that ys by auto
        qed
        then show ?thesis using xy(1) ys by simp
      qed
    qed
  qed
qed

lemma json_string_head [simp]: "hd (json_string s) = 34" "json_string s \<noteq> []"
  by (simp_all add: json_string_def)

lemma ascii_texts: "ucs ''null'' = [110, 117, 108, 108]" "ucs ''true'' = [116, 114, 117, 101]" "ucs ''false'' = [102, 97, 108, 115, 101]"
  by (simp_all add: ucs_def)

definition kind_of :: "nat \<Rightarrow> nat" where
  "kind_of c = (if c = 110 then 0 else if c = 116 then 1 else if c = 102 then 2 else if is_digit c \<or> c = 45 then 3
     else if c = 34 then 4 else if c = 91 then 5 else if c = 123 then 6 else 7)"

primrec kind :: "pyval \<Rightarrow> nat" where
  "kind PNone = 0" | "kind (PBool b) = (if b then 1 else 2)" | "kind (PInt i) = 3" | "kind (PStr s) = 4" | "kind (PList xs) = 5"
| "kind (PDict d) = 6" | "kind (PFloat q) = 7" | "kind PNonFinite = 7" | "kind POther = 7"

lemma plain_dumps_head: "clean v \<Longrightarrow> plain_dumps ft v \<noteq> [] \<and> kind_of (hd (plain_dumps ft v)) = kind v \<and> kind v < 7"
proof (cases v)
  case (PInt i)
  then show ?thesis
    using int_text_nonempty [of i] int_text_chars [of i]
    by (cases "ucs (string_of_int i)") (auto simp: kind_of_def is_digit_def)
qed (auto simp: kind_of_def ascii_texts is_digit_def)

lemma head_not_follow: "clean v \<Longrightarrow> plain_dumps ft v \<noteq> [] \<and> hd (plain_dumps ft v) \<notin> {44, 93, 125}"
  using plain_dumps_head [of v ft] by (auto simp: kind_of_def is_digit_def split: if_splits)

lemma same_kind:
  assumes "clean v" "clean w" "plain_dumps ft v @ r = plain_dumps ft w @ s"
  shows "kind w = kind v"
proof -
  have "hd (plain_dumps ft v) = hd (plain_dumps ft w)"
    using arg_cong [OF assms(3), of hd] plain_dumps_head [OF assms(1)] plain_dumps_head [OF assms(2)] by simp
  then show ?thesis using plain_dumps_head [OF assms(1), of ft] plain_dumps_head [OF assms(2), of ft] by simp
qed

lemma member_text_inject:
  assumes "member_text (PStr k, plain_dumps ft v) @ r = member_text (PStr l, plain_dumps ft w) @ s" "follow r" "follow s"
    and IH: "\<And>r s. plain_dumps ft v @ r = plain_dumps ft w @ s \<Longrightarrow> follow r \<Longrightarrow> follow s \<Longrightarrow> v = w \<and> r = s"
  shows "(PStr k, v) = (PStr l, w) \<and> r = s"
proof -
  have "json_string k @ 58 # plain_dumps ft v @ r = json_string l @ 58 # plain_dumps ft w @ s"
    using assms(1) by (simp add: member_text_def key_text_def)
  from json_string_inject [OF this] have "k = l" "plain_dumps ft v @ r = plain_dumps ft w @ s" by simp_all
  then show ?thesis using IH assms(2,3) by blast
qed

lemma plain_dumps_inject:
  "clean v \<Longrightarrow> clean w \<Longrightarrow> plain_dumps ft v @ r = plain_dumps ft w @ s \<Longrightarrow> follow r \<Longrightarrow> follow s \<Longrightarrow> v = w \<and> r = s"
proof (induction v arbitrary: w r s)
  case (PInt i)
  have "kind w = 3" using same_kind [OF PInt.prems(1-3)] by simp
  then obtain j where "w = PInt j" by (cases w) (auto split: if_splits)
  then show ?case using PInt.prems int_text_inject by simp
next
  case (PStr t)
  have "kind w = 4" using same_kind [OF PStr.prems(1-3)] by simp
  then obtain u where "w = PStr u" by (cases w) (auto split: if_splits)
  then show ?case using PStr.prems json_string_inject [of t r u s] by simp
next
  case (PList xs)
  have "kind w = 5" using same_kind [OF PList.prems(1-3)] by simp
  then obtain ys where w: "w = PList ys" by (cases w) (auto split: if_splits)
  have clean: "x \<in> set xs \<union> set ys \<Longrightarrow> clean x" for x using PList.prems(1,2) by (auto simp: w list_all_iff)
  have "xs = ys \<and> r = s"
  proof (rule join_with_inject_follow [where e = "plain_dumps ft" and b = 93])
    show "join_with 44 (map (plain_dumps ft) xs) @ 93 # r = join_with 44 (map (plain_dumps ft) ys) @ 93 # s" using PList.prems(3) by (simp add: w)
    show "x = y \<and> p = q" if "x \<in> set xs" "y \<in> set ys" "plain_dumps ft x @ p = plain_dumps ft y @ q" "follow p" "follow q" for x y p q
      using PList.IH [OF that(1)] clean that by blast
    show "plain_dumps ft y \<noteq> [] \<and> hd (plain_dumps ft y) \<notin> {44, 93, 125}" if "y \<in> set xs \<union> set ys" for y
      using head_not_follow clean that by blast
  qed simp
  then show ?case by (simp add: w)
next
  case (PDict d)
  have "kind w = 6" using same_kind [OF PDict.prems(1-3)] by simp
  then obtain d' where w: "w = PDict d'" by (cases w) (auto split: if_splits)
  let ?e = "\<lambda>kv. member_text (fst kv, plain_dumps ft (snd kv))"
  have clean: "\<exists>k x. kv = (PStr k, x) \<and> clean x" if "kv \<in> set d \<union> set d'" for kv
    using PDict.prems(1,2) that by (cases kv) (fastforce simp: w list_all_iff)
  have map: "map member_text (map (map_prod id (plain_dumps ft)) m) = map ?e m" for m by (auto simp: map_prod_def split: prod.splits)
  have "d = d' \<and> r = s"
  proof (rule join_with_inject_follow [where e = ?e and b = 125])
    show "join_with 44 (map ?e d) @ 125 # r = join_with 44 (map ?e d') @ 125 # s"
      using PDict.prems(3) unfolding w plain_dumps.simps map by simp
    show "x = y \<and> p = q" if mem: "x \<in> set d" "y \<in> set d'" and eq: "?e x @ p = ?e y @ q" and fol: "follow p" "follow q" for x y p q
    proof -
      obtain k u where x: "x = (PStr k, u)" "clean u" using clean [of x] mem(1) by blast
      obtain l t where y: "y = (PStr l, t)" "clean t" using clean [of y] mem(2) by blast
      have "u \<in> Basic_BNFs.snds x" by (simp add: x prod_set_simps)
      then have "\<And>a b. plain_dumps ft u @ a = plain_dumps ft t @ b \<Longrightarrow> follow a \<Longrightarrow> follow b \<Longrightarrow> u = t \<and> a = b"
        using PDict.IH [OF mem(1)] x(2) y(2) by blast
      then show ?thesis using member_text_inject [of k ft u p l t q] eq fol x(1) y(1) by simp
    qed
    show "?e y \<noteq> [] \<and> hd (?e y) \<notin> {44, 93, 125}" for y by (simp add: member_text_def)
  qed simp
  then show ?case by (simp add: w)
next
  case PNone
  have "kind w = 0" using same_kind [OF PNone.prems(1-3)] by simp
  then have "w = PNone" by (cases w) (auto split: if_splits)
  then show ?case using PNone.prems by simp
next
  case (PBool b)
  have "kind w = (if b then 1 else 2)" using same_kind [OF PBool.prems(1-3)] by simp
  then have "w = PBool b" by (cases w) (auto split: if_splits)
  then show ?case using PBool.prems by simp
qed simp_all

lemma dumps_inject:
  assumes "clean v" "clean w" "dumps ft v = dumps ft w"
  shows "norm_json v = norm_json w"
  using plain_dumps_inject [of "norm_json v" "norm_json w" ft "[]" "[]"] assms
  by (simp add: dumps_norm clean_norm follow_def)

lemma canonical_json_bytes:
  assumes "canonical_json ft False v = Inr x" "canonical_json ft False w = Inr y"
  shows "x = y \<longleftrightarrow> norm_json v = norm_json w"
proof -
  have x: "x = utf8_encode (dumps ft v)" "clean v" and y: "y = utf8_encode (dumps ft w)" "clean w"
    using assms value_ok_clean by (auto simp: canonical_json_Inr)
  show ?thesis
  proof
    assume "x = y"
    then have "dumps ft v = dumps ft w" using x(1) y(1) utf8_encode_inject by simp
    then show "norm_json v = norm_json w" using dumps_inject x(2) y(2) by blast
  qed (simp add: x(1) y(1) dumps_norm)
qed

text \<open>Members of an object in another order, and one member removed.\<close>

lemma norm_members:
  assumes "norm_json (PDict d) = norm_json (PDict d')"
  shows "mset (map (map_prod id norm_json) d) = mset (map (map_prod id norm_json) d')"
proof -
  have "sort_key (\<lambda>kv. key_text (fst kv)) (map (map_prod id norm_json) d) = sort_key (\<lambda>kv. key_text (fst kv)) (map (map_prod id norm_json) d')"
    using assms by simp
  from arg_cong [OF this, of mset] show ?thesis by (simp only: mset_sort)
qed

lemma map_fst_prod: "map fst (map (map_prod id f) d) = map fst d"
  by (induction d) auto

lemma norm_keys:
  assumes "norm_json (PDict d) = norm_json (PDict d')"
  shows "mset (map fst d) = mset (map fst d')"
proof -
  have "mset (map fst (map (map_prod id norm_json) d)) = mset (map fst (map (map_prod id norm_json) d'))"
    unfolding mset_map [of fst] norm_members [OF assms] ..
  then show ?thesis by (simp only: map_fst_prod)
qed

lemma norm_member_value:
  assumes "norm_json (PDict d) = norm_json (PDict d')" "(k, x) \<in> set d"
  shows "\<exists>y. (k, y) \<in> set d' \<and> norm_json y = norm_json x"
proof -
  have "(k, norm_json x) \<in> set (map (map_prod id norm_json) d)" using assms(2) by force
  then have "(k, norm_json x) \<in> set (map (map_prod id norm_json) d')" using mset_eq_setD [OF norm_members [OF assms(1)]] by simp
  then show ?thesis by auto
qed

lemma norm_json_scalar: "norm_json y = PStr s \<longleftrightarrow> y = PStr s" "norm_json y = PInt i \<longleftrightarrow> y = PInt i"
  by (cases y; auto)+

definition sample_input :: "ustr \<Rightarrow> SigningInput" where
  "sample_input target = \<lparr>si_method = ucs ''get'', si_request_target = target, si_origin = ucs ''a.ex'', si_destination = ucs ''b.ex'',
     si_timestamp = 5, si_content_hash = ucs ''0'', si_nonce = Some (ucs ''n'')\<rparr>"

lemma sample_input_ok: "value_ok FEDERATION_JSON_LIMITS False (signing_value id (sample_input (ucs ''p''))) 0"
  "value_nodes (signing_value id (sample_input (ucs ''p''))) = 8"
  by (simp_all add: signing_value_def sample_input_def FEDERATION_JSON_LIMITS_def ucs_def string_ok_def surrogate_def utf8_width_def
      key_ok_def jkey_of_def)

section \<open>Properties\<close>

text \<open>
  C8: Canonical JSON exists exactly for the values within the federation limits, and two accepted values have the same canonical
  bytes exactly when they are the same value up to the order of the members of their objects: the order does not matter, and no two
  different values share their bytes.
\<close>

theorem canonical_json_exact:
  "(is_ok (canonical_json ft af v) \<longleftrightarrow> value_ok FEDERATION_JSON_LIMITS af v 0 \<and> value_nodes v \<le> 16384) \<and>
   (canonical_json ft False v = Inr x \<and> canonical_json ft False w = Inr y \<longrightarrow> (x = y \<longleftrightarrow> norm_json v = norm_json w))"
proof -
  have "is_ok (canonical_json ft af v) \<longleftrightarrow> value_ok FEDERATION_JSON_LIMITS af v 0 \<and> value_nodes v \<le> 16384"
    by (auto simp: is_ok_iff canonical_json_Inr FEDERATION_JSON_LIMITS_def)
  then show ?thesis using canonical_json_bytes by blast
qed

theorem canonical_json_exact_witness:
  "\<exists>x. canonical_json (\<lambda>_. []) False (PDict [(pkey ''b'', PInt 1), (pkey ''a'', PInt 2)]) = Inr x \<and>
     canonical_json (\<lambda>_. []) False (PDict [(pkey ''a'', PInt 2), (pkey ''b'', PInt 1)]) = Inr x"
proof -
  let ?v = "PDict [(pkey ''b'', PInt 1), (pkey ''a'', PInt 2)]" and ?w = "PDict [(pkey ''a'', PInt 2), (pkey ''b'', PInt 1)]"
  have "value_ok FEDERATION_JSON_LIMITS False ?v 0" "value_nodes ?v \<le> 16384" "value_ok FEDERATION_JSON_LIMITS False ?w 0" "value_nodes ?w \<le> 16384"
    by (simp_all add: FEDERATION_JSON_LIMITS_def ucs_def string_ok_def surrogate_def utf8_width_def key_ok_def jkey_of_def)
  then obtain x y where x: "canonical_json (\<lambda>_. []) False ?v = Inr x" and y: "canonical_json (\<lambda>_. []) False ?w = Inr y"
    using canonical_json_exact [THEN conjunct1, of "\<lambda>_. []" False ?v] canonical_json_exact [THEN conjunct1, of "\<lambda>_. []" False ?w]
    unfolding is_ok_iff by blast
  have "norm_json ?v = norm_json ?w" by (simp add: key_text_def ucs_def)
  then have "x = y" using canonical_json_exact [of "\<lambda>_. []" False ?v x ?w y] x y by blast
  then show ?thesis using x y by blast
qed

text \<open>
  C9: The bytes signed for a request determine every field of the request: two requests with the same bytes have the same origin,
  destination, target, time stamp, content digest and nonce, and the same method up to its case.
\<close>

theorem signing_input_binds:
  assumes "canonical_bytes upper i = Inr bytes" "canonical_bytes upper j = Inr bytes"
  shows "si_origin i = si_origin j \<and> si_destination i = si_destination j \<and> si_request_target i = si_request_target j \<and>
     si_timestamp i = si_timestamp j \<and> si_content_hash i = si_content_hash j \<and> si_nonce i = si_nonce j \<and>
     upper (si_method i) = upper (si_method j)"
proof -
  obtain d e where d: "signing_value upper i = PDict d" and e: "signing_value upper j = PDict e" by (simp add: signing_value_def)
  have norm: "norm_json (PDict d) = norm_json (PDict e)"
    using assms canonical_json_bytes unfolding canonical_bytes_def d e by blast
  have sub: "(k, x) \<in> set e" if mem: "(k, x) \<in> set d" and scalar: "(\<exists>s. x = PStr s) \<or> (\<exists>n. x = PInt n)" for k x
  proof -
    obtain y where "(k, y) \<in> set e" "norm_json y = norm_json x" using norm_member_value [OF norm mem] by blast
    then show ?thesis using scalar by (auto simp: norm_json_scalar)
  qed
  have keys: "mset (map fst d) = mset (map fst e)" by (rule norm_keys [OF norm])
  show ?thesis
    using sub [of "pkey ''origin''"] sub [of "pkey ''destination''"] sub [of "pkey ''request_target''"] sub [of "pkey ''ts''"]
      sub [of "pkey ''content_sha256''"] sub [of "pkey ''method''"] sub [of "pkey ''nonce''"] arg_cong [OF keys, of size] d e
    by (auto simp: signing_value_def split: option.splits)
qed

theorem signing_input_binds_witness:
  "is_ok (canonical_bytes id (sample_input (ucs ''p''))) \<and> canonical_bytes id (sample_input (ucs ''p'')) \<noteq> canonical_bytes id (sample_input (ucs ''q''))"
proof -
  have ok: "is_ok (canonical_bytes id (sample_input (ucs ''p'')))"
    using sample_input_ok by (simp add: canonical_bytes_def is_ok_iff canonical_json_Inr FEDERATION_JSON_LIMITS_def)
  then obtain x where x: "canonical_bytes id (sample_input (ucs ''p'')) = Inr x" by (auto simp: is_ok_iff)
  have "canonical_bytes id (sample_input (ucs ''q'')) \<noteq> Inr x"
    using signing_input_binds [OF x, of "sample_input (ucs ''q'')"] by (auto simp: sample_input_def)
  then show ?thesis using ok x by simp
qed

text \<open>
  C36: The signature of an envelope does not depend on the signatures it carries, and the bytes signed for an envelope with an event
  identifier are never the bytes signed for a request: a signature of one kind is no signature of the other.
\<close>

theorem envelope_signature_scope:
  "envelope_signing_bytes (envelope @ [(pkey ''signatures'', s)]) = envelope_signing_bytes envelope \<and>
   \<not> (envelope_signing_bytes envelope = Inr bytes \<and> canonical_bytes upper i = Inr bytes \<and> has_key envelope ''event_id'')"
proof -
  let ?d = "filter (\<lambda>(key, _). \<not> py_eq key (pkey ''signatures'')) envelope"
  have "False" if env: "envelope_signing_bytes envelope = Inr bytes" and req: "canonical_bytes upper i = Inr bytes"
    and has: "has_key envelope ''event_id''"
  proof -
    obtain e where e: "signing_value upper i = PDict e" by (simp add: signing_value_def)
    have "norm_json (PDict ?d) = norm_json (PDict e)"
      using env req canonical_json_bytes unfolding envelope_signing_bytes_def canonical_bytes_def e by blast
    then have "mset (map fst ?d) = mset (map fst e)" by (rule norm_keys)
    then have "set (map fst ?d) = set (map fst e)" by (rule mset_eq_setD)
    moreover have "pkey ''event_id'' \<in> set (map fst ?d)" using has by (force simp: has_key_def)
    ultimately show False using e by (auto simp: signing_value_def split: option.splits)
  qed
  then show ?thesis by (auto simp: envelope_signing_bytes_def)
qed

end
