(* ===== verification/Spec2Isabelle.thy ===== *)
theory Spec2Isabelle
  imports Kaede_Prelude Permissions Permission_Resolution Guild_Store Hierarchy Snowflake Rate_Limits Recurrence
    Json_Limits Entity_Refs Installations Permission_Access Command_Contract Command_Permissions
    Poll_Results Onboarding Runtime_Rows Runtime_Control Target_Discovery Automod
    Channel_Encryption Federation_Events Canonical_Json
begin

text \<open>
  A verification library for the core logic of the Kaede chat server (\<open>backend/app\<close>, Python).

  The server is a federation of instances. An instance keeps guilds, channels, members and roles in a database, caches
  derived masks in Redis, mints its identifiers from leased worker numbers, and exchanges signed events with other
  instances. Bots are applications that live on one instance, their home, and run on others, their targets. The library
  models the parts that decide: who may do what, which identifiers are handed out, which wire values are accepted, and
  what a signed event of another instance changes. The parts are pure functions over records for the rows they read and
  write; a Python exception is the left side of a sum, a transaction that raises has no store.

  \<^bold>\<open>Foundations.\<close> \<open>Kaede_Prelude\<close> has the result type, Python values and code-point strings, permission masks as
  integers with their sub-mask order, and the list lemmas the components share. \<open>Guild_Store\<close> has the rows of
  \<open>db/models.py\<close> and \<open>db/bot_models.py\<close> that the guards read, as records with the columns the code uses.

  \<^bold>\<open>Permissions.\<close> \<open>Permissions\<close> is the catalogue of \<open>core/permissions.py\<close>, \<open>core/channel_types.py\<close> and
  \<open>core/permission_contract.py\<close>, tables included. \<open>Permission_Resolution\<close> is the resolution of \<open>chat/permissions.py\<close>:
  overwrites, timeouts and the dependency fixed point, shown equal to a rule per bit and to the greatest consistent
  sub-mask. \<open>Permission_Access\<close> is the calculation over the rows, with bot grants, the rules gate and private threads, and
  the path through the Redis cache; the replies of Redis are a function of the read and of the key, and the commands sent to it a trace. It shows that bots never
  exceed their grant, and that over any history of lookups a cached mask was calculated for the same generation, member version, channel
  and grant. \<open>Hierarchy\<close> has
  the guards of \<open>chat/hierarchy.py\<close>; the locale \<open>ranked_authority\<close> states what a rank gives, and its interpretation on the
  guards yields that authority is acyclic.

  \<^bold>\<open>Identifiers and limits.\<close> \<open>Snowflake\<close> is \<open>core/snowflake.py\<close>: acquisition of a lease, ownership checks and minting with
  explicit clocks, polls and store replies, and the lease protocol as an inductive step relation with its Redis scripts. It
  shows monotone, disjoint identifiers and exclusive leases, and the one way a cancelled call repeats an identifier.
  \<open>Rate_Limits\<close> is \<open>core/rate_limits.py\<close> with its Lua token bucket. \<open>Json_Limits\<close> is the tree validator of
  \<open>core/json_limits.py\<close> over a heap of containers, shared and cyclic ones included. \<open>Entity_Refs\<close> is \<open>core/types.py\<close>.

  \<^bold>\<open>Events, polls, onboarding.\<close> \<open>Recurrence\<close> is \<open>scheduled_events/recurrence.py\<close> on a Gregorian calendar; the locale
  \<open>day_search\<close> is shared by its searches. \<open>Poll_Results\<close> is \<open>chat/poll_results.py\<close>, \<open>Onboarding\<close> the configuration and
  selection of \<open>chat/onboarding.py\<close>. \<open>Automod\<close> has the rule validators and the trigger matcher of \<open>automod\<close>; its backtracking
  keyword search is shown equal to occurrences at word boundaries outside the allowed phrases.

  \<^bold>\<open>Federation.\<close> \<open>Federation_Events\<close> has the event contracts of \<open>core/federation.py\<close> and \<open>core/dm.py\<close>: what a block holds
  back, and the recognisers of the events an authority may sign for a remote actor and of the durable deletion controls. They
  are conditions read from left to right in which a conversion may raise; the library shows which actor an accepted
  event binds, that an accepted deletion is bound to its origin, and one input on which a recogniser raises. \<open>Channel_Encryption\<close> has
  the encryption policy of a room from \<open>chat/e2ee.py\<close>, the six ways in which one is received and stored, the constraints of the table and
  the checks of messages; over every sequence of deliveries a room never downgrades or returns to a replaced policy.
  \<open>Canonical_Json\<close> is canonical JSON on top of \<open>Json_Limits\<close>, down to the UTF-8 bytes, with the signing of requests and
  envelopes; the bytes are read back, so that they determine the value up to the order of object members.

  \<^bold>\<open>Bots.\<close> \<open>Command_Contract\<close> and \<open>Command_Permissions\<close> are the schema of application commands and the precedence of their
  permission entries. \<open>Installations\<close> has the channel restrictions and the usable installations of \<open>bots/installations.py\<close>.
  \<open>Runtime_Rows\<close> has the rows and messages of federated applications, with \<open>bots/target_contract.py\<close>,
  \<open>bots/worker_targets.py\<close>, the grant transitions and the announcement of a target. \<open>Runtime_Control\<close> is
  \<open>bots/runtime_control.py\<close>: the home publishes snapshots, a target accepts them into its ledger, or into pending rows before
  it knows the application, and revokes tokens, workers and grants. The locale \<open>generation_ledger\<close> states what a ledger of
  generations promises; it is interpreted on the ledger of a target and on the pending rows, and gives that deliveries
  converge in any order. An inductive relation collects the steps of a target; its invariant is that nothing revoked comes
  back. \<open>Target_Discovery\<close> is \<open>bots/target_discovery.py\<close>, and composes both directions into the recovery handshake.

  \<^bold>\<open>Bounds, fuel and termination.\<close> Nothing runs on fuel. Python's integers are \<open>int\<close>; the 64-bit columns and the range of
  an identifier are written out as checks where the code checks them. Searches of \<open>Recurrence\<close> that need not end are
  \<open>partial_function (option)\<close>: the library proves when they return, and that a yearly rule for the thirtieth of February
  never does. The rollover of \<open>Snowflake\<close> runs over the sequence of its polls and is shown to return at the first poll
  after its deadline. All other loops are total functions with a measure.

  \<^bold>\<open>What stands for other code.\<close> Arguments stand for the hash of canonical JSON (\<open>digest\<close>), SHA-256 and Ed25519, the case mappings of Unicode, the Unicode classes of
  characters, their normal forms and digit values, RE2, the preset words of automod, the text of floats, the parser of timestamps, the replies of Redis, the clocks, and
  rows that another component looks up. No property assumes more of them than it states.

  \<^bold>\<open>Not modelled.\<close> Cryptographic primitives and the verification of runtime proofs; the contents of encrypted envelopes, device lists and interaction
  contracts of \<open>chat/e2ee.py\<close>; canonical query strings (URL functions of the standard library); the pages that select rows
  for recovery and lease expiry and the clean-up of roles (transactions over many tables that call the modelled
  operations); queue policy of the federation outbox; voice, media, search, email, push and safety services (external
  services); HTTP routes, the gateway, migrations and process start-up (glue); the clients and the bot SDK. Candidates for
  an extension are \<open>core/model_validation.py\<close>, the mention rules, the automod service and \<open>bots/dm_capability.py\<close>.
\<close>

end
